theory Spec2Isabelle
  imports Main "HOL-Library.Char_ord" "HOL-Library.List_Lexorder" "HOL-Library.AList"
begin

section \<open>Python values, exceptions and the object store\<close>

text \<open>
  The notebook and the handler it writes (\<^verbatim>\<open>code/inference.py\<close>) are Python. A request
  payload is what the JSON decoder produces: \<^verbatim>\<open>None\<close>, booleans, numbers, strings, lists
  and dicts. Dicts are mutable objects, and \<^verbatim>\<open>predict_fn\<close> both mutates its payload and
  may hand the payload object itself on to the tokenizer, so dicts live in a store and a
  value of dict type is the address of the object. A number with a fractional part is
  carried as its literal: the handler never computes with it. Lists are never mutated
  by the code modelled here and are carried by value.
\<close>

type_synonym addr = nat

datatype pyval =
    PNone
  | PBool bool
  | PInt int
  | PFloat string
  | PStr string
  | PList "pyval list"
  | PDict addr

text \<open>A dict keeps its items in insertion order; keys are strings (JSON object keys).\<close>

type_synonym pydict = "(string \<times> pyval) list"

text \<open>The store: every address names one dict object.\<close>

type_synonym heap = "addr \<Rightarrow> pydict"

text \<open>
  An exception is an instance of a class; \<^verbatim>\<open>except C\<close> catches the instances of \<open>C\<close>
  and of its subclasses, so an exception carries its class and that class's bases.
\<close>

datatype pyexc = PyExc (exc_class: string) (exc_bases: "string list")

definition isinstance :: "pyexc \<Rightarrow> string \<Rightarrow> bool" where
  "isinstance e c = (c = exc_class e \<or> c \<in> set (exc_bases e))"

definition AttributeError :: pyexc where
  "AttributeError = PyExc ''AttributeError'' [''Exception'']"

definition TypeError :: pyexc where
  "TypeError = PyExc ''TypeError'' [''Exception'']"

definition IndexError :: pyexc where
  "IndexError = PyExc ''IndexError'' [''LookupError'', ''Exception'']"

definition ValueError :: pyexc where
  "ValueError = PyExc ''ValueError'' [''Exception'']"

subsection \<open>Statements that may raise\<close>

text \<open>
  A statement runs in a state and either returns a value or raises; either way it leaves
  a state behind. \<open>bind\<close> is sequencing (an exception ends the sequence),
  \<open>try_except m c h\<close> is \<^verbatim>\<open>try: m except c: h\<close>.
\<close>

type_synonym ('s, 'a) prog = "'s \<Rightarrow> (pyexc + 'a) \<times> 's"

definition ret :: "'a \<Rightarrow> ('s, 'a) prog" where
  "ret x s = (Inr x, s)"

definition lift :: "pyexc + 'a \<Rightarrow> ('s, 'a) prog" where
  "lift r s = (r, s)"

definition bind :: "('s, 'a) prog \<Rightarrow> ('a \<Rightarrow> ('s, 'b) prog) \<Rightarrow> ('s, 'b) prog" where
  "bind m f s = (case m s of (Inl e, s') \<Rightarrow> (Inl e, s') | (Inr x, s') \<Rightarrow> f x s')"

definition try_except :: "('s, 'a) prog \<Rightarrow> string \<Rightarrow> ('s, 'a) prog \<Rightarrow> ('s, 'a) prog" where
  "try_except m c h s =
     (case m s of
        (Inl e, s') \<Rightarrow> if isinstance e c then h s' else (Inl e, s')
      | (Inr x, s') \<Rightarrow> (Inr x, s'))"

section \<open>The inference handler: \<^verbatim>\<open>code/inference.py\<close>\<close>

subsection \<open>\<^verbatim>\<open>dict.pop(key, default)\<close>\<close>

definition dict_del :: "string \<Rightarrow> pydict \<Rightarrow> pydict" where
  "dict_del k kvs = filter (\<lambda>kv. fst kv \<noteq> k) kvs"

text \<open>
  \<^verbatim>\<open>d.pop(key, default)\<close>: when the key is present its value is returned and the item is
  removed; otherwise the default is returned and the dict is unchanged. With a default
  given, no \<^verbatim>\<open>KeyError\<close> is raised.
\<close>

definition dict_pop :: "string \<Rightarrow> pyval \<Rightarrow> pydict \<Rightarrow> pyval \<times> pydict" where
  "dict_pop k dflt kvs =
     (case map_of kvs k of
        None \<Rightarrow> (dflt, kvs)
      | Some v \<Rightarrow> (v, dict_del k kvs))"

subsection \<open>The third-party library\<close>

text \<open>
  The model and the tokenizer are objects of the \<^verbatim>\<open>transformers\<close> library, which is
  not part of the repository: its entry points are parameters here, and each may raise.
  A method that is given a value can read the store through it, so each takes the store
  as it is at the time of the call. \<open>'ids\<close> is the tensor of input ids, \<open>'seq\<close> one
  generated sequence; \<^verbatim>\<open>generate\<close> returns a batch of sequences.
\<close>

record ('ids, 'seq) model =
  generate :: "heap \<Rightarrow> 'ids \<Rightarrow> pydict \<Rightarrow> pyexc + 'seq list"

record ('ids, 'seq) tokenizer =
  tokenize :: "heap \<Rightarrow> pyval \<Rightarrow> pyexc + 'ids"
  decode :: "'seq \<Rightarrow> pyexc + string"

record ('ids, 'seq) transformers =
  model_from_pretrained :: "string \<Rightarrow> pydict \<Rightarrow> pyexc + ('ids, 'seq) model"
  tokenizer_from_pretrained :: "string \<Rightarrow> pyexc + ('ids, 'seq) tokenizer"

text \<open>
  The state of the handler's process: the store, and the calls made into the library,
  oldest first, each with its arguments (and, for the tokenizer, the store it sees).
\<close>

datatype ('ids, 'seq) libcall =
    CallModelFromPretrained string pydict
  | CallTokenizerFromPretrained string
  | CallTokenizer pyval heap
  | CallGenerate 'ids pydict
  | CallDecode 'seq

record ('ids, 'seq) pstate =
  heap :: heap
  calls :: "('ids, 'seq) libcall list"

definition log_call :: "('ids, 'seq) libcall \<Rightarrow> ('ids, 'seq) pstate \<Rightarrow> ('ids, 'seq) pstate" where
  "log_call c s = s\<lparr>calls := calls s @ [c]\<rparr>"

text \<open>\<^verbatim>\<open>AutoModelForSeq2SeqLM.from_pretrained(model_dir, **kwargs)\<close>\<close>

definition AutoModelForSeq2SeqLM_from_pretrained ::
  "('ids, 'seq) transformers \<Rightarrow> string \<Rightarrow> pydict
     \<Rightarrow> (('ids, 'seq) pstate, ('ids, 'seq) model) prog" where
  "AutoModelForSeq2SeqLM_from_pretrained lib model_dir kwargs s =
     (model_from_pretrained lib model_dir kwargs,
      log_call (CallModelFromPretrained model_dir kwargs) s)"

text \<open>\<^verbatim>\<open>AutoTokenizer.from_pretrained(model_dir)\<close>\<close>

definition AutoTokenizer_from_pretrained ::
  "('ids, 'seq) transformers \<Rightarrow> string \<Rightarrow> (('ids, 'seq) pstate, ('ids, 'seq) tokenizer) prog" where
  "AutoTokenizer_from_pretrained lib model_dir s =
     (tokenizer_from_pretrained lib model_dir, log_call (CallTokenizerFromPretrained model_dir) s)"

text \<open>\<^verbatim>\<open>tokenizer(inputs, return_tensors="pt").input_ids\<close>\<close>

definition tokenizer_call ::
  "('ids, 'seq) tokenizer \<Rightarrow> pyval \<Rightarrow> (('ids, 'seq) pstate, 'ids) prog" where
  "tokenizer_call tokenizer inputs s =
     (tokenize tokenizer (heap s) inputs, log_call (CallTokenizer inputs (heap s)) s)"

text \<open>\<^verbatim>\<open>model.generate(input_ids, **kwargs)\<close>\<close>

definition model_generate ::
  "('ids, 'seq) model \<Rightarrow> 'ids \<Rightarrow> pydict \<Rightarrow> (('ids, 'seq) pstate, 'seq list) prog" where
  "model_generate model input_ids kwargs s =
     (generate model (heap s) input_ids kwargs, log_call (CallGenerate input_ids kwargs) s)"

text \<open>\<^verbatim>\<open>tokenizer.decode(seq, skip_special_tokens=True)\<close>\<close>

definition tokenizer_decode ::
  "('ids, 'seq) tokenizer \<Rightarrow> 'seq \<Rightarrow> (('ids, 'seq) pstate, string) prog" where
  "tokenizer_decode tokenizer seq s = (decode tokenizer seq, log_call (CallDecode seq) s)"

subsection \<open>\<^verbatim>\<open>model_fn\<close>\<close>

text \<open>
  \<^verbatim>\<open>
  def model_fn(model_dir):
      model =  AutoModelForSeq2SeqLM.from_pretrained(model_dir, device_map="auto", load_in_8bit=True)
      tokenizer = AutoTokenizer.from_pretrained(model_dir)
      return model, tokenizer
  \<close>
\<close>

definition model_fn ::
  "('ids, 'seq) transformers \<Rightarrow> string
     \<Rightarrow> (('ids, 'seq) pstate, ('ids, 'seq) model \<times> ('ids, 'seq) tokenizer) prog" where
  "model_fn lib model_dir =
     bind (AutoModelForSeq2SeqLM_from_pretrained lib model_dir
             [(''device_map'', PStr ''auto''), (''load_in_8bit'', PBool True)]) (\<lambda>model.
     bind (AutoTokenizer_from_pretrained lib model_dir) (\<lambda>tokenizer.
     ret (model, tokenizer)))"

subsection \<open>\<^verbatim>\<open>predict_fn\<close>\<close>

text \<open>
  \<^verbatim>\<open>data.pop(key, default)\<close> on the payload. A dict is popped in the store. A list has
  a \<^verbatim>\<open>pop\<close> that takes at most one argument (\<^verbatim>\<open>TypeError\<close>); the other values have no
  \<^verbatim>\<open>pop\<close> at all (\<^verbatim>\<open>AttributeError\<close>).
\<close>

definition data_pop :: "pyval \<Rightarrow> string \<Rightarrow> pyval \<Rightarrow> (('ids, 'seq) pstate, pyval) prog" where
  "data_pop data k dflt s =
     (case data of
        PDict a \<Rightarrow>
          (let (v, kvs') = dict_pop k dflt (heap s a)
           in (Inr v, s\<lparr>heap := (heap s)(a := kvs')\<rparr>))
      | PList _ \<Rightarrow> (Inl TypeError, s)
      | _ \<Rightarrow> (Inl AttributeError, s))"

text \<open>
  \<^verbatim>\<open>**parameters\<close>: the items of a dict become the keyword arguments; any other value
  is not a mapping (\<^verbatim>\<open>TypeError\<close>).
\<close>

definition unpack_kwargs :: "pyval \<Rightarrow> (('ids, 'seq) pstate, pydict) prog" where
  "unpack_kwargs parameters s =
     (case parameters of
        PDict p \<Rightarrow> (Inr (heap s p), s)
      | _ \<Rightarrow> (Inl TypeError, s))"

text \<open>\<^verbatim>\<open>outputs[0]\<close>: the first sequence of the batch, \<^verbatim>\<open>IndexError\<close> on an empty one.\<close>

definition first_output :: "'seq list \<Rightarrow> pyexc + 'seq" where
  "first_output outputs = (case outputs of [] \<Rightarrow> Inl IndexError | x # _ \<Rightarrow> Inr x)"

text \<open>
  \<^verbatim>\<open>
  def predict_fn(data, model_and_tokenizer):
      model, tokenizer = model_and_tokenizer
      inputs = data.pop("inputs", data)
      parameters = data.pop("parameters", None)
      input_ids = tokenizer(inputs, return_tensors="pt").input_ids
      if parameters is not None:
          outputs = model.generate(input_ids, **parameters)
      else:
          outputs = model.generate(input_ids)
      prediction = tokenizer.decode(outputs[0], skip_special_tokens=True)
      return [{"generated_text": prediction}]
  \<close>
  The value returned is a new list holding one new dict, given here by its items.
\<close>

definition predict_fn ::
  "pyval \<Rightarrow> ('ids, 'seq) model \<times> ('ids, 'seq) tokenizer
     \<Rightarrow> (('ids, 'seq) pstate, pydict list) prog" where
  "predict_fn data model_and_tokenizer =
     (case model_and_tokenizer of (model, tokenizer) \<Rightarrow>
      bind (data_pop data ''inputs'' data) (\<lambda>inputs.
      bind (data_pop data ''parameters'' PNone) (\<lambda>parameters.
      bind (tokenizer_call tokenizer inputs) (\<lambda>input_ids.
      bind (if parameters \<noteq> PNone
            then bind (unpack_kwargs parameters) (\<lambda>kwargs. model_generate model input_ids kwargs)
            else model_generate model input_ids []) (\<lambda>outputs.
      bind (lift (first_output outputs)) (\<lambda>out0.
      bind (tokenizer_decode tokenizer out0) (\<lambda>prediction.
      ret [[(''generated_text'', PStr prediction)]])))))))"

text \<open>The statements of \<^verbatim>\<open>predict_fn\<close> that follow the two pops.\<close>

definition run_library ::
  "('ids, 'seq) model \<Rightarrow> ('ids, 'seq) tokenizer \<Rightarrow> pyval \<Rightarrow> pyval
     \<Rightarrow> (('ids, 'seq) pstate, pydict list) prog" where
  "run_library model tokenizer inputs parameters =
      bind (tokenizer_call tokenizer inputs) (\<lambda>input_ids.
      bind (if parameters \<noteq> PNone
            then bind (unpack_kwargs parameters) (\<lambda>kwargs. model_generate model input_ids kwargs)
            else model_generate model input_ids []) (\<lambda>outputs.
      bind (lift (first_output outputs)) (\<lambda>out0.
      bind (tokenizer_decode tokenizer out0) (\<lambda>prediction.
      ret [[(''generated_text'', PStr prediction)]]))))"

section \<open>The notebook's process\<close>

subsection \<open>Files and directories\<close>

text \<open>
  What a file holds: lines of text, bytes that are never looked into, or a tar archive
  compressed with gzip, given by its members in the order they were added. An archive
  that was opened for writing and not closed holds the members written so far and
  lacks its end: it is not a complete archive.
\<close>

datatype content =
    Text "string list"
  | Binary string
  | TarGz "tarinfo list"
  | Unfinished "tarinfo list"
and tarinfo =
    TarDir (arcname: string)
  | TarFile (arcname: string) content

text \<open>
  The file tree. A directory lists its entries by name, in the order \<^verbatim>\<open>os.listdir\<close>
  reports them; a file may be unreadable to the process. A socket stands for the entries
  that are neither files nor directories and that \<^verbatim>\<open>tarfile\<close> cannot archive.
\<close>

datatype fnode =
    File (readable: bool) content
  | Dir "(string \<times> fnode) list"
  | Socket

fun lookup :: "fnode \<Rightarrow> string list \<Rightarrow> fnode option" where
  "lookup n [] = Some n"
| "lookup (File r c) (x # xs) = None"
| "lookup (Dir es) (x # xs) = (case map_of es x of None \<Rightarrow> None | Some n \<Rightarrow> lookup n xs)"
| "lookup Socket (x # xs) = None"

text \<open>
  \<open>put r p new\<close> sets the node at \<open>p\<close>: an entry of that name is replaced where it
  stands, a new name is added to its directory, which must exist.
\<close>

fun put :: "fnode \<Rightarrow> string list \<Rightarrow> fnode \<Rightarrow> fnode option" where
  "put n [] new = Some new"
| "put (File r c) (x # xs) new = None"
| "put (Dir es) [x] new = Some (Dir (AList.update x new es))"
| "put (Dir es) (x # y # ys) new =
     (case map_of es x of
        None \<Rightarrow> None
      | Some n \<Rightarrow> (case put n (y # ys) new of
                     None \<Rightarrow> None
                   | Some n' \<Rightarrow> Some (Dir (AList.update x n' es))))"
| "put Socket (x # xs) new = None"

definition FileNotFoundError :: pyexc where
  "FileNotFoundError = PyExc ''FileNotFoundError'' [''OSError'', ''Exception'']"

definition NotADirectoryError :: pyexc where
  "NotADirectoryError = PyExc ''NotADirectoryError'' [''OSError'', ''Exception'']"

definition IsADirectoryError :: pyexc where
  "IsADirectoryError = PyExc ''IsADirectoryError'' [''OSError'', ''Exception'']"

definition FileExistsError :: pyexc where
  "FileExistsError = PyExc ''FileExistsError'' [''OSError'', ''Exception'']"

definition PermissionError :: pyexc where
  "PermissionError = PyExc ''PermissionError'' [''OSError'', ''Exception'']"

definition OSError :: pyexc where
  "OSError = PyExc ''OSError'' [''Exception'']"

subsection \<open>Paths\<close>

text \<open>
  A path string, by its components: \<^verbatim>\<open>"code/"\<close> is \<open>RelPath [''code'', '''']\<close>,
  \<^verbatim>\<open>"/opt/ml"\<close> is \<open>AbsPath [''opt'', ''ml'']\<close>, \<^verbatim>\<open>"."\<close> is \<open>RelPath [''.'']\<close> and the empty
  string is \<open>RelPath []\<close>. A position in the tree is the list of names from the root.
\<close>

datatype ppath = AbsPath "string list" | RelPath "string list"

text \<open>\<^verbatim>\<open>os.path.join(a, b)\<close>: an absolute \<open>b\<close> discards \<open>a\<close>.\<close>

fun path_join :: "ppath \<Rightarrow> ppath \<Rightarrow> ppath" where
  "path_join a (AbsPath ys) = AbsPath ys"
| "path_join (AbsPath xs) (RelPath ys) = AbsPath (xs @ ys)"
| "path_join (RelPath xs) (RelPath ys) = RelPath (xs @ ys)"

text \<open>
  Path resolution, one component at a time from the position \<open>cur\<close>: each component is
  taken in a directory that exists; an empty component and \<^verbatim>\<open>.\<close> stay, \<^verbatim>\<open>..\<close> goes to the
  parent (the root is its own parent). The last component need not exist. There are no
  symbolic links in the tree.
\<close>

fun walk :: "fnode \<Rightarrow> string list \<Rightarrow> string list \<Rightarrow> pyexc + string list" where
  "walk r cur [] = Inr cur"
| "walk r cur (x # xs) =
     (case lookup r cur of
        None \<Rightarrow> Inl FileNotFoundError
      | Some (File _ _) \<Rightarrow> Inl NotADirectoryError
      | Some Socket \<Rightarrow> Inl NotADirectoryError
      | Some (Dir _) \<Rightarrow>
          walk r (if x = [] \<or> x = ''.'' then cur
                  else if x = ''..'' then butlast cur
                  else cur @ [x]) xs)"

subsection \<open>The process and what it does\<close>

text \<open>
  Every operation the notebook performs outside the Python interpreter itself, with its
  arguments. An event is an operation together with the exception it raised, if any.
  A library object (a session, a client, a model, a predictor) is known to the notebook
  only as a reference; the payload of a prediction request and its answer are JSON.
\<close>

type_synonym obj = nat

datatype json =
    JNull
  | JBool bool
  | JInt int
  | JFloat string
  | JStr string
  | JList "json list"
  | JObj "(string \<times> json) list"

datatype opcall =
    PipInstall "string list"
  | ShellMkdir ppath
  | SessionNew "string option"
  | DefaultBucket obj
  | GetExecutionRole
  | Boto3Client string
  | IamGetRole obj string
  | WriteFile ppath
  | PathMkdir ppath
  | TemporaryDirectoryNew
  | TemporaryDirectoryCleanup ppath
  | SnapshotDownload string ppath
  | CopyTree ppath ppath
  | OsGetcwd
  | OsChdir ppath
  | OsListdir ppath
  | TarfileOpen ppath string
  | TarAdd ppath string
  | TarClose
  | S3Upload ppath string
  | HuggingFaceModelNew string string string string string
  | Deploy obj nat string
  | Predict obj json
  | DeleteModel obj
  | DeleteEndpoint obj

type_synonym event = "opcall \<times> pyexc option"

text \<open>
  The state of the notebook's kernel process: the file tree, the working directory (a
  position in the tree), what has been printed, everything outside the process
  (\<open>world\<close>), and the events so far, oldest first.
\<close>

record 'w nbstate =
  root :: fnode
  cwd :: "string list"
  stdout :: "string list"
  world :: 'w
  events :: "event list"

text \<open>An operation is logged when it ends, with its outcome.\<close>

definition outcome :: "pyexc + 'a \<Rightarrow> pyexc option" where
  "outcome r = (case r of Inl e \<Rightarrow> Some e | Inr x \<Rightarrow> None)"

definition log_op :: "opcall \<Rightarrow> ('w nbstate, 'a) prog \<Rightarrow> ('w nbstate, 'a) prog" where
  "log_op c m s = (case m s of (r, s') \<Rightarrow> (r, s'\<lparr>events := events s' @ [(c, outcome r)]\<rparr>))"

definition resolve_in :: "fnode \<Rightarrow> string list \<Rightarrow> ppath \<Rightarrow> pyexc + string list" where
  "resolve_in r c p =
     (case p of
        AbsPath xs \<Rightarrow> walk r [] xs
      | RelPath [] \<Rightarrow> Inl FileNotFoundError
      | RelPath xs \<Rightarrow> walk r c xs)"

definition resolve :: "'w nbstate \<Rightarrow> ppath \<Rightarrow> pyexc + string list" where
  "resolve s p = resolve_in (root s) (cwd s) p"

text \<open>\<^verbatim>\<open>print(text)\<close>\<close>

definition print :: "string \<Rightarrow> ('w nbstate, unit) prog" where
  "print text s = (Inr (), s\<lparr>stdout := stdout s @ [text]\<rparr>)"

text \<open>\<^verbatim>\<open>os.getcwd()\<close>: the working directory, which must still exist.\<close>

definition os_getcwd :: "('w nbstate, ppath) prog" where
  "os_getcwd =
     log_op OsGetcwd (\<lambda>s.
       (case lookup (root s) (cwd s) of
          Some (Dir _) \<Rightarrow> (Inr (AbsPath (cwd s)), s)
        | _ \<Rightarrow> (Inl FileNotFoundError, s)))"

text \<open>\<^verbatim>\<open>os.chdir(path)\<close>\<close>

definition os_chdir :: "ppath \<Rightarrow> ('w nbstate, unit) prog" where
  "os_chdir p =
     log_op (OsChdir p) (\<lambda>s.
       (case resolve s p of
          Inl e \<Rightarrow> (Inl e, s)
        | Inr t \<Rightarrow>
            (case lookup (root s) t of
               None \<Rightarrow> (Inl FileNotFoundError, s)
             | Some (File _ _) \<Rightarrow> (Inl NotADirectoryError, s)
             | Some Socket \<Rightarrow> (Inl NotADirectoryError, s)
             | Some (Dir _) \<Rightarrow> (Inr (), s\<lparr>cwd := t\<rparr>))))"

text \<open>\<^verbatim>\<open>os.listdir(path)\<close>\<close>

definition os_listdir :: "ppath \<Rightarrow> ('w nbstate, string list) prog" where
  "os_listdir p =
     log_op (OsListdir p) (\<lambda>s.
       (case resolve s p of
          Inl e \<Rightarrow> (Inl e, s)
        | Inr t \<Rightarrow>
            (case lookup (root s) t of
               None \<Rightarrow> (Inl FileNotFoundError, s)
             | Some (File _ _) \<Rightarrow> (Inl NotADirectoryError, s)
             | Some Socket \<Rightarrow> (Inl NotADirectoryError, s)
             | Some (Dir es) \<Rightarrow> (Inr (map fst es), s))))"

subsection \<open>\<^verbatim>\<open>tarfile\<close>\<close>

text \<open>
  \<^verbatim>\<open>tarfile.open(path, "w:gz")\<close> creates the file, or empties the one that is there, and
  returns the archive object, which is known by the position of its file
  (\<^verbatim>\<open>tar.name\<close>). What is added to the archive is written to that file. A directory
  or a socket cannot be opened for writing.
\<close>

definition tarfile_open :: "ppath \<Rightarrow> ('w nbstate, string list) prog" where
  "tarfile_open p =
     log_op (TarfileOpen p ''w:gz'') (\<lambda>s.
       (case resolve s p of
          Inl e \<Rightarrow> (Inl e, s)
        | Inr t \<Rightarrow>
            (case lookup (root s) t of
               Some (Dir _) \<Rightarrow> (Inl IsADirectoryError, s)
             | Some Socket \<Rightarrow> (Inl OSError, s)
             | old \<Rightarrow>
                 (case put (root s) t
                         (File (case old of Some (File r _) \<Rightarrow> r | _ \<Rightarrow> True) (Unfinished [])) of
                    None \<Rightarrow> (Inl FileNotFoundError, s)
                  | Some r' \<Rightarrow> (Inr t, s\<lparr>root := r'\<rparr>)))))"

text \<open>
  The members \<^verbatim>\<open>tar.add(name, arcname)\<close> writes for the node at position \<open>name\<close>, and
  the exception that ends it early, if any. The archive's own file is skipped. A file
  is read and becomes one member. A directory becomes a member, followed by what
  \<^verbatim>\<open>add\<close> writes for each of its entries, taken in sorted order under
  \<^verbatim>\<open>os.path.join(arcname, entry)\<close>. A socket is of no type that \<^verbatim>\<open>tarfile\<close> supports:
  \<^verbatim>\<open>add\<close> returns without writing a member and without raising.
\<close>

function tar_members ::
  "string list \<Rightarrow> string list \<Rightarrow> string \<Rightarrow> fnode \<Rightarrow> tarinfo list \<times> pyexc option"
and tar_members_in ::
  "string list \<Rightarrow> string list \<Rightarrow> string \<Rightarrow> (string \<times> fnode) list \<Rightarrow> tarinfo list \<times> pyexc option"
where
  "tar_members tar name arc (File r c) =
     (if name = tar then ([], None)
      else if r then ([TarFile arc c], None)
      else ([], Some PermissionError))"
| "tar_members tar name arc (Dir es) =
     (if name = tar then ([], None)
      else (case tar_members_in tar name arc (sort_key fst es) of
              (ms, ex) \<Rightarrow> (TarDir arc # ms, ex)))"
| "tar_members_in tar name arc [] = ([], None)"
| "tar_members_in tar name arc (e # es) =
     (case tar_members tar (name @ [fst e]) (arc @ ''/'' @ fst e) (snd e) of
        (ms, Some ex) \<Rightarrow> (ms, Some ex)
      | (ms, None) \<Rightarrow>
          (case tar_members_in tar name arc es of
             (ms', ex) \<Rightarrow> (ms @ ms', ex)))"
| "tar_members tar name arc Socket = ([], None)"
  by pat_completeness auto
termination
proof -
  have ins: "size_list f (insort_key k x xs) = Suc (f x + size_list f xs)"
    for f :: "string \<times> fnode \<Rightarrow> nat" and k :: "string \<times> fnode \<Rightarrow> string" and x xs
    by (induction xs) auto
  have srt: "size_list f (sort_key k xs) = size_list f xs"
    for f :: "string \<times> fnode \<Rightarrow> nat" and k :: "string \<times> fnode \<Rightarrow> string" and xs
    by (induction xs) (auto simp: ins)
  have prd: "size_prod (\<lambda>x. 0) f = (\<lambda>e. Suc (f (snd e)))" for f :: "fnode \<Rightarrow> nat"
    by (rule ext) (simp add: size_prod_simp split: prod.split)
  show ?thesis
    by (relation "measure (\<lambda>x. case x of
            Inl (t, n, a, node) \<Rightarrow> 2 * size node
          | Inr (t, n, a, es) \<Rightarrow> 2 * size_list (\<lambda>e. Suc (size (snd e))) es + 1)")
       (auto simp: srt prd)
qed

text \<open>Writing members to the archive's file, while it is there and still open.\<close>

definition write_members :: "string list \<Rightarrow> tarinfo list \<Rightarrow> fnode \<Rightarrow> fnode" where
  "write_members tar ms r =
     (case lookup r tar of
        Some (File rd (Unfinished old)) \<Rightarrow>
          (case put r tar (File rd (Unfinished (old @ ms))) of Some r' \<Rightarrow> r' | None \<Rightarrow> r)
      | _ \<Rightarrow> r)"

text \<open>\<^verbatim>\<open>tar.add(name, arcname=arcname)\<close>\<close>

definition tar_add :: "string list \<Rightarrow> ppath \<Rightarrow> string \<Rightarrow> ('w nbstate, unit) prog" where
  "tar_add tar name arc =
     log_op (TarAdd name arc) (\<lambda>s.
       (case resolve s name of
          Inl e \<Rightarrow> (Inl e, s)
        | Inr t \<Rightarrow>
            (case lookup (root s) t of
               None \<Rightarrow> (if t = tar then (Inr (), s) else (Inl FileNotFoundError, s))
             | Some n \<Rightarrow>
                 (case tar_members tar t arc n of
                    (ms, ex) \<Rightarrow>
                      (case ex of None \<Rightarrow> Inr () | Some e \<Rightarrow> Inl e,
                       s\<lparr>root := write_members tar ms (root s)\<rparr>)))))"

text \<open>\<^verbatim>\<open>tar.close()\<close> completes the archive.\<close>

definition tar_close :: "string list \<Rightarrow> ('w nbstate, unit) prog" where
  "tar_close tar =
     log_op TarClose (\<lambda>s.
       (Inr (),
        s\<lparr>root :=
            (case lookup (root s) tar of
               Some (File rd (Unfinished ms)) \<Rightarrow>
                 (case put (root s) tar (File rd (TarGz ms)) of Some r' \<Rightarrow> r' | None \<Rightarrow> root s)
             | _ \<Rightarrow> root s)\<rparr>))"

text \<open>
  \<^verbatim>\<open>with tarfile.open(path, "w:gz") as tar: body\<close>. Leaving the block normally closes
  the archive; leaving it by an exception only closes the file, which stays unfinished,
  and the exception goes on.
\<close>

definition with_tarfile ::
  "ppath \<Rightarrow> (string list \<Rightarrow> ('w nbstate, 'a) prog) \<Rightarrow> ('w nbstate, 'a) prog" where
  "with_tarfile p body =
     bind (tarfile_open p) (\<lambda>tar.
     bind (body tar) (\<lambda>x.
     bind (tar_close tar) (\<lambda>_.
     ret x)))"

text \<open>\<^verbatim>\<open>for x in xs: body\<close>\<close>

fun for_each :: "'a list \<Rightarrow> ('a \<Rightarrow> ('s, unit) prog) \<Rightarrow> ('s, unit) prog" where
  "for_each [] body = ret ()"
| "for_each (x # xs) body = bind (body x) (\<lambda>_. for_each xs body)"

subsection \<open>\<^verbatim>\<open>compress\<close>\<close>

text \<open>
  \<^verbatim>\<open>
  def compress(tar_dir=None,output_file="model.tar.gz"):
      parent_dir=os.getcwd()
      os.chdir(tar_dir)
      with tarfile.open(os.path.join(parent_dir, output_file), "w:gz") as tar:
          for item in os.listdir('.'):
            print(item)
            tar.add(item, arcname=item)
      os.chdir(parent_dir)
  \<close>
  \<open>tar_dir\<close> is \<open>None\<close> when the argument is left out; \<^verbatim>\<open>os.chdir(None)\<close> is a
  \<^verbatim>\<open>TypeError\<close>. The default of \<open>output_file\<close> is \<open>RelPath [''model.tar.gz'']\<close>.
\<close>

definition compress :: "ppath option \<Rightarrow> ppath \<Rightarrow> ('w nbstate, unit) prog" where
  "compress tar_dir output_file =
     bind os_getcwd (\<lambda>parent_dir.
     bind (case tar_dir of
             None \<Rightarrow> log_op (OsChdir (RelPath [])) (lift (Inl TypeError))
           | Some d \<Rightarrow> os_chdir d) (\<lambda>_.
     bind (with_tarfile (path_join parent_dir output_file) (\<lambda>tar.
             bind (os_listdir (RelPath [''.''])) (\<lambda>items.
             for_each items (\<lambda>item.
               bind (print item) (\<lambda>_.
               tar_add tar (RelPath [item]) item))))) (\<lambda>_.
     os_chdir parent_dir)))"

text \<open>
  A name a directory entry can have: not empty, not \<^verbatim>\<open>.\<close> or \<^verbatim>\<open>..\<close>, without a slash.
\<close>

definition proper_name :: "string \<Rightarrow> bool" where
  "proper_name x = (x \<noteq> [] \<and> x \<noteq> ''.'' \<and> x \<noteq> ''..'' \<and> CHR ''/'' \<notin> set x)"

text \<open>A well-formed tree: the entries of a directory have proper names, each name once.\<close>

fun wf_names :: "fnode \<Rightarrow> bool" where
  "wf_names (File r c) = True"
| "wf_names Socket = True"
| "wf_names (Dir es) =
     (distinct (map fst es) \<and> list_all (\<lambda>e. proper_name (fst e) \<and> wf_names (snd e)) es)"

text \<open>
  The name of a member that lies at the relative path \<open>p\<close>: the components joined by
  slashes, as repeated \<^verbatim>\<open>os.path.join\<close> builds it.
\<close>

definition slashes :: "string list \<Rightarrow> string" where
  "slashes xs = concat (map (\<lambda>x. ''/'' @ x) xs)"

definition join_slash :: "string list \<Rightarrow> string" where
  "join_slash xs = (case xs of [] \<Rightarrow> [] | x # ys \<Rightarrow> x @ slashes ys)"

text \<open>A node without what lies below it.\<close>

definition kind :: "fnode \<Rightarrow> fnode" where
  "kind n = (case n of Dir es \<Rightarrow> Dir [] | _ \<Rightarrow> n)"

text \<open>
  A member stands for a node of the tree: a file member for a readable file with the
  same content, a directory member for a directory.
\<close>

definition member_of :: "tarinfo \<Rightarrow> fnode option \<Rightarrow> bool" where
  "member_of m n =
     (case m of
        TarFile arc c \<Rightarrow> n = Some (File True c)
      | TarDir arc \<Rightarrow> (case n of Some (Dir es) \<Rightarrow> True | _ \<Rightarrow> False))"

section \<open>The notebook\<close>

subsection \<open>What lies outside the process\<close>

text \<open>
  The services and libraries the notebook calls are not part of the repository: the
  package installer, the SageMaker and boto3 SDKs, the model hub client, the temporary
  directory, \<^verbatim>\<open>distutils\<close>' \<^verbatim>\<open>copy_tree\<close>. They are parameters here. Each acts on the
  world outside the process (\<open>'w\<close>) and may raise; \<^verbatim>\<open>copy_tree\<close> also changes the file
  tree, and the upload reads it.
\<close>

record 'w env =
  pip_install :: "string list \<Rightarrow> 'w \<Rightarrow> 'w"
  Session :: "string option \<Rightarrow> 'w \<Rightarrow> (pyexc + obj) \<times> 'w"
  default_bucket :: "obj \<Rightarrow> 'w \<Rightarrow> (pyexc + string) \<times> 'w"
  boto_region_name :: "obj \<Rightarrow> 'w \<Rightarrow> string"
  get_execution_role :: "'w \<Rightarrow> (pyexc + string) \<times> 'w"
  boto3_client :: "string \<Rightarrow> 'w \<Rightarrow> (pyexc + obj) \<times> 'w"
  get_role_arn :: "obj \<Rightarrow> string \<Rightarrow> 'w \<Rightarrow> (pyexc + string) \<times> 'w"
  TemporaryDirectory :: "'w \<Rightarrow> (pyexc + ppath) \<times> 'w"
  cleanup :: "ppath \<Rightarrow> 'w \<Rightarrow> 'w"
  snapshot_download :: "string \<Rightarrow> ppath \<Rightarrow> 'w \<Rightarrow> (pyexc + ppath) \<times> 'w"
  copy_tree ::
    "ppath \<Rightarrow> ppath \<Rightarrow> fnode \<Rightarrow> string list \<Rightarrow> 'w \<Rightarrow> (pyexc + unit) \<times> fnode \<times> 'w"
  S3Uploader_upload ::
    "ppath \<Rightarrow> string \<Rightarrow> fnode \<Rightarrow> string list \<Rightarrow> 'w \<Rightarrow> (pyexc + string) \<times> 'w"
  HuggingFaceModel ::
    "string \<Rightarrow> string \<Rightarrow> string \<Rightarrow> string \<Rightarrow> string \<Rightarrow> 'w \<Rightarrow> (pyexc + obj) \<times> 'w"
  deploy :: "obj \<Rightarrow> nat \<Rightarrow> string \<Rightarrow> 'w \<Rightarrow> (pyexc + obj) \<times> 'w"
  predict :: "obj \<Rightarrow> json \<Rightarrow> 'w \<Rightarrow> (pyexc + json) \<times> 'w"
  delete_model :: "obj \<Rightarrow> 'w \<Rightarrow> (pyexc + unit) \<times> 'w"
  delete_endpoint :: "obj \<Rightarrow> 'w \<Rightarrow> (pyexc + unit) \<times> 'w"

text \<open>A call into the world, logged.\<close>

definition call :: "opcall \<Rightarrow> ('w \<Rightarrow> (pyexc + 'a) \<times> 'w) \<Rightarrow> ('w nbstate, 'a) prog" where
  "call c f = log_op c (\<lambda>s. case f (world s) of (r, w) \<Rightarrow> (r, s\<lparr>world := w\<rparr>))"

text \<open>\<^verbatim>\<open>copy_tree(src, dst)\<close>\<close>

definition copy_tree_call :: "'w env \<Rightarrow> ppath \<Rightarrow> ppath \<Rightarrow> ('w nbstate, unit) prog" where
  "copy_tree_call env src dst =
     log_op (CopyTree src dst) (\<lambda>s.
       case copy_tree env src dst (root s) (cwd s) (world s) of
         (r, r', w) \<Rightarrow> (r, s\<lparr>root := r', world := w\<rparr>))"

text \<open>
  \<^verbatim>\<open>with TemporaryDirectory() as tmpdir: body\<close>. The directory is removed when the block
  is left, normally or by an exception, which then goes on.
\<close>

definition with_TemporaryDirectory ::
  "'w env \<Rightarrow> (ppath \<Rightarrow> ('w nbstate, 'a) prog) \<Rightarrow> ('w nbstate, 'a) prog" where
  "with_TemporaryDirectory env body =
     bind (call TemporaryDirectoryNew (TemporaryDirectory env)) (\<lambda>tmpdir s.
       case body tmpdir s of
         (r, s') \<Rightarrow>
           (r, s'\<lparr>world := cleanup env tmpdir (world s'),
                  events := events s' @ [(TemporaryDirectoryCleanup tmpdir, None)]\<rparr>))"

subsection \<open>Shell commands and cell magics on files\<close>

definition path_str :: "ppath \<Rightarrow> string" where
  "path_str p = (case p of AbsPath xs \<Rightarrow> ''/'' @ join_slash xs | RelPath xs \<Rightarrow> join_slash xs)"

text \<open>
  \<^verbatim>\<open>!mkdir path\<close> runs in a shell. When the directory cannot be made the shell command
  fails, which raises nothing in the notebook.
\<close>

definition shell_mkdir :: "ppath \<Rightarrow> ('w nbstate, unit) prog" where
  "shell_mkdir p =
     log_op (ShellMkdir p) (\<lambda>s.
       (Inr (),
        case resolve s p of
          Inl e \<Rightarrow> s
        | Inr t \<Rightarrow>
            (case lookup (root s) t of
               Some n \<Rightarrow> s
             | None \<Rightarrow> (case put (root s) t (Dir []) of None \<Rightarrow> s | Some r' \<Rightarrow> s\<lparr>root := r'\<rparr>))))"

text \<open>
  \<^verbatim>\<open>%%writefile path\<close> says whether it writes a new file or overwrites one, then opens
  the file for writing and writes the rest of the cell, given by its lines. A directory
  or a socket cannot be opened for writing.
\<close>

definition write_file :: "ppath \<Rightarrow> string list \<Rightarrow> ('w nbstate, unit) prog" where
  "write_file p text =
     log_op (WriteFile p) (\<lambda>s.
       (let old = (case resolve s p of Inl e \<Rightarrow> None | Inr t \<Rightarrow> lookup (root s) t);
            s1 = s\<lparr>stdout := stdout s @
                   [(if old = None then ''Writing '' else ''Overwriting '') @ path_str p]\<rparr>
        in case resolve s p of
             Inl e \<Rightarrow> (Inl e, s1)
           | Inr t \<Rightarrow>
               (case old of
                  Some (Dir _) \<Rightarrow> (Inl IsADirectoryError, s1)
                | Some Socket \<Rightarrow> (Inl OSError, s1)
                | _ \<Rightarrow>
                    (case put (root s) t
                            (File (case old of Some (File r _) \<Rightarrow> r | _ \<Rightarrow> True) (Text text)) of
                       None \<Rightarrow> (Inl FileNotFoundError, s1)
                     | Some r' \<Rightarrow> (Inr (), s1\<lparr>root := r'\<rparr>)))))"

text \<open>\<^verbatim>\<open>Path(p).mkdir()\<close>\<close>

definition path_mkdir :: "ppath \<Rightarrow> ('w nbstate, unit) prog" where
  "path_mkdir p =
     log_op (PathMkdir p) (\<lambda>s.
       (case resolve s p of
          Inl e \<Rightarrow> (Inl e, s)
        | Inr t \<Rightarrow>
            (case lookup (root s) t of
               Some n \<Rightarrow> (Inl FileExistsError, s)
             | None \<Rightarrow>
                 (case put (root s) t (Dir []) of
                    None \<Rightarrow> (Inl FileNotFoundError, s)
                  | Some r' \<Rightarrow> (Inr (), s\<lparr>root := r'\<rparr>)))))"

subsection \<open>The cells, top to bottom\<close>

text \<open>\<^verbatim>\<open>!pip install "sagemaker==2.116.0" "huggingface_hub==0.12.0" --upgrade --quiet\<close>\<close>

definition cell_install :: "'w env \<Rightarrow> ('w nbstate, unit) prog" where
  "cell_install env =
     call (PipInstall [''sagemaker==2.116.0'', ''huggingface_hub==0.12.0'', ''--upgrade'', ''--quiet''])
       (\<lambda>w. (Inr (), pip_install env
                 [''sagemaker==2.116.0'', ''huggingface_hub==0.12.0'', ''--upgrade'', ''--quiet''] w))"

text \<open>
  \<^verbatim>\<open>
  sess = sagemaker.Session()
  sagemaker_session_bucket=None
  if sagemaker_session_bucket is None and sess is not None:
      sagemaker_session_bucket = sess.default_bucket()
  try:
      role = sagemaker.get_execution_role()
  except ValueError:
      iam = boto3.client('iam')
      role = iam.get_role(RoleName='sagemaker_execution_role')['Role']['Arn']
  sess = sagemaker.Session(default_bucket=sagemaker_session_bucket)
  print(f"sagemaker role arn: {role}")
  print(f"sagemaker bucket: {sess.default_bucket()}")
  print(f"sagemaker session region: {sess.boto_region_name}")
  \<close>
  A session is an object, never \<^verbatim>\<open>None\<close>. The cell leaves \<open>role\<close> and \<open>sess\<close> to the
  cells below.
\<close>

definition cell_credentials :: "'w env \<Rightarrow> ('w nbstate, string \<times> obj) prog" where
  "cell_credentials env =
     bind (call (SessionNew None) (Session env None)) (\<lambda>sess.
     bind (ret None) (\<lambda>sagemaker_session_bucket.
     bind (if sagemaker_session_bucket = None
           then bind (call (DefaultBucket sess) (default_bucket env sess)) (\<lambda>b. ret (Some b))
           else ret sagemaker_session_bucket) (\<lambda>sagemaker_session_bucket.
     bind (try_except (call GetExecutionRole (get_execution_role env)) ''ValueError''
             (bind (call (Boto3Client ''iam'') (boto3_client env ''iam'')) (\<lambda>iam.
              call (IamGetRole iam ''sagemaker_execution_role'')
                (get_role_arn env iam ''sagemaker_execution_role'')))) (\<lambda>role.
     bind (call (SessionNew sagemaker_session_bucket) (Session env sagemaker_session_bucket)) (\<lambda>sess.
     bind (print (''sagemaker role arn: '' @ role)) (\<lambda>_.
     bind (call (DefaultBucket sess) (default_bucket env sess)) (\<lambda>bucket.
     bind (print (''sagemaker bucket: '' @ bucket)) (\<lambda>_.
     bind (\<lambda>s. (Inr (boto_region_name env sess (world s)), s)) (\<lambda>region.
     bind (print (''sagemaker session region: '' @ region)) (\<lambda>_.
     ret (role, sess)))))))))))"

text \<open>\<^verbatim>\<open>!mkdir code\<close>\<close>

definition cell_mkdir_code :: "('w nbstate, unit) prog" where
  "cell_mkdir_code = shell_mkdir (RelPath [''code''])"

text \<open>The cell \<^verbatim>\<open>%%writefile code/requirements.txt\<close> and the lines below its first.\<close>

definition requirements_txt :: "string list" where
  "requirements_txt = [''accelerate==0.16.0'', ''transformers==4.26.0'', ''bitsandbytes==0.37.0'']"

definition cell_requirements :: "('w nbstate, unit) prog" where
  "cell_requirements = write_file (RelPath [''code'', ''requirements.txt'']) requirements_txt"

text \<open>The cell \<^verbatim>\<open>%%writefile code/inference.py\<close>: the handler of the first part.\<close>

definition inference_py :: "string list" where
  \<open>inference_py =
     [''from typing import Dict, List, Any'',
      ''from transformers import AutoModelForSeq2SeqLM, AutoTokenizer'',
      ''import torch'',
      [],
      [],
      ''def model_fn(model_dir):'',
      ''    # load model and processor from model_dir'',
      ''    model =  AutoModelForSeq2SeqLM.from_pretrained(model_dir, device_map="auto", load_in_8bit=True)'',
      ''    tokenizer = AutoTokenizer.from_pretrained(model_dir)'',
      [],
      ''    return model, tokenizer'',
      [],
      [],
      ''def predict_fn(data, model_and_tokenizer):'',
      ''    # unpack model and tokenizer'',
      ''    model, tokenizer = model_and_tokenizer'',
      [],
      ''    # process input'',
      ''    inputs = data.pop("inputs", data)'',
      ''    parameters = data.pop("parameters", None)'',
      [],
      ''    # preprocess'',
      ''    input_ids = tokenizer(inputs, return_tensors="pt").input_ids'',
      [],
      ''    # pass inputs with all kwargs in data'',
      ''    if parameters is not None:'',
      ''        outputs = model.generate(input_ids, **parameters)'',
      ''    else:'',
      ''        outputs = model.generate(input_ids)'',
      [],
      ''    # postprocess the prediction'',
      ''    prediction = tokenizer.decode(outputs[0], skip_special_tokens=True)'',
      [],
      ''    return [{"generated_text": prediction}]'']\<close>

definition cell_inference :: "('w nbstate, unit) prog" where
  "cell_inference = write_file (RelPath [''code'', ''inference.py'']) inference_py"

text \<open>\<^verbatim>\<open>s.split(sep)\<close> for a separator of one character.\<close>

fun split_on :: "char \<Rightarrow> string \<Rightarrow> string list" where
  "split_on sep [] = [[]]"
| "split_on sep (c # cs) =
     (if c = sep then [] # split_on sep cs
      else (case split_on sep cs of [] \<Rightarrow> [[c]] | w # ws \<Rightarrow> (c # w) # ws))"

definition HF_MODEL_ID :: string where
  "HF_MODEL_ID = ''philschmid/flan-t5-xxl-sharded-fp16''"

text \<open>\<^verbatim>\<open>model_tar_dir = Path(HF_MODEL_ID.split("/")[-1])\<close>\<close>

definition model_tar_dir :: ppath where
  "model_tar_dir = RelPath [last (split_on CHR ''/'' HF_MODEL_ID)]"

text \<open>
  \<^verbatim>\<open>
  model_tar_dir.mkdir()
  with TemporaryDirectory() as tmpdir:
      snapshot_dir = snapshot_download(repo_id=HF_MODEL_ID, cache_dir=tmpdir)
      copy_tree(snapshot_dir, str(model_tar_dir))
  \<close>
\<close>

definition cell_download :: "'w env \<Rightarrow> ('w nbstate, unit) prog" where
  "cell_download env =
     bind (path_mkdir model_tar_dir) (\<lambda>_.
     with_TemporaryDirectory env (\<lambda>tmpdir.
       bind (call (SnapshotDownload HF_MODEL_ID tmpdir) (snapshot_download env HF_MODEL_ID tmpdir))
         (\<lambda>snapshot_dir.
       copy_tree_call env snapshot_dir model_tar_dir)))"

text \<open>\<^verbatim>\<open>copy_tree("code/", str(model_tar_dir.joinpath("code")))\<close>\<close>

definition cell_copy_code :: "'w env \<Rightarrow> ('w nbstate, unit) prog" where
  "cell_copy_code env =
     copy_tree_call env (RelPath [''code'', []]) (path_join model_tar_dir (RelPath [''code'']))"

text \<open>\<^verbatim>\<open>compress(str(model_tar_dir))\<close>\<close>

definition cell_compress :: "('w nbstate, unit) prog" where
  "cell_compress = compress (Some model_tar_dir) (RelPath [''model.tar.gz''])"

text \<open>
  \<^verbatim>\<open>
  s3_model_uri = S3Uploader.upload(local_path="model.tar.gz",
                     desired_s3_uri=f"s3://{sess.default_bucket()}/flan-t5-xxl")
  print(f"model uploaded to: {s3_model_uri}")
  \<close>
\<close>

definition cell_upload :: "'w env \<Rightarrow> obj \<Rightarrow> ('w nbstate, string) prog" where
  "cell_upload env sess =
     bind (call (DefaultBucket sess) (default_bucket env sess)) (\<lambda>bucket.
     bind (\<lambda>s. call (S3Upload (RelPath [''model.tar.gz'']) (''s3://'' @ bucket @ ''/flan-t5-xxl''))
                 (S3Uploader_upload env (RelPath [''model.tar.gz''])
                    (''s3://'' @ bucket @ ''/flan-t5-xxl'') (root s) (cwd s)) s) (\<lambda>s3_model_uri.
     bind (print (''model uploaded to: '' @ s3_model_uri)) (\<lambda>_.
     ret s3_model_uri)))"

text \<open>
  \<^verbatim>\<open>
  huggingface_model = HuggingFaceModel(model_data=s3_model_uri, role=role,
     transformers_version="4.17", pytorch_version="1.10", py_version='py38')
  predictor = huggingface_model.deploy(initial_instance_count=1, instance_type="ml.g5.xlarge")
  \<close>
\<close>

definition cell_deploy :: "'w env \<Rightarrow> string \<Rightarrow> string \<Rightarrow> ('w nbstate, obj) prog" where
  "cell_deploy env s3_model_uri role =
     bind (call (HuggingFaceModelNew s3_model_uri role ''4.17'' ''1.10'' ''py38'')
             (HuggingFaceModel env s3_model_uri role ''4.17'' ''1.10'' ''py38'')) (\<lambda>huggingface_model.
     call (Deploy huggingface_model 1 ''ml.g5.xlarge'')
       (deploy env huggingface_model 1 ''ml.g5.xlarge''))"

text \<open>The two prediction requests.\<close>

definition payload_summarize :: json where
  "payload_summarize =
     JObj [(''inputs'', JStr
        (''Summarize the following text: \<newline>'' @
         ''Peter and Elizabeth took a taxi to attend the night party in the city. While in the party, Elizabeth collapsed and was rushed to the hospital.\<newline>'' @
         ''Since she was diagnosed with a brain injury, the doctor told Peter to stay besides her until she gets well. \<newline>'' @
         ''Therefore, Peter stayed with her at the hospital for 3 days without leaving.\<newline>'')),
       (''parameters'', JObj
         [(''early_stopping'', JBool True), (''length_penalty'', JFloat ''2.0''),
          (''max_new_tokens'', JInt 50), (''temperature'', JInt 0), (''min_length'', JInt 10),
          (''no_repeat_ngram_size'', JInt 3)])]"

definition payload_question :: json where
  "payload_question =
     JObj [(''inputs'', JStr
        (''Answer the following question step by step:\<newline>'' @
         ''Roger has 5 tennis balls. He buys 2 more cans of tennis balls. \<newline>'' @
         ''Each can has 3 tennis balls. How many tennis balls does he have now?\<newline>'')),
       (''parameters'', JObj
         [(''early_stopping'', JBool True), (''length_penalty'', JFloat ''2.0''),
          (''max_new_tokens'', JInt 50), (''temperature'', JInt 0)])]"

definition cell_predict :: "'w env \<Rightarrow> obj \<Rightarrow> json \<Rightarrow> ('w nbstate, json) prog" where
  "cell_predict env predictor payload = call (Predict predictor payload) (predict env predictor payload)"

text \<open>
  \<^verbatim>\<open>
  predictor.delete_model()
  predictor.delete_endpoint()
  \<close>
\<close>

definition cell_delete :: "'w env \<Rightarrow> obj \<Rightarrow> ('w nbstate, unit) prog" where
  "cell_delete env predictor =
     bind (call (DeleteModel predictor) (delete_model env predictor)) (\<lambda>_.
     call (DeleteEndpoint predictor) (delete_endpoint env predictor))"

text \<open>
  Running all cells, top to bottom. The run stops at the first cell that raises, and the
  exception is what the user sees.
\<close>

definition notebook :: "'w env \<Rightarrow> ('w nbstate, unit) prog" where
  "notebook env =
     bind (cell_install env) (\<lambda>_.
     bind (cell_credentials env) (\<lambda>(role, sess).
     bind cell_mkdir_code (\<lambda>_.
     bind cell_requirements (\<lambda>_.
     bind cell_inference (\<lambda>_.
     bind (cell_download env) (\<lambda>_.
     bind (cell_copy_code env) (\<lambda>_.
     bind cell_compress (\<lambda>_.
     bind (cell_upload env sess) (\<lambda>s3_model_uri.
     bind (cell_deploy env s3_model_uri role) (\<lambda>predictor.
     bind (cell_predict env predictor payload_summarize) (\<lambda>_.
     bind (cell_predict env predictor payload_question) (\<lambda>_.
     cell_delete env predictor))))))))))))"

subsection \<open>The steps of the specification\<close>

text \<open>
  The nine steps the specification lists, and the step each operation belongs to.
  Installing the packages and asking a session for its bucket (done both when acquiring
  the session and when uploading) belong to none. A tree is copied twice: into the
  model directory (the download) and into its \<^verbatim>\<open>code\<close> subdirectory (the handler).
\<close>

datatype step =
    StepCredentials
  | StepWriteFiles
  | StepDownload
  | StepCopyHandler
  | StepCompress
  | StepUpload
  | StepDeploy
  | StepPredict
  | StepDelete

fun step_of :: "opcall \<Rightarrow> step option" where
  "step_of (PipInstall args) = None"
| "step_of (DefaultBucket sess) = None"
| "step_of (SessionNew bucket) = Some StepCredentials"
| "step_of GetExecutionRole = Some StepCredentials"
| "step_of (Boto3Client service) = Some StepCredentials"
| "step_of (IamGetRole iam name) = Some StepCredentials"
| "step_of (ShellMkdir p) = Some StepWriteFiles"
| "step_of (WriteFile p) = Some StepWriteFiles"
| "step_of (PathMkdir p) = Some StepDownload"
| "step_of TemporaryDirectoryNew = Some StepDownload"
| "step_of (TemporaryDirectoryCleanup p) = Some StepDownload"
| "step_of (SnapshotDownload repo_id cache_dir) = Some StepDownload"
| "step_of (CopyTree src dst) =
     (if dst = path_join model_tar_dir (RelPath [''code'']) then Some StepCopyHandler
      else Some StepDownload)"
| "step_of OsGetcwd = Some StepCompress"
| "step_of (OsChdir p) = Some StepCompress"
| "step_of (OsListdir p) = Some StepCompress"
| "step_of (TarfileOpen p mode) = Some StepCompress"
| "step_of (TarAdd p arc) = Some StepCompress"
| "step_of TarClose = Some StepCompress"
| "step_of (S3Upload p uri) = Some StepUpload"
| "step_of (HuggingFaceModelNew model_data role tv pv py) = Some StepDeploy"
| "step_of (Deploy model n instance_type) = Some StepDeploy"
| "step_of (Predict predictor payload) = Some StepPredict"
| "step_of (DeleteModel predictor) = Some StepDelete"
| "step_of (DeleteEndpoint predictor) = Some StepDelete"

definition steps_of :: "event list \<Rightarrow> step list" where
  "steps_of evs = concat (map (\<lambda>ev. case step_of (fst ev) of None \<Rightarrow> [] | Some st \<Rightarrow> [st]) evs)"

subsection \<open>Statements about the events of a run\<close>

text \<open>
  \<open>emits m Q\<close>: whatever state \<open>m\<close> runs in, it only adds events, and \<open>Q\<close> holds of
  the events it adds and of its result.
\<close>

definition emits :: "('w nbstate, 'a) prog \<Rightarrow> (event list \<Rightarrow> pyexc + 'a \<Rightarrow> bool) \<Rightarrow> bool" where
  "emits m Q = (\<forall>s. \<exists>new. events (snd (m s)) = events s @ new \<and> Q new (fst (m s)))"

text \<open>
  The events are all of a kind \<open>K\<close>, and an exception that one of them raised is either
  a \<^verbatim>\<open>ValueError\<close> of the role resolution or the exception the whole statement ends with.
\<close>

definition propagates :: "(opcall \<Rightarrow> bool) \<Rightarrow> event list \<Rightarrow> pyexc + 'a \<Rightarrow> bool" where
  "propagates K new r =
     list_all (\<lambda>ev. K (fst ev) \<and>
        (case snd ev of
           None \<Rightarrow> True
         | Some e \<Rightarrow> fst ev = GetExecutionRole \<and> isinstance e ''ValueError'' \<or> r = Inl e)) new"

text \<open>
  The fallback is taken (a client for IAM is asked for) exactly when the role resolution
  raised a \<^verbatim>\<open>ValueError\<close>.
\<close>

definition fallback_taken :: "event list \<Rightarrow> bool" where
  "fallback_taken new = list_ex (\<lambda>ev. fst ev = Boto3Client ''iam'') new"

definition resolution_raised_ValueError :: "event list \<Rightarrow> bool" where
  "resolution_raised_ValueError new =
     list_ex (\<lambda>ev. fst ev = GetExecutionRole \<and>
                (case snd ev of None \<Rightarrow> False | Some e \<Rightarrow> isinstance e ''ValueError'')) new"

text \<open>One logged operation; no operation at all.\<close>

definition single :: "('w nbstate, 'a) prog \<Rightarrow> opcall \<Rightarrow> bool" where
  "single m c = emits m (\<lambda>new r. new = [(c, outcome r)])"

definition silent :: "('w nbstate, 'a) prog \<Rightarrow> bool" where
  "silent m = emits m (\<lambda>new r. new = [])"

definition of_step :: "step \<Rightarrow> opcall \<Rightarrow> bool" where
  "of_step st c = (step_of c = None \<or> step_of c = Some st)"

text \<open>
  In the fallback, a client that was made is asked for a role, and the only role ever
  asked for is \<^verbatim>\<open>sagemaker_execution_role\<close>.
\<close>

definition role_lookup :: "event list \<Rightarrow> bool" where
  "role_lookup new =
     ((list_ex (\<lambda>ev. ev = (Boto3Client ''iam'', None)) new \<longrightarrow>
       list_ex (\<lambda>ev. case fst ev of IamGetRole iam name \<Rightarrow> True | _ \<Rightarrow> False) new) \<and>
      list_all (\<lambda>ev. case fst ev of
                        IamGetRole iam name \<Rightarrow> name = ''sagemaker_execution_role''
                      | _ \<Rightarrow> True) new)"

text \<open>The operations that are not of the \<^verbatim>\<open>try\<close> statement.\<close>

definition outside_fallback :: "opcall \<Rightarrow> bool" where
  "outside_fallback c =
     (case c of
        GetExecutionRole \<Rightarrow> False
      | Boto3Client service \<Rightarrow> service \<noteq> ''iam''
      | IamGetRole iam name \<Rightarrow> False
      | _ \<Rightarrow> True)"

definition fallback_iff :: "event list \<Rightarrow> bool" where
  "fallback_iff new =
     ((fallback_taken new \<longleftrightarrow> resolution_raised_ValueError new) \<and> role_lookup new)"

text \<open>Runs of equal steps: \<open>(n, st)\<close> stands for \<open>n + 1\<close> times the step \<open>st\<close>.\<close>

definition blocks :: "(nat \<times> step) list \<Rightarrow> step list" where
  "blocks bs = concat (map (\<lambda>b. replicate (Suc (fst b)) (snd b)) bs)"

text \<open>
  A line of the dependency manifest read as a pin \<^verbatim>\<open>name==version\<close>: the name before
  the first \<^verbatim>\<open>=\<close>, the version after the \<^verbatim>\<open>==\<close>.
\<close>

definition pin_of :: "string \<Rightarrow> string \<times> string" where
  "pin_of line =
     (takeWhile (\<lambda>c. c \<noteq> CHR ''='') line, drop 2 (dropWhile (\<lambda>c. c \<noteq> CHR ''='') line))"

subsection \<open>The archive\<close>

text \<open>The members of the archive at a position of the tree (none when no archive is there).\<close>

definition archive_members :: "fnode \<Rightarrow> string list \<Rightarrow> tarinfo list" where
  "archive_members r p = (case lookup r p of Some (File rd (TarGz ms)) \<Rightarrow> ms | _ \<Rightarrow> [])"

text \<open>
  ``Every member is rooted at the archive top level (each entry's archive name equals the
  item's own name, with no enclosing folder prefix)'': no member's name has a folder in
  front of it.
\<close>

definition members_at_top_level :: "tarinfo list \<Rightarrow> bool" where
  "members_at_top_level ms = list_all (\<lambda>m. CHR ''/'' \<notin> set (arcname m)) ms"

subsection \<open>A stand-in library and a sample request\<close>

text \<open>
  Concrete library objects to run the handler on: a tokenizer that accepts a string
  only and whose ids are the text itself, a model that generates its input back, and a
  tokenizer that also accepts a dict and reads its keys.
\<close>

definition echo_tokenizer :: "(string, string) tokenizer" where
  "echo_tokenizer =
     \<lparr>tokenize = (\<lambda>h v. case v of PStr text \<Rightarrow> Inr text | _ \<Rightarrow> Inl ValueError),
      decode = (\<lambda>seq. Inr seq)\<rparr>"


definition echo_model :: "(string, string) model" where
  "echo_model = \<lparr>generate = (\<lambda>h input_ids kwargs. Inr [input_ids])\<rparr>"

definition echo_transformers :: "(string, string) transformers" where
  "echo_transformers =
     \<lparr>model_from_pretrained = (\<lambda>model_dir kwargs. Inr echo_model),
      tokenizer_from_pretrained = (\<lambda>model_dir. Inr echo_tokenizer)\<rparr>"

text \<open>
  The request of the notebook's second example (the prompt cut to its first line): the
  payload dict at address 0, its \<^verbatim>\<open>parameters\<close> dict at address 1.
\<close>

definition sample_parameters :: pydict where
  "sample_parameters =
     [(''early_stopping'', PBool True), (''length_penalty'', PFloat ''2.0''),
      (''max_new_tokens'', PInt 50), (''temperature'', PInt 0)]"

definition sample_request :: "(string, string) pstate" where
  "sample_request =
     \<lparr>heap = (\<lambda>_. [])
         (0 := [(''inputs'', PStr ''Answer the following question step by step:''),
                (''parameters'', PDict 1)],
          1 := sample_parameters),
      calls = []\<rparr>"

text \<open>A request without the \<^verbatim>\<open>inputs\<close> key: \<^verbatim>\<open>{"text": "hi", "parameters": {...}}\<close>.\<close>

definition request_without_inputs :: "(string, string) pstate" where
  "request_without_inputs =
     \<lparr>heap = (\<lambda>_. [])
         (0 := [(''text'', PStr ''hi''), (''parameters'', PDict 1)],
          1 := [(''max_new_tokens'', PInt 50)]),
      calls = []\<rparr>"


subsection \<open>The claims in the specification's words\<close>


text \<open>
  The value of the \<^verbatim>\<open>load_in_8bit\<close> keyword in each load of a model, \<open>None\<close> where the
  keyword is not passed. ``An optional (configurable) 8-bit quantization flag'' says
  that some call of \<^verbatim>\<open>model_fn\<close> loads the model without asking for 8 bits.
\<close>

definition load_in_8bit_flags :: "('ids, 'seq) libcall list \<Rightarrow> pyval option list" where
  "load_in_8bit_flags cs =
     concat (map (\<lambda>c. case c of
                         CallModelFromPretrained model_dir kwargs \<Rightarrow> [map_of kwargs ''load_in_8bit'']
                       | _ \<Rightarrow> []) cs)"

subsection \<open>A stand-in world and a fresh kernel\<close>

text \<open>
  A concrete world to run the notebook in. The hub holds three files; \<^verbatim>\<open>copy_tree\<close>
  copies the entries of the source directory into the destination, which it makes when
  it is not there; every service answers at once. Only the outcome of the automatic
  role resolution is left open.
\<close>

definition DistutilsFileError :: pyexc where
  "DistutilsFileError = PyExc ''DistutilsFileError'' [''DistutilsError'', ''Exception'']"

definition snapshot_files :: "(string \<times> fnode) list" where
  "snapshot_files =
     [(''config.json'', File True (Text [''{}''])),
      (''pytorch_model-00001-of-00012.bin'', File True (Binary ''weights'')),
      (''tokenizer.json'', File True (Text [''{}'']))]"

definition standin_copy_tree ::
  "ppath \<Rightarrow> ppath \<Rightarrow> fnode \<Rightarrow> string list \<Rightarrow> unit \<Rightarrow> (pyexc + unit) \<times> fnode \<times> unit" where
  "standin_copy_tree src dst r c w =
     (case (if src = AbsPath [''tmp'', ''snapshot''] then Some snapshot_files
            else (case resolve_in r c src of
                    Inl e \<Rightarrow> None
                  | Inr t \<Rightarrow> (case lookup r t of Some (Dir es) \<Rightarrow> Some es | _ \<Rightarrow> None))) of
        None \<Rightarrow> (Inl DistutilsFileError, r, w)
      | Some es \<Rightarrow>
          (case resolve_in r c dst of
             Inl e \<Rightarrow> (Inl e, r, w)
           | Inr t \<Rightarrow>
               (case lookup r t of
                  Some (File _ _) \<Rightarrow> (Inl DistutilsFileError, r, w)
                | Some Socket \<Rightarrow> (Inl DistutilsFileError, r, w)
                | d \<Rightarrow>
                    (case put r t
                            (Dir (foldl (\<lambda>ds e. AList.update (fst e) (snd e) ds)
                                    (case d of Some (Dir ds) \<Rightarrow> ds | _ \<Rightarrow> []) es)) of
                       None \<Rightarrow> (Inl DistutilsFileError, r, w)
                     | Some r' \<Rightarrow> (Inr (), r', w)))))"

definition standin_env :: "pyexc + string \<Rightarrow> unit env" where
  "standin_env role_resolution =
     \<lparr>pip_install = (\<lambda>args w. w),
      Session = (\<lambda>bucket w. (Inr 1, w)),
      default_bucket = (\<lambda>sess w. (Inr ''sagemaker-us-east-1-123456789012'', w)),
      boto_region_name = (\<lambda>sess w. ''us-east-1''),
      get_execution_role = (\<lambda>w. (role_resolution, w)),
      boto3_client = (\<lambda>service w. (Inr 2, w)),
      get_role_arn = (\<lambda>iam name w. (Inr (''arn:aws:iam::123456789012:role/'' @ name), w)),
      TemporaryDirectory = (\<lambda>w. (Inr (AbsPath [''tmp'']), w)),
      cleanup = (\<lambda>tmpdir w. w),
      snapshot_download = (\<lambda>repo_id cache_dir w. (Inr (path_join cache_dir (RelPath [''snapshot''])), w)),
      copy_tree = standin_copy_tree,
      S3Uploader_upload = (\<lambda>local_path uri r c w.
         (case resolve_in r c local_path of
            Inl e \<Rightarrow> (Inl e, w)
          | Inr t \<Rightarrow> (case lookup r t of
                        Some (File True content) \<Rightarrow> (Inr (uri @ ''/model.tar.gz''), w)
                      | _ \<Rightarrow> (Inl FileNotFoundError, w)))),
      HuggingFaceModel = (\<lambda>model_data role transformers_version pytorch_version py_version w. (Inr 3, w)),
      deploy = (\<lambda>model initial_instance_count instance_type w. (Inr 4, w)),
      predict = (\<lambda>predictor payload w. (Inr (JList [JObj [(''generated_text'', JStr ''text'')]]), w)),
      delete_model = (\<lambda>predictor w. (Inr (), w)),
      delete_endpoint = (\<lambda>predictor w. (Inr (), w))\<rparr>"

text \<open>A kernel started in an empty directory.\<close>

definition fresh_kernel :: "unit nbstate" where
  "fresh_kernel =
     \<lparr>root = Dir [(''home'', Dir [(''notebook'', Dir [])])],
      cwd = [''home'', ''notebook''],
      stdout = [],
      world = (),
      events = []\<rparr>"

text \<open>
  A model directory as the notebook leaves it before compressing: files of the snapshot
  and the \<^verbatim>\<open>code\<close> directory with the handler.
\<close>

definition packed_kernel :: "unit nbstate" where
  "packed_kernel =
     \<lparr>root = Dir [(''home'', Dir [(''notebook'', Dir
         [(''code'', Dir [(''requirements.txt'', File True (Text requirements_txt)),
                         (''inference.py'', File True (Text [''def model_fn(model_dir):'']))]),
          (''flan-t5-xxl-sharded-fp16'', Dir
            [(''config.json'', File True (Text [''{}''])),
             (''pytorch_model-00001-of-00012.bin'', File True (Binary ''weights'')),
             (''code'', Dir [(''requirements.txt'', File True (Text requirements_txt)),
                            (''inference.py'', File True (Text [''def model_fn(model_dir):'']))])])])])],
      cwd = [''home'', ''notebook''],
      stdout = [],
      world = (),
      events = []\<rparr>"

text \<open>The same directory with a file the process may not read.\<close>

definition unreadable_kernel :: "unit nbstate" where
  "unreadable_kernel =
     \<lparr>root = Dir [(''home'', Dir [(''notebook'', Dir
         [(''flan-t5-xxl-sharded-fp16'', Dir
            [(''config.json'', File False (Text [''{}'']))])])])],
      cwd = [''home'', ''notebook''],
      stdout = [],
      world = (),
      events = []\<rparr>"

text \<open>
  A kernel in which \<^verbatim>\<open>code/requirements.txt\<close> is there already, with another pin.
\<close>

definition stale_kernel :: "unit nbstate" where
  "stale_kernel =
     \<lparr>root = Dir [(''home'', Dir [(''notebook'', Dir
         [(''code'', Dir [(''requirements.txt'', File True (Text [''transformers==4.0.0'']))])])])],
      cwd = [''home'', ''notebook''],
      stdout = [],
      world = (),
      events = []\<rparr>"

text \<open>A model directory that holds a socket beside a file.\<close>

definition socket_kernel :: "unit nbstate" where
  "socket_kernel =
     \<lparr>root = Dir [(''home'', Dir [(''notebook'', Dir
         [(''flan-t5-xxl-sharded-fp16'', Dir
            [(''config.json'', File True (Text [''{}''])),
             (''kernel.sock'', Socket)])])])],
      cwd = [''home'', ''notebook''],
      stdout = [],
      world = (),
      events = []\<rparr>"

section \<open>Properties of the handler\<close>

subsection \<open>Sequencing\<close>

lemma bind_Inr: "m s = (Inr x, s') \<Longrightarrow> bind m f s = f x s'"
  by (simp add: bind_def)

lemma bind_Inl: "m s = (Inl e, s') \<Longrightarrow> bind m f s = (Inl e, s')"
  by (simp add: bind_def)

subsection \<open>Popping the payload\<close>

lemma dict_del_absent: "map_of kvs k = None \<Longrightarrow> dict_del k kvs = kvs"
  by (induction kvs) (auto simp: dict_del_def split: if_splits)

lemma map_of_dict_del: "map_of (dict_del k kvs) k' = (if k' = k then None else map_of kvs k')"
  by (induction kvs) (auto simp: dict_del_def)

lemma data_pop_dict:
  "data_pop (PDict a) k d s =
     (Inr (case map_of (heap s a) k of None \<Rightarrow> d | Some v \<Rightarrow> v),
      s\<lparr>heap := (heap s)(a := dict_del k (heap s a))\<rparr>)"
  by (simp add: data_pop_def dict_pop_def dict_del_absent split: option.splits)

lemma predict_fn_dict:
  "predict_fn (PDict a) (m, t) s =
     run_library m t
       (case map_of (heap s a) ''inputs'' of None \<Rightarrow> PDict a | Some v \<Rightarrow> v)
       (case map_of (heap s a) ''parameters'' of None \<Rightarrow> PNone | Some v \<Rightarrow> v)
       (s\<lparr>heap := (heap s)(a := dict_del ''parameters'' (dict_del ''inputs'' (heap s a)))\<rparr>)"
proof -
  let ?s1 = "s\<lparr>heap := (heap s)(a := dict_del ''inputs'' (heap s a))\<rparr>"
  have 1: "data_pop (PDict a) ''inputs'' (PDict a) s =
      (Inr (case map_of (heap s a) ''inputs'' of None \<Rightarrow> PDict a | Some v \<Rightarrow> v), ?s1)"
    by (simp add: data_pop_dict)
  have 2: "data_pop (PDict a) ''parameters'' PNone ?s1 =
      (Inr (case map_of (heap s a) ''parameters'' of None \<Rightarrow> PNone | Some v \<Rightarrow> v),
       s\<lparr>heap := (heap s)(a := dict_del ''parameters'' (dict_del ''inputs'' (heap s a)))\<rparr>)"
    by (simp add: data_pop_dict map_of_dict_del)
  show ?thesis
    unfolding predict_fn_def run_library_def prod.case
    by (simp only: bind_Inr [of "data_pop (PDict a) k d" for k d, OF 1]
          bind_Inr [of "data_pop (PDict a) k d" for k d, OF 2])
qed

subsection \<open>The library calls\<close>

lemma heap_bind:
  assumes "\<And>s. heap (snd (m s)) = heap s" "\<And>x s. heap (snd (f x s)) = heap s"
  shows "heap (snd (bind m f s)) = heap s"
  using assms by (auto simp: bind_def split: prod.splits sum.splits) (metis snd_conv)+

lemma heap_run_library: "heap (snd (run_library m t i p s)) = heap s"
  unfolding run_library_def
  by (intro heap_bind if_split [where P = "\<lambda>m. heap (snd (m s)) = heap s" for s, THEN iffD2]
        conjI impI)
     (simp_all add: tokenizer_call_def model_generate_def tokenizer_decode_def unpack_kwargs_def
        lift_def ret_def log_call_def split: pyval.splits)

lemma run_library_eq:
  assumes "parameters = PNone \<and> kwargs = [] \<or> parameters = PDict p \<and> kwargs = heap s p"
  shows "run_library m t inputs parameters s =
     (case tokenize t (heap s) inputs of
        Inl e \<Rightarrow> (Inl e, s\<lparr>calls := calls s @ [CallTokenizer inputs (heap s)]\<rparr>)
      | Inr input_ids \<Rightarrow>
     (case generate m (heap s) input_ids kwargs of
        Inl e \<Rightarrow>
          (Inl e, s\<lparr>calls := calls s @
             [CallTokenizer inputs (heap s), CallGenerate input_ids kwargs]\<rparr>)
      | Inr [] \<Rightarrow>
          (Inl IndexError, s\<lparr>calls := calls s @
             [CallTokenizer inputs (heap s), CallGenerate input_ids kwargs]\<rparr>)
      | Inr (out0 # _) \<Rightarrow>
     (case decode t out0 of
        Inl e \<Rightarrow>
          (Inl e, s\<lparr>calls := calls s @
             [CallTokenizer inputs (heap s), CallGenerate input_ids kwargs, CallDecode out0]\<rparr>)
      | Inr prediction \<Rightarrow>
          (Inr [[(''generated_text'', PStr prediction)]], s\<lparr>calls := calls s @
             [CallTokenizer inputs (heap s), CallGenerate input_ids kwargs, CallDecode out0]\<rparr>))))"
  using assms
  by (auto simp: run_library_def bind_def tokenizer_call_def model_generate_def
        tokenizer_decode_def unpack_kwargs_def lift_def ret_def log_call_def first_output_def
        split: list.splits sum.splits)



lemma run_library_calls:
  assumes "tokenize t (heap s) inputs = Inr input_ids"
    and "parameters = PNone \<and> kwargs = [] \<or> parameters = PDict p \<and> kwargs = heap s p"
  shows "calls (snd (run_library m t inputs parameters s)) =
     calls s @ [CallTokenizer inputs (heap s), CallGenerate input_ids kwargs] @
       (case generate m (heap s) input_ids kwargs of
          Inr (out0 # _) \<Rightarrow> [CallDecode out0]
        | _ \<Rightarrow> [])"
  unfolding run_library_eq [OF assms(2)] using assms(1)
  by (auto split: list.splits sum.splits)


subsection \<open>Claims about \<^verbatim>\<open>predict_fn\<close>\<close>

text \<open>
  Claim C9. \<^verbatim>\<open>predict_fn\<close> mutates the payload it is given: after the call, whether it
  returned or raised, the caller's dict no longer holds the keys \<^verbatim>\<open>inputs\<close> and
  \<^verbatim>\<open>parameters\<close>, its other items are unchanged (and in their order), and every other
  object of the store is untouched.
\<close>

theorem predict_fn_pops_payload:
  "heap (snd (predict_fn (PDict a) (m, t) s)) =
     (heap s)(a := filter (\<lambda>kv. fst kv \<noteq> ''inputs'' \<and> fst kv \<noteq> ''parameters'') (heap s a))"
  by (simp add: predict_fn_dict heap_run_library dict_del_def conj_commute)

theorem predict_fn_pops_payload_witness:
  "heap (snd (predict_fn (PDict 0) (echo_model, echo_tokenizer) request_without_inputs)) 0 =
     [(''text'', PStr ''hi'')]"
  using predict_fn_pops_payload [of 0 echo_model echo_tokenizer request_without_inputs]
  by (simp add: request_without_inputs_def)




text \<open>
  Claim C3. \<^verbatim>\<open>predict_fn\<close> takes \<^verbatim>\<open>inputs\<close> and \<^verbatim>\<open>parameters\<close> out of the payload, calls
  the tokenizer on the inputs and then the generation routine on the input ids: with
  exactly the items of the \<^verbatim>\<open>parameters\<close> dict as keyword arguments when there is one,
  with no keyword argument when \<^verbatim>\<open>parameters\<close> is absent or \<^verbatim>\<open>None\<close>. The only call
  after these is the decoding.
\<close>

theorem predict_fn_passes_parameters:
  assumes "map_of (heap s a) ''inputs'' = Some inputs"
    and "h' = (heap s)(a := dict_del ''parameters'' (dict_del ''inputs'' (heap s a)))"
    and "tokenize t h' inputs = Inr input_ids"
    and "map_of (heap s a) ''parameters'' \<in> {None, Some PNone} \<and> kwargs = [] \<or>
         map_of (heap s a) ''parameters'' = Some (PDict p) \<and> p \<noteq> a \<and> kwargs = heap s p"
  shows "\<exists>rest. calls (snd (predict_fn (PDict a) (m, t) s)) =
           calls s @ [CallTokenizer inputs h', CallGenerate input_ids kwargs] @ rest \<and>
           (\<forall>c \<in> set rest. \<exists>seq. c = CallDecode seq)"
proof -
  let ?params = "case map_of (heap s a) ''parameters'' of None \<Rightarrow> PNone | Some v \<Rightarrow> v"
  let ?s' = "s\<lparr>heap := h'\<rparr>"
  have kw: "?params = PNone \<and> kwargs = [] \<or> ?params = PDict p \<and> kwargs = heap ?s' p"
    using assms(4) by (auto simp: assms(2))
  have tok: "tokenize t (heap ?s') inputs = Inr input_ids"
    using assms(3) by simp
  have "calls (snd (predict_fn (PDict a) (m, t) s)) =
      calls s @ [CallTokenizer inputs h', CallGenerate input_ids kwargs] @
       (case generate m h' input_ids kwargs of Inr (out0 # _) \<Rightarrow> [CallDecode out0] | _ \<Rightarrow> [])"
    using run_library_calls [OF tok kw, of m]
    by (simp add: predict_fn_dict assms(1) assms(2) [symmetric])
  then show ?thesis
    by (auto split: sum.splits list.splits)
qed

theorem predict_fn_passes_parameters_witness:
  "\<exists>rest. calls (snd (predict_fn (PDict 0) (echo_model, echo_tokenizer) sample_request)) =
     [CallTokenizer (PStr ''Answer the following question step by step:'')
        ((heap sample_request)(0 := [])),
      CallGenerate ''Answer the following question step by step:''
        [(''early_stopping'', PBool True), (''length_penalty'', PFloat ''2.0''),
         (''max_new_tokens'', PInt 50), (''temperature'', PInt 0)]] @ rest"
  using predict_fn_passes_parameters [of sample_request 0
      "PStr ''Answer the following question step by step:''"
      "(heap sample_request)(0 := [])" echo_tokenizer
      "''Answer the following question step by step:''" sample_parameters 1 echo_model]
  by (auto simp: sample_request_def dict_del_def echo_tokenizer_def sample_parameters_def)




subsection \<open>Claims about \<^verbatim>\<open>model_fn\<close>\<close>

lemma model_fn_eq:
  "model_fn lib model_dir s =
     (case model_from_pretrained lib model_dir
             [(''device_map'', PStr ''auto''), (''load_in_8bit'', PBool True)] of
        Inl e \<Rightarrow>
          (Inl e, s\<lparr>calls := calls s @
             [CallModelFromPretrained model_dir
                [(''device_map'', PStr ''auto''), (''load_in_8bit'', PBool True)]]\<rparr>)
      | Inr model \<Rightarrow>
     (case tokenizer_from_pretrained lib model_dir of
        Inl e \<Rightarrow>
          (Inl e, s\<lparr>calls := calls s @
             [CallModelFromPretrained model_dir
                [(''device_map'', PStr ''auto''), (''load_in_8bit'', PBool True)],
              CallTokenizerFromPretrained model_dir]\<rparr>)
      | Inr tokenizer \<Rightarrow>
          (Inr (model, tokenizer), s\<lparr>calls := calls s @
             [CallModelFromPretrained model_dir
                [(''device_map'', PStr ''auto''), (''load_in_8bit'', PBool True)],
              CallTokenizerFromPretrained model_dir]\<rparr>)))"
  by (simp add: model_fn_def bind_def AutoModelForSeq2SeqLM_from_pretrained_def
        AutoTokenizer_from_pretrained_def ret_def log_call_def split: sum.splits)

lemma load_in_8bit_flags_model_fn:
  "load_in_8bit_flags (calls (snd (model_fn lib model_dir s))) =
     load_in_8bit_flags (calls s) @ [Some (PBool True)]"
  by (simp add: model_fn_eq load_in_8bit_flags_def split: sum.splits)

text \<open>
  Claim C4 as stated fails: the 8-bit flag is not optional. However \<^verbatim>\<open>model_fn\<close> is
  called, the one model load it makes passes \<^verbatim>\<open>load_in_8bit=True\<close>.
\<close>

theorem model_fn_quantization_not_configurable:
  "\<not> (\<exists>(lib :: (string, string) transformers) model_dir.
        load_in_8bit_flags (calls (snd (model_fn lib model_dir \<lparr>heap = (\<lambda>_. []), calls = []\<rparr>)))
          \<noteq> [Some (PBool True)])"
  by (simp add: load_in_8bit_flags_model_fn) (simp add: load_in_8bit_flags_def)

text \<open>
  Claim C4, amended. \<^verbatim>\<open>model_fn\<close> loads the model and then the tokenizer from the
  directory it is given, always with the fixed keywords \<^verbatim>\<open>device_map="auto"\<close> and
  \<^verbatim>\<open>load_in_8bit=True\<close>, and returns the pair (model, tokenizer) when both loads
  succeed; the tokenizer is loaded only when the model was.
\<close>

theorem model_fn_loads_model_and_tokenizer:
  "(model_from_pretrained lib model_dir
        [(''device_map'', PStr ''auto''), (''load_in_8bit'', PBool True)] = Inr model \<and>
    tokenizer_from_pretrained lib model_dir = Inr tokenizer
      \<longrightarrow> fst (model_fn lib model_dir s) = Inr (model, tokenizer)) \<and>
   calls (snd (model_fn lib model_dir s)) =
      calls s @ CallModelFromPretrained model_dir
         [(''device_map'', PStr ''auto''), (''load_in_8bit'', PBool True)] #
        (case model_from_pretrained lib model_dir
                [(''device_map'', PStr ''auto''), (''load_in_8bit'', PBool True)] of
           Inl e \<Rightarrow> []
         | Inr model \<Rightarrow> [CallTokenizerFromPretrained model_dir]) \<and>
   load_in_8bit_flags (calls (snd (model_fn lib model_dir s))) =
     load_in_8bit_flags (calls s) @ [Some (PBool True)]"
  by (simp add: load_in_8bit_flags_model_fn) (auto simp: model_fn_eq split: sum.splits)

theorem model_fn_loads_model_and_tokenizer_witness:
  "fst (model_fn echo_transformers ''/opt/ml/model'' \<lparr>heap = (\<lambda>_. []), calls = []\<rparr>) =
     Inr (echo_model, echo_tokenizer) \<and>
   calls (snd (model_fn echo_transformers ''/opt/ml/model'' \<lparr>heap = (\<lambda>_. []), calls = []\<rparr>)) =
     [CallModelFromPretrained ''/opt/ml/model''
        [(''device_map'', PStr ''auto''), (''load_in_8bit'', PBool True)],
      CallTokenizerFromPretrained ''/opt/ml/model'']"
  using model_fn_loads_model_and_tokenizer [of echo_transformers "''/opt/ml/model''"
      echo_model echo_tokenizer "\<lparr>heap = (\<lambda>_. []), calls = []\<rparr>"]
  by (auto simp: echo_transformers_def)

section \<open>Properties of the file tree and of \<^verbatim>\<open>compress\<close>\<close>

lemma bind_eq_InrD:
  "bind m f s = (Inr y, s'') \<Longrightarrow> \<exists>x s'. m s = (Inr x, s') \<and> f x s' = (Inr y, s'')"
  by (auto simp: bind_def split: prod.splits sum.splits)

lemma log_op_eq_InrD:
  "log_op c m s = (Inr y, s'') \<Longrightarrow>
     \<exists>s'. m s = (Inr y, s') \<and> s'' = s'\<lparr>events := events s' @ [(c, None)]\<rparr>"
  by (auto simp: log_op_def outcome_def split: prod.splits sum.splits)

lemma walk_proper:
  "walk r cur xs = Inr t \<Longrightarrow> list_all proper_name xs \<Longrightarrow> t = cur @ xs"
proof (induction xs arbitrary: cur)
  case Nil
  then show ?case by simp
next
  case (Cons x xs)
  from Cons.prems have "walk r (cur @ [x]) xs = Inr t"
    by (auto simp: proper_name_def split: option.splits fnode.splits)
  with Cons.IH [of "cur @ [x]"] Cons.prems(2) show ?case by simp
qed

lemma os_getcwd_InrD:
  "os_getcwd s = (Inr p, s') \<Longrightarrow>
     p = AbsPath (cwd s) \<and> s' = s\<lparr>events := events s @ [(OsGetcwd, None)]\<rparr> \<and>
     (\<exists>es. lookup (root s) (cwd s) = Some (Dir es))"
  by (auto simp: os_getcwd_def dest!: log_op_eq_InrD split: option.splits fnode.splits)

lemma os_chdir_InrD:
  "os_chdir p s = (Inr u, s') \<Longrightarrow>
     \<exists>t es. resolve s p = Inr t \<and> lookup (root s) t = Some (Dir es) \<and>
       s' = s\<lparr>cwd := t, events := events s @ [(OsChdir p, None)]\<rparr>"
  by (auto simp: os_chdir_def dest!: log_op_eq_InrD split: sum.splits option.splits fnode.splits)

subsection \<open>The file tree\<close>

lemma put_lookup_same: "put r p new = Some r' \<Longrightarrow> lookup r' p = Some new"
  by (induction r p new arbitrary: r' rule: put.induct)
     (auto simp: update_conv' split: option.splits)

lemma lookup_put_ex: "lookup r p = Some n \<Longrightarrow> \<exists>r'. put r p new = Some r'"
proof (induction r p new arbitrary: n rule: put.induct)
  case (4 es x y ys new)
  from "4.prems" obtain n0 where n0: "map_of es x = Some n0" "lookup n0 (y # ys) = Some n"
    by (auto split: option.splits)
  from "4.IH" [OF n0] obtain r0 where "put n0 (y # ys) new = Some r0" by blast
  with n0 show ?case by simp
qed auto

lemma lookup_append:
  "lookup r (p @ q) = (case lookup r p of None \<Rightarrow> None | Some n \<Rightarrow> lookup n q)"
  by (induction r p rule: lookup.induct) (auto split: option.splits)

lemma lookup_leaf: "(\<And>es. n \<noteq> Dir es) \<Longrightarrow> q \<noteq> [] \<Longrightarrow> lookup n q = None"
  by (cases n; cases q) auto

lemma lookup_below:
  assumes "lookup r (p @ q) = Some n" and "q \<noteq> []"
  shows "\<exists>es. lookup r p = Some (Dir es)"
proof -
  from assms(1) obtain n0 where n0: "lookup r p = Some n0" "lookup n0 q = Some n"
    by (auto simp: lookup_append split: option.splits)
  with assms(2) lookup_leaf [of n0 q] show ?thesis by (cases n0) auto
qed

lemma kind_Dir: "map_option kind x = map_option kind (Some (Dir es)) \<Longrightarrow> \<exists>es'. x = Some (Dir es')"
  by (cases x) (auto simp: kind_def split: fnode.splits)

lemma kind_not_Socket:
  "map_option kind x = map_option kind (Some n) \<Longrightarrow> n \<noteq> Socket \<Longrightarrow> \<exists>n'. x = Some n' \<and> n' \<noteq> Socket"
  by (cases x) (auto simp: kind_def split: fnode.splits)

lemma member_of_kind: "member_of m (map_option kind x) = member_of m x"
  by (cases m; cases x) (auto simp: member_of_def kind_def split: fnode.splits)

text \<open>Writing a file touches no other position of the tree.\<close>

lemma put_frame:
  assumes "put r p (File a c) = Some r'" and "\<And>es. lookup r p \<noteq> Some (Dir es)" and "q \<noteq> p"
  shows "map_option kind (lookup r' q) = map_option kind (lookup r q)"
  using assms
proof (induction r p "File a c" arbitrary: r' q rule: put.induct)
  case (1 n)
  from "1.prems" have "r' = File a c" and "\<And>es. n \<noteq> Dir es" and "q \<noteq> []" by auto
  then show ?case by (simp add: lookup_leaf)
next
  case (2 r c x xs)
  then show ?case by simp
next
  case (3 ds x)
  from "3.prems"(1) have r': "r' = Dir (AList.update x (File a c) ds)" by simp
  show ?case
  proof (cases q)
    case Nil
    with r' show ?thesis by (simp add: kind_def)
  next
    case (Cons y ys)
    show ?thesis
    proof (cases "y = x")
      case True
      with "3.prems"(3) Cons have ys: "ys \<noteq> []" by auto
      from "3.prems"(2) have "\<And>n es. map_of ds x = Some n \<Longrightarrow> n \<noteq> Dir es"
        by auto
      with ys have "lookup (Dir ds) (x # ys) = None"
        by (auto split: option.splits intro: lookup_leaf)
      moreover from r' ys have "lookup r' (x # ys) = None"
        by (simp add: update_conv' lookup_leaf)
      ultimately show ?thesis using Cons True by simp
    next
      case False
      with r' Cons show ?thesis by (simp add: update_conv')
    qed
  qed
next
  case (4 ds x y ys)
  from "4.prems"(1) obtain n n' where n: "map_of ds x = Some n" "put n (y # ys) (File a c) = Some n'"
    and r': "r' = Dir (AList.update x n' ds)"
    by (auto split: option.splits)
  show ?case
  proof (cases q)
    case Nil
    with r' show ?thesis by (simp add: kind_def)
  next
    case (Cons z zs)
    show ?thesis
    proof (cases "z = x")
      case True
      have nd: "\<And>es. lookup n (y # ys) \<noteq> Some (Dir es)"
        using "4.prems"(2) n(1) by auto
      from "4.prems"(3) Cons True have "zs \<noteq> y # ys" by simp
      from "4.hyps" [OF n(1) n(2) nd this] Cons True r' n(1) show ?thesis
        by (simp add: update_conv')
    next
      case False
      with r' Cons show ?thesis by (simp add: update_conv')
    qed
  qed
next
  case (5 x xs)
  then show ?case by simp
qed

lemma set_update_cases: "e \<in> set (AList.update k v al) \<Longrightarrow> e = (k, v) \<or> e \<in> set al"
  by (induction al) (auto split: if_splits)

lemma wf_names_put:
  "put r p new = Some r' \<Longrightarrow> wf_names r \<Longrightarrow> wf_names new \<Longrightarrow> list_all proper_name p \<Longrightarrow>
     wf_names r'"
proof (induction r p new arbitrary: r' rule: put.induct)
  case (1 n new)
  then show ?case by simp
next
  case (2 r c x xs new)
  then show ?case by simp
next
  case (3 es x new)
  then show ?case
    by (auto simp: list_all_iff distinct_update dest!: set_update_cases)
next
  case (4 es x y ys new)
  from "4.prems"(1) obtain n n' where n: "map_of es x = Some n" "put n (y # ys) new = Some n'"
    and r': "r' = Dir (AList.update x n' es)"
    by (auto split: option.splits)
  from n(1) have "(x, n) \<in> set es" by (rule map_of_SomeD)
  with "4.prems"(2) have "wf_names n" by (auto simp: list_all_iff)
  from "4.IH" [OF n(1) n(2) this "4.prems"(3)] "4.prems"(4) have "wf_names n'" by simp
  with "4.prems"(2,4) r' show ?case
    by (auto simp: list_all_iff distinct_update dest!: set_update_cases)
next
  case (5 x xs new)
  then show ?case by simp
qed

lemma wf_names_sub: "wf_names r \<Longrightarrow> lookup r q = Some n \<Longrightarrow> wf_names n"
proof (induction r q arbitrary: n rule: lookup.induct)
  case (1 n0)
  then show ?case by simp
next
  case (2 r c x xs)
  then show ?case by simp
next
  case (3 ds x xs)
  from "3.prems"(2) obtain n0 where n0: "map_of ds x = Some n0" "lookup n0 xs = Some n"
    by (auto split: option.splits)
  from n0(1) have "(x, n0) \<in> set ds" by (rule map_of_SomeD)
  with "3.prems"(1) have "wf_names n0" by (auto simp: list_all_iff)
  from "3.IH" [OF n0(1) this n0(2)] show ?case .
next
  case (4 x xs)
  then show ?case by simp
qed

lemma wf_names_lookup:
  "wf_names r \<Longrightarrow> lookup r q = Some (Dir es) \<Longrightarrow>
     list_all proper_name (map fst es) \<and> distinct (map fst es)"
  by (drule (1) wf_names_sub) (auto simp: list_all_iff)

subsection \<open>The members of an archive\<close>

lemma slashes_Nil [simp]: "slashes [] = []"
  by (simp add: slashes_def)

lemma slashes_Cons [simp]: "slashes (x # q) = ''/'' @ x @ slashes q"
  by (simp add: slashes_def)

text \<open>
  Every member that \<^verbatim>\<open>add\<close> writes for a node stands for a node at or below it, and is
  named by the path to it.
\<close>

lemma tar_members_sound:
  "wf_names n \<Longrightarrow>
     \<forall>m \<in> set (fst (tar_members tar name arc n)).
       \<exists>q. arcname m = arc @ slashes q \<and> name @ q \<noteq> tar \<and>
           member_of m (lookup n q)"
  "\<forall>e \<in> set es. wf_names (snd e) \<Longrightarrow>
     \<forall>m \<in> set (fst (tar_members_in tar name arc es)).
       \<exists>e \<in> set es. \<exists>q. arcname m = arc @ ''/'' @ fst e @ slashes q \<and>
           name @ fst e # q \<noteq> tar \<and> member_of m (lookup (snd e) q)"
proof (induction tar name arc n and tar name arc es rule: tar_members_tar_members_in.induct)
  case (1 tar name arc r c)
  show ?case
  proof
    fix m assume "m \<in> set (fst (tar_members tar name arc (File r c)))"
    then have "name \<noteq> tar" "r" "m = TarFile arc c"
      by (auto split: if_splits)
    then have "arcname m = arc @ slashes [] \<and> name @ [] \<noteq> tar \<and>
           member_of m (lookup (File r c) [])"
      by (simp add: member_of_def)
    then show "\<exists>q. arcname m = arc @ slashes q \<and> name @ q \<noteq> tar \<and>
           member_of m (lookup (File r c) q)" ..
  qed
next
  case (2 tar name arc es)
  show ?case
  proof (cases "name = tar")
    case True
    then show ?thesis by simp
  next
    case False
    obtain ms ex where p: "tar_members_in tar name arc (sort_key fst es) = (ms, ex)"
      by (cases "tar_members_in tar name arc (sort_key fst es)")
    from "2.prems" have d: "distinct (map fst es)" and w: "\<forall>e \<in> set (sort_key fst es). wf_names (snd e)"
      by (auto simp: list_all_iff)
    show ?thesis
    proof
      fix m assume "m \<in> set (fst (tar_members tar name arc (Dir es)))"
      with False p consider "m = TarDir arc" | "m \<in> set ms" by auto
      then show "\<exists>q. arcname m = arc @ slashes q \<and> name @ q \<noteq> tar \<and>
           member_of m (lookup (Dir es) q)"
      proof cases
        case 1
        with False have "arcname m = arc @ slashes [] \<and> name @ [] \<noteq> tar \<and>
           member_of m (lookup (Dir es) [])"
          by (simp add: member_of_def)
        then show ?thesis ..
      next
        case 2
        with "2.IH" [OF False w] p obtain e q where e: "e \<in> set es"
          and q: "arcname m = arc @ ''/'' @ fst e @ slashes q"
            "name @ fst e # q \<noteq> tar" "member_of m (lookup (snd e) q)"
          by auto
        from d e have "map_of es (fst e) = Some (snd e)" by (simp add: map_of_is_SomeI)
        with q have "arcname m = arc @ slashes (fst e # q) \<and>
           name @ (fst e # q) \<noteq> tar \<and> member_of m (lookup (Dir es) (fst e # q))"
          by simp
        then show ?thesis ..
      qed
    qed
  qed
next
  case (3 tar name arc)
  then show ?case by simp
next
  case (4 tar name arc e es)
  obtain ms ex where p: "tar_members tar (name @ [fst e]) (arc @ ''/'' @ fst e) (snd e) = (ms, ex)"
    by (cases "tar_members tar (name @ [fst e]) (arc @ ''/'' @ fst e) (snd e)")
  from "4.prems" have we: "wf_names (snd e)" and wes: "\<forall>e \<in> set es. wf_names (snd e)" by simp_all
  have first: "\<exists>e' \<in> set (e # es). \<exists>q. arcname m = arc @ ''/'' @ fst e' @ slashes q \<and>
           name @ fst e' # q \<noteq> tar \<and> member_of m (lookup (snd e') q)" if "m \<in> set ms" for m
  proof -
    from "4.IH"(1) [OF we] p that obtain q where
      "arcname m = (arc @ ''/'' @ fst e) @ slashes q"
      "(name @ [fst e]) @ q \<noteq> tar" "member_of m (lookup (snd e) q)"
      by fastforce
    then have "arcname m = arc @ ''/'' @ fst e @ slashes q \<and>
           name @ fst e # q \<noteq> tar \<and> member_of m (lookup (snd e) q)"
      by simp
    then show ?thesis by auto
  qed
  show ?case
  proof (cases ex)
    case (Some a)
    with p first show ?thesis by auto
  next
    case None
    obtain ms' ex' where q: "tar_members_in tar name arc es = (ms', ex')"
      by (cases "tar_members_in tar name arc es")
    from "4.IH"(2) [OF p [symmetric, unfolded None] refl wes] q
    have rest: "\<forall>m \<in> set ms'. \<exists>e \<in> set es. \<exists>q.
        arcname m = arc @ ''/'' @ fst e @ slashes q \<and>
        name @ fst e # q \<noteq> tar \<and> member_of m (lookup (snd e) q)"
      by simp
    show ?thesis
    proof
      fix m assume "m \<in> set (fst (tar_members_in tar name arc (e # es)))"
      with p q None consider "m \<in> set ms" | "m \<in> set ms'" by auto
      then show "\<exists>e' \<in> set (e # es). \<exists>q.
          arcname m = arc @ ''/'' @ fst e' @ slashes q \<and>
          name @ fst e' # q \<noteq> tar \<and> member_of m (lookup (snd e') q)"
      proof cases
        case 1
        then show ?thesis by (rule first)
      next
        case 2
        with rest show ?thesis by auto
      qed
    qed
  qed
next
  case (5 tar name arc)
  then show ?case by simp
qed

text \<open>
  When \<^verbatim>\<open>add\<close> returns, every node at or below the one added has its member, but the
  sockets and what the archive's own position hides.
\<close>

lemma tar_members_complete:
  "tar_members tar name arc n = (ms, None) \<Longrightarrow> lookup n q = Some n' \<Longrightarrow> n' \<noteq> Socket \<Longrightarrow>
     (\<forall>k. name @ take k q \<noteq> tar) \<Longrightarrow>
     \<exists>m \<in> set ms. arcname m = arc @ slashes q"
  "tar_members_in tar name arc es = (ms, None) \<Longrightarrow> (x, n) \<in> set es \<Longrightarrow> lookup n q = Some n' \<Longrightarrow>
     n' \<noteq> Socket \<Longrightarrow> (\<forall>k. name @ x # take k q \<noteq> tar) \<Longrightarrow>
     \<exists>m \<in> set ms. arcname m = arc @ ''/'' @ x @ slashes q"
proof (induction tar name arc n and tar name arc es arbitrary: ms q n' and ms q x n n'
    rule: tar_members_tar_members_in.induct)
  case (1 tar name arc r c)
  from "1.prems"(4) [rule_format, of 0] have "name \<noteq> tar" by simp
  moreover from "1.prems"(2) have "q = []" by (cases q) auto
  ultimately show ?case using "1.prems"(1) by (auto split: if_splits)
next
  case (2 tar name arc es)
  from "2.prems"(4) [rule_format, of 0] have ne: "name \<noteq> tar" by simp
  obtain ms0 ex where p: "tar_members_in tar name arc (sort_key fst es) = (ms0, ex)"
    by (cases "tar_members_in tar name arc (sort_key fst es)")
  with "2.prems"(1) ne have ms: "ms = TarDir arc # ms0" and ex: "ex = None" by auto
  show ?case
  proof (cases q)
    case Nil
    with ms show ?thesis by simp
  next
    case (Cons y ys)
    with "2.prems"(2) obtain n0 where n0: "map_of es y = Some n0" "lookup n0 ys = Some n'"
      by (auto split: option.splits)
    from n0(1) have "(y, n0) \<in> set es" by (rule map_of_SomeD)
    then have mem: "(y, n0) \<in> set (sort_key fst es)" by simp
    have pre: "\<forall>k. name @ y # take k ys \<noteq> tar"
    proof
      fix k
      from "2.prems"(4) [rule_format, of "Suc k"] Cons show "name @ y # take k ys \<noteq> tar" by simp
    qed
    from "2.IH" [OF ne p [unfolded ex] mem n0(2) "2.prems"(3) pre] ms Cons show ?thesis
      by auto
  qed
next
  case (3 tar name arc)
  then show ?case by simp
next
  case (4 tar name arc e es)
  obtain ms1 ex where p: "tar_members tar (name @ [fst e]) (arc @ ''/'' @ fst e) (snd e) = (ms1, ex)"
    by (cases "tar_members tar (name @ [fst e]) (arc @ ''/'' @ fst e) (snd e)")
  obtain ms2 ex2 where r: "tar_members_in tar name arc es = (ms2, ex2)"
    by (cases "tar_members_in tar name arc es")
  from "4.prems"(1) p r have ex: "ex = None" and ex2: "ex2 = None" and ms: "ms = ms1 @ ms2"
    by (auto split: option.splits)
  from "4.prems"(2) consider "e = (x, n)" | "(x, n) \<in> set es" by auto
  then show ?case
  proof cases
    case 1
    have pre: "\<forall>k. (name @ [fst e]) @ take k q \<noteq> tar"
      using "4.prems"(5) 1 by simp
    from "4.prems"(3) 1 have l: "lookup (snd e) q = Some n'" by simp
    from "4.IH"(1) [OF p [unfolded ex] l "4.prems"(4) pre]
    have "\<exists>m \<in> set ms1. arcname m = (arc @ ''/'' @ fst e) @ slashes q"
      by simp
    with ms 1 show ?thesis by auto
  next
    case 2
    from "4.IH"(2) [OF p [symmetric, unfolded ex] refl r [unfolded ex2] 2 "4.prems"(3,4,5)] ms
    show ?thesis by auto
  qed
next
  case (5 tar name arc)
  from "5.prems"(2,3) show ?case by (cases q) auto
qed

subsection \<open>Adding to the archive\<close>

lemma write_members_put:
  assumes "lookup r tar = Some (File rd (Unfinished acc))"
  shows "put r tar (File rd (Unfinished (acc @ ms))) = Some (write_members tar ms r)"
proof -
  from lookup_put_ex [OF assms] obtain r'
    where "put r tar (File rd (Unfinished (acc @ ms))) = Some r'" by blast
  then show ?thesis by (simp add: write_members_def assms)
qed

lemma join_slash_Cons: "join_slash (x # q) = x @ slashes q"
  by (simp add: join_slash_def)

lemma tar_add_step:
  assumes run: "tar_add tar (RelPath [item]) item s = (Inr u, s')"
    and arch: "lookup (root s) tar = Some (File rd (Unfinished acc))"
    and ptar: "list_all proper_name tar"
    and dir: "lookup (root s) (cwd s) = Some (Dir es)"
    and item: "proper_name item"
    and wf: "wf_names (root s)"
  shows "\<exists>ms. lookup (root s') tar = Some (File rd (Unfinished (acc @ ms))) \<and>
           cwd s' = cwd s \<and> stdout s' = stdout s \<and> wf_names (root s') \<and>
           (\<forall>q. q \<noteq> tar \<longrightarrow>
              map_option kind (lookup (root s') q) = map_option kind (lookup (root s) q)) \<and>
           (\<forall>m \<in> set ms. \<exists>q. arcname m = join_slash (item # q) \<and> cwd s @ item # q \<noteq> tar \<and>
              member_of m (lookup (root s) (cwd s @ item # q))) \<and>
           (\<forall>q n. lookup (root s) (cwd s @ item # q) = Some n \<longrightarrow> n \<noteq> Socket \<longrightarrow>
              (\<forall>k. cwd s @ item # take k q \<noteq> tar) \<longrightarrow>
              (\<exists>m \<in> set ms. arcname m = join_slash (item # q)))"
proof -
  let ?t = "cwd s @ [item]"
  have res: "resolve s (RelPath [item]) = Inr ?t"
    using dir item by (simp add: resolve_def resolve_in_def proper_name_def)
  show ?thesis
  proof (cases "lookup (root s) ?t")
    case None
    with run res have "?t = tar"
      by (auto simp: tar_add_def dest!: log_op_eq_InrD split: if_splits)
    with arch None show ?thesis by simp
  next
    case (Some n)
    obtain ms ex where tm: "tar_members tar ?t item n = (ms, ex)"
      by (cases "tar_members tar ?t item n")
    with run res Some have ex: "ex = None"
      and s': "s' = s\<lparr>root := write_members tar ms (root s),
                      events := events s @ [(TarAdd (RelPath [item]) item, None)]\<rparr>"
      by (auto simp: tar_add_def dest!: log_op_eq_InrD split: option.splits)
    note pt = write_members_put [OF arch, of ms]
    from put_lookup_same [OF pt] s'
    have 1: "lookup (root s') tar = Some (File rd (Unfinished (acc @ ms)))" by simp
    from wf_names_put [OF pt wf _ ptar] s' have 2: "wf_names (root s')" by simp
    have 3: "\<forall>q. q \<noteq> tar \<longrightarrow>
        map_option kind (lookup (root s') q) = map_option kind (lookup (root s) q)"
    proof (intro allI impI)
      fix q :: "string list" assume "q \<noteq> tar"
      from put_frame [OF pt _ this] arch s'
      show "map_option kind (lookup (root s') q) = map_option kind (lookup (root s) q)" by simp
    qed
    have sub: "lookup (root s) (cwd s @ item # q) = lookup n q" for q
      using lookup_append [of "root s" ?t q] Some by simp
    from wf_names_sub [OF wf Some] have wn: "wf_names n" .
    have 4: "\<forall>m \<in> set ms. \<exists>q. arcname m = join_slash (item # q) \<and> cwd s @ item # q \<noteq> tar \<and>
              member_of m (lookup (root s) (cwd s @ item # q))"
      using tar_members_sound(1) [OF wn, of tar ?t item] tm
      by (simp add: sub join_slash_Cons)
    have 5: "\<forall>q n'. lookup (root s) (cwd s @ item # q) = Some n' \<longrightarrow> n' \<noteq> Socket \<longrightarrow>
              (\<forall>k. cwd s @ item # take k q \<noteq> tar) \<longrightarrow>
              (\<exists>m \<in> set ms. arcname m = join_slash (item # q))"
    proof (intro allI impI)
      fix q n'
      assume "lookup (root s) (cwd s @ item # q) = Some n'" "n' \<noteq> Socket"
        "\<forall>k. cwd s @ item # take k q \<noteq> tar"
      then have "lookup n q = Some n'" "n' \<noteq> Socket" "\<forall>k. ?t @ take k q \<noteq> tar"
        by (simp_all add: sub)
      from tar_members_complete(1) [OF tm [unfolded ex] this]
      show "\<exists>m \<in> set ms. arcname m = join_slash (item # q)"
        by (simp add: join_slash_Cons)
    qed
    from 1 2 3 4 5 s' show ?thesis by auto
  qed
qed

lemma print_InrD: "print text s = (Inr u, s') \<Longrightarrow> s' = s\<lparr>stdout := stdout s @ [text]\<rparr>"
  by (auto simp: print_def)

lemma add_loop:
  assumes "for_each items (\<lambda>item. bind (print item) (\<lambda>_. tar_add tar (RelPath [item]) item)) s
             = (Inr u, s')"
    and "lookup (root s) tar = Some (File rd (Unfinished acc))"
    and "list_all proper_name tar"
    and "lookup (root s) (cwd s) = Some (Dir es)"
    and "list_all proper_name items"
    and "wf_names (root s)"
  shows "\<exists>ms. lookup (root s') tar = Some (File rd (Unfinished (acc @ ms))) \<and>
           cwd s' = cwd s \<and> stdout s' = stdout s @ items \<and>
           (\<forall>m \<in> set ms. \<exists>item \<in> set items. \<exists>q.
              arcname m = join_slash (item # q) \<and> cwd s @ item # q \<noteq> tar \<and>
              member_of m (lookup (root s) (cwd s @ item # q))) \<and>
           (\<forall>item \<in> set items. \<forall>q n.
              lookup (root s) (cwd s @ item # q) = Some n \<longrightarrow> n \<noteq> Socket \<longrightarrow>
              (\<forall>k. cwd s @ item # take k q \<noteq> tar) \<longrightarrow>
              (\<exists>m \<in> set ms. arcname m = join_slash (item # q)))"
  using assms
proof (induction items arbitrary: s acc es)
  case Nil
  then show ?case by (simp add: ret_def)
next
  case (Cons item items)
  from Cons.prems(1) obtain s0 s1 where
    p: "print item s = (Inr (), s0)" and a: "tar_add tar (RelPath [item]) item s0 = (Inr (), s1)"
    and rest: "for_each items (\<lambda>item. bind (print item) (\<lambda>_. tar_add tar (RelPath [item]) item)) s1
                 = (Inr u, s')"
    by (auto dest!: bind_eq_InrD)
  from p have s0: "s0 = s\<lparr>stdout := stdout s @ [item]\<rparr>" by (rule print_InrD)
  from Cons.prems(5) have item: "proper_name item" and items: "list_all proper_name items"
    by simp_all
  from tar_add_step [OF a _ Cons.prems(3) _ item, of rd acc es] Cons.prems(2,4,6) s0
  obtain ms where
    1: "lookup (root s1) tar = Some (File rd (Unfinished (acc @ ms)))"
    and 2: "cwd s1 = cwd s" "stdout s1 = stdout s @ [item]"
    and wf1: "wf_names (root s1)"
    and fr: "\<And>q. q \<noteq> tar \<Longrightarrow>
        map_option kind (lookup (root s1) q) = map_option kind (lookup (root s) q)"
    and 4: "\<forall>m \<in> set ms. \<exists>q. arcname m = join_slash (item # q) \<and> cwd s @ item # q \<noteq> tar \<and>
              member_of m (lookup (root s) (cwd s @ item # q))"
    and 5: "\<forall>q n. lookup (root s) (cwd s @ item # q) = Some n \<longrightarrow> n \<noteq> Socket \<longrightarrow>
              (\<forall>k. cwd s @ item # take k q \<noteq> tar) \<longrightarrow>
              (\<exists>m \<in> set ms. arcname m = join_slash (item # q))"
    by auto
  from Cons.prems(2,4) have "cwd s \<noteq> tar" by auto
  from fr [OF this] Cons.prems(4)
  have "map_option kind (lookup (root s1) (cwd s)) = map_option kind (Some (Dir es))" by simp
  from kind_Dir [OF this] obtain es' where 3: "lookup (root s1) (cwd s) = Some (Dir es')" ..
  from Cons.IH [OF rest 1 Cons.prems(3) _ items wf1, of es'] 2 3
  obtain ms' where
    7: "lookup (root s') tar = Some (File rd (Unfinished ((acc @ ms) @ ms')))"
    and 8: "cwd s' = cwd s" "stdout s' = (stdout s @ [item]) @ items"
    and 9: "\<forall>m \<in> set ms'. \<exists>i \<in> set items. \<exists>q.
              arcname m = join_slash (i # q) \<and> cwd s @ i # q \<noteq> tar \<and>
              member_of m (lookup (root s1) (cwd s @ i # q))"
    and 10: "\<forall>i \<in> set items. \<forall>q n.
              lookup (root s1) (cwd s @ i # q) = Some n \<longrightarrow> n \<noteq> Socket \<longrightarrow>
              (\<forall>k. cwd s @ i # take k q \<noteq> tar) \<longrightarrow>
              (\<exists>m \<in> set ms'. arcname m = join_slash (i # q))"
    by auto
  have A: "\<forall>m \<in> set (ms @ ms'). \<exists>i \<in> set (item # items). \<exists>q.
              arcname m = join_slash (i # q) \<and> cwd s @ i # q \<noteq> tar \<and>
              member_of m (lookup (root s) (cwd s @ i # q))"
  proof
    fix m assume "m \<in> set (ms @ ms')"
    then consider "m \<in> set ms" | "m \<in> set ms'" by auto
    then show "\<exists>i \<in> set (item # items). \<exists>q.
              arcname m = join_slash (i # q) \<and> cwd s @ i # q \<noteq> tar \<and>
              member_of m (lookup (root s) (cwd s @ i # q))"
    proof cases
      case 1
      with 4 show ?thesis by auto
    next
      case 2
      with 9 obtain i q where i: "i \<in> set items" "arcname m = join_slash (i # q)"
        "cwd s @ i # q \<noteq> tar" "member_of m (lookup (root s1) (cwd s @ i # q))"
        by blast
      from i(4) fr [OF i(3)] member_of_kind [of m "lookup (root s1) (cwd s @ i # q)"]
        member_of_kind [of m "lookup (root s) (cwd s @ i # q)"]
      have "member_of m (lookup (root s) (cwd s @ i # q))" by simp
      with i show ?thesis by auto
    qed
  qed
  have B: "\<forall>i \<in> set (item # items). \<forall>q n.
              lookup (root s) (cwd s @ i # q) = Some n \<longrightarrow> n \<noteq> Socket \<longrightarrow>
              (\<forall>k. cwd s @ i # take k q \<noteq> tar) \<longrightarrow>
              (\<exists>m \<in> set (ms @ ms'). arcname m = join_slash (i # q))"
  proof (intro ballI allI impI)
    fix i q n
    assume i: "i \<in> set (item # items)" and l: "lookup (root s) (cwd s @ i # q) = Some n"
      and n: "n \<noteq> Socket" and k: "\<forall>k. cwd s @ i # take k q \<noteq> tar"
    show "\<exists>m \<in> set (ms @ ms'). arcname m = join_slash (i # q)"
    proof (cases "i = item")
      case True
      with 5 l n k obtain m where "m \<in> set ms" "arcname m = join_slash (item # q)" by blast
      with True show ?thesis by auto
    next
      case False
      with i have i': "i \<in> set items" by simp
      from k [rule_format, of "length q"] have "cwd s @ i # q \<noteq> tar" by simp
      from fr [OF this] l have "map_option kind (lookup (root s1) (cwd s @ i # q)) =
          map_option kind (Some n)" by simp
      from kind_not_Socket [OF this n] obtain n1 where
        "lookup (root s1) (cwd s @ i # q) = Some n1" "n1 \<noteq> Socket" by blast
      with 10 i' k obtain m where "m \<in> set ms'" "arcname m = join_slash (i # q)" by blast
      then show ?thesis by auto
    qed
  qed
  from 7 8 A B show ?case
    by (intro exI [of _ "ms @ ms'"]) simp
qed

lemma resolve_upd [simp]:
  "resolve (s\<lparr>events := ev\<rparr>) p = resolve s p"
  "resolve (s\<lparr>stdout := out\<rparr>) p = resolve s p"
  by (simp_all add: resolve_def resolve_in_def split: ppath.splits list.splits)

lemma tarfile_open_InrD:
  assumes "tarfile_open p s = (Inr tar, s')"
  shows "\<exists>rd r'. resolve s p = Inr tar \<and> (\<forall>es. lookup (root s) tar \<noteq> Some (Dir es)) \<and>
           put (root s) tar (File rd (Unfinished [])) = Some r' \<and>
           s' = s\<lparr>root := r', events := events s @ [(TarfileOpen p ''w:gz'', None)]\<rparr>"
proof -
  from assms obtain s0 where m: "s' = s0\<lparr>events := events s0 @ [(TarfileOpen p ''w:gz'', None)]\<rparr>"
    and r: "(case resolve s p of
          Inl e \<Rightarrow> (Inl e, s)
        | Inr t \<Rightarrow>
            (case lookup (root s) t of
               Some (Dir _) \<Rightarrow> (Inl IsADirectoryError, s)
             | Some Socket \<Rightarrow> (Inl OSError, s)
             | old \<Rightarrow>
                 (case put (root s) t
                         (File (case old of Some (File r _) \<Rightarrow> r | _ \<Rightarrow> True) (Unfinished [])) of
                    None \<Rightarrow> (Inl FileNotFoundError, s)
                  | Some r' \<Rightarrow> (Inr t, s\<lparr>root := r'\<rparr>)))) = (Inr tar, s0)"
    unfolding tarfile_open_def by (blast dest!: log_op_eq_InrD)
  from r have t: "resolve s p = Inr tar"
    by (auto split: sum.splits option.splits fnode.splits)
  from r t have nd: "\<forall>es. lookup (root s) tar \<noteq> Some (Dir es)"
    by (auto split: option.splits fnode.splits)
  let ?rd = "case lookup (root s) tar of Some (File r _) \<Rightarrow> r | _ \<Rightarrow> True"
  from r t obtain r' where "put (root s) tar (File ?rd (Unfinished [])) = Some r'"
    and "s0 = s\<lparr>root := r'\<rparr>"
    by (auto split: option.splits fnode.splits)
  with m t nd show ?thesis by auto
qed

lemma os_listdir_InrD:
  assumes "os_listdir p s = (Inr items, s')"
  shows "\<exists>t es. resolve s p = Inr t \<and> lookup (root s) t = Some (Dir es) \<and> items = map fst es \<and>
           s' = s\<lparr>events := events s @ [(OsListdir p, None)]\<rparr>"
  using assms
  by (auto simp: os_listdir_def dest!: log_op_eq_InrD split: sum.splits option.splits fnode.splits)

lemma tar_close_InrD:
  assumes "tar_close tar s = (Inr u, s')"
    and "lookup (root s) tar = Some (File rd (Unfinished ms))"
  shows "lookup (root s') tar = Some (File rd (TarGz ms)) \<and> cwd s' = cwd s \<and> stdout s' = stdout s"
proof -
  from lookup_put_ex [OF assms(2)] obtain r' where r': "put (root s) tar (File rd (TarGz ms)) = Some r'"
    by blast
  with assms have "s' = s\<lparr>root := r', events := events s @ [(TarClose, None)]\<rparr>"
    by (auto simp: tar_close_def dest!: log_op_eq_InrD)
  with put_lookup_same [OF r'] show ?thesis by simp
qed

lemma resolve_dot:
  "lookup (root s) (cwd s) = Some (Dir es) \<Longrightarrow> resolve s (RelPath [''.'']) = Inr (cwd s)"
  by (simp add: resolve_def resolve_in_def)

section \<open>Properties of the notebook\<close>

subsection \<open>Events of a run\<close>

lemma emitsI:
  assumes "\<And>s r s'. m s = (r, s') \<Longrightarrow> \<exists>new. events s' = events s @ new \<and> Q new r"
  shows "emits m Q"
  unfolding emits_def
proof
  fix s
  show "\<exists>new. events (snd (m s)) = events s @ new \<and> Q new (fst (m s))"
    using assms [of s "fst (m s)" "snd (m s)"] by simp
qed

lemma emitsD:
  "emits m Q \<Longrightarrow> m s = (r, s') \<Longrightarrow> \<exists>new. events s' = events s @ new \<and> Q new r"
  unfolding emits_def by (metis fst_conv snd_conv)

lemma emits_weaken: "emits m P \<Longrightarrow> (\<And>new r. P new r \<Longrightarrow> Q new r) \<Longrightarrow> emits m Q"
  unfolding emits_def by blast

lemma single_log_op:
  assumes "\<And>s. events (snd (m s)) = events s"
  shows "single (log_op c m) c"
  unfolding single_def
proof (rule emitsI)
  fix s r s' assume "log_op c m s = (r, s')"
  then show "\<exists>new. events s' = events s @ new \<and> new = [(c, outcome r)]"
    using assms [of s] by (cases "m s") (auto simp: log_op_def)
qed

lemma single_call: "single (call c f) c"
  unfolding call_def by (rule single_log_op) (simp split: prod.splits)

lemma single_call_state: "single (\<lambda>s. call c (f s) s) c"
  unfolding single_def
proof (rule emitsI)
  fix s r s' assume "call c (f s) s = (r, s')"
  with single_call [of c "f s"] show "\<exists>new. events s' = events s @ new \<and> new = [(c, outcome r)]"
    unfolding single_def by (rule emitsD)
qed

lemma single_os_getcwd: "single os_getcwd OsGetcwd"
  unfolding os_getcwd_def by (rule single_log_op) (simp split: option.splits fnode.splits)

lemma single_os_chdir: "single (os_chdir p) (OsChdir p)"
  unfolding os_chdir_def
  by (rule single_log_op) (simp split: sum.splits option.splits fnode.splits)

lemma single_os_listdir: "single (os_listdir p) (OsListdir p)"
  unfolding os_listdir_def
  by (rule single_log_op) (simp split: sum.splits option.splits fnode.splits)

lemma single_tarfile_open: "single (tarfile_open p) (TarfileOpen p ''w:gz'')"
  unfolding tarfile_open_def
  by (rule single_log_op) (simp split: sum.splits option.splits fnode.splits)

lemma single_tar_add: "single (tar_add tar name arc) (TarAdd name arc)"
  unfolding tar_add_def
  by (rule single_log_op) (simp split: sum.splits option.splits prod.splits)

lemma single_tar_close: "single (tar_close tar) TarClose"
  unfolding tar_close_def by (rule single_log_op) simp

lemma single_shell_mkdir: "single (shell_mkdir p) (ShellMkdir p)"
  unfolding shell_mkdir_def
  by (rule single_log_op) (simp split: sum.splits option.splits)

lemma single_write_file: "single (write_file p text) (WriteFile p)"
  unfolding write_file_def
  by (rule single_log_op) (simp add: Let_def split: sum.splits option.splits fnode.splits)

lemma single_path_mkdir: "single (path_mkdir p) (PathMkdir p)"
  unfolding path_mkdir_def
  by (rule single_log_op) (simp split: sum.splits option.splits)

lemma single_copy_tree_call: "single (copy_tree_call env src dst) (CopyTree src dst)"
  unfolding copy_tree_call_def by (rule single_log_op) (simp split: prod.splits)

lemma single_chdir_None: "single (log_op (OsChdir (RelPath [])) (lift (Inl TypeError))) (OsChdir (RelPath []))"
  by (rule single_log_op) (simp add: lift_def)

lemmas single_intros =
  single_call single_call_state single_os_getcwd single_os_chdir single_os_listdir
  single_tarfile_open single_tar_add single_tar_close single_shell_mkdir single_write_file
  single_path_mkdir single_copy_tree_call single_chdir_None

lemma silent_ret: "silent (ret x)"
  unfolding silent_def by (rule emitsI) (simp add: ret_def)

lemma silent_print: "silent (print text)"
  unfolding silent_def by (rule emitsI) (auto simp: print_def)

lemma silent_read: "silent (\<lambda>s. (Inr (f s), s))"
  unfolding silent_def by (rule emitsI) auto

lemmas silent_intros = silent_ret silent_print silent_read

subsection \<open>Exceptions go on\<close>

lemma propagates_Nil [simp]: "propagates K [] r"
  by (simp add: propagates_def)

lemma propagates_single_event:
  "K c \<Longrightarrow> propagates K [(c, outcome r)] r"
  by (cases r) (simp_all add: propagates_def outcome_def)

lemma propagates_returned:
  "propagates K n1 (Inr x) \<Longrightarrow> propagates K n2 r \<Longrightarrow> propagates K (n1 @ n2) r"
  by (auto simp: propagates_def list_all_iff split: option.splits)

lemma propagates_raised:
  "propagates K n (Inl e :: pyexc + 'a) \<Longrightarrow> propagates K n (Inl e :: pyexc + 'b)"
  by (auto simp: propagates_def list_all_iff split: option.splits)

lemma propagates_mono:
  "propagates K n r \<Longrightarrow> (\<And>c. K c \<Longrightarrow> K' c) \<Longrightarrow> propagates K' n r"
  by (auto simp: propagates_def list_all_iff)

lemma emits_single: "single m c \<Longrightarrow> K c \<Longrightarrow> emits m (propagates K)"
  unfolding single_def by (erule emits_weaken) (simp add: propagates_single_event)

lemma emits_silent: "silent m \<Longrightarrow> emits m (propagates K)"
  unfolding silent_def by (erule emits_weaken) simp

lemma emits_bind:
  assumes "emits m (propagates K)" and "\<And>x. emits (f x) (propagates K)"
  shows "emits (bind m f) (propagates K)"
proof (rule emitsI)
  fix s r s' assume run: "bind m f s = (r, s')"
  obtain r1 s1 where m: "m s = (r1, s1)" by (cases "m s")
  from emitsD [OF assms(1) m] obtain n1 where n1: "events s1 = events s @ n1" "propagates K n1 r1"
    by blast
  show "\<exists>new. events s' = events s @ new \<and> propagates K new r"
  proof (cases r1)
    case (Inl e)
    with run m have "r = Inl e" "s' = s1" by (simp_all add: bind_def)
    with n1 Inl show ?thesis by (auto intro: propagates_raised)
  next
    case (Inr x)
    with run m have "f x s1 = (r, s')" by (simp add: bind_def)
    from emitsD [OF assms(2) this] obtain n2 where "events s' = events s1 @ n2" "propagates K n2 r"
      by blast
    with n1 Inr show ?thesis by (auto intro: propagates_returned)
  qed
qed

lemma emits_if:
  "emits m1 Q \<Longrightarrow> emits m2 Q \<Longrightarrow> emits (if b then m1 else m2) Q"
  by simp

lemma emits_case_prod:
  "(\<And>a b. emits (f a b) Q) \<Longrightarrow> emits (case p of (a, b) \<Rightarrow> f a b) Q"
  by (cases p) simp

lemma emits_for_each:
  assumes "\<And>x. emits (body x) (propagates K)"
  shows "emits (for_each xs body) (propagates K)"
proof (induction xs)
  case Nil
  show ?case by (simp add: emits_silent silent_ret)
next
  case (Cons x xs)
  show ?case by (simp add: emits_bind assms Cons)
qed

lemma emits_with_TemporaryDirectory:
  assumes "K TemporaryDirectoryNew" and "\<And>p. K (TemporaryDirectoryCleanup p)"
    and "\<And>tmpdir. emits (body tmpdir) (propagates K)"
  shows "emits (with_TemporaryDirectory env body) (propagates K)"
  unfolding with_TemporaryDirectory_def
proof (rule emits_bind)
  show "emits (call TemporaryDirectoryNew (TemporaryDirectory env)) (propagates K)"
    by (rule emits_single [OF single_call]) (rule assms(1))
next
  fix tmpdir
  show "emits (\<lambda>s. case body tmpdir s of
           (r, s') \<Rightarrow>
             (r, s'\<lparr>world := cleanup env tmpdir (world s'),
                    events := events s' @ [(TemporaryDirectoryCleanup tmpdir, None)]\<rparr>))
          (propagates K)"
  proof (rule emitsI)
    fix s r s' assume run: "(case body tmpdir s of
           (r, s') \<Rightarrow>
             (r, s'\<lparr>world := cleanup env tmpdir (world s'),
                    events := events s' @ [(TemporaryDirectoryCleanup tmpdir, None)]\<rparr>)) = (r, s')"
    obtain r1 s1 where b: "body tmpdir s = (r1, s1)" by (cases "body tmpdir s")
    from emitsD [OF assms(3) b] obtain n1 where n1: "events s1 = events s @ n1" "propagates K n1 r1"
      by blast
    from run b have "r = r1" "events s' = events s1 @ [(TemporaryDirectoryCleanup tmpdir, None)]"
      by auto
    with n1 assms(2) [of tmpdir] show "\<exists>new. events s' = events s @ new \<and> propagates K new r"
      by (auto simp: propagates_def)
  qed
qed

lemma emits_try_except_role:
  assumes "K GetExecutionRole" and "emits h (propagates K)"
  shows "emits (try_except (call GetExecutionRole f) ''ValueError'' h) (propagates K)"
proof (rule emitsI)
  fix s r s' assume run: "try_except (call GetExecutionRole f) ''ValueError'' h s = (r, s')"
  obtain r1 s1 where m: "call GetExecutionRole f s = (r1, s1)" by (cases "call GetExecutionRole f s")
  from emitsD [OF single_call [unfolded single_def] m]
  have n1: "events s1 = events s @ [(GetExecutionRole, outcome r1)]" by simp
  show "\<exists>new. events s' = events s @ new \<and> propagates K new r"
  proof (cases r1)
    case (Inr x)
    with run m have "r = Inr x" "s' = s1" by (simp_all add: try_except_def)
    with n1 Inr assms(1) show ?thesis by (simp add: propagates_def outcome_def)
  next
    case (Inl e)
    show ?thesis
    proof (cases "isinstance e ''ValueError''")
      case False
      with run m Inl have "r = Inl e" "s' = s1" by (simp_all add: try_except_def)
      with n1 Inl assms(1) show ?thesis by (simp add: propagates_def outcome_def)
    next
      case True
      with run m Inl have "h s1 = (r, s')" by (simp add: try_except_def)
      from emitsD [OF assms(2) this] obtain n2 where "events s' = events s1 @ n2" "propagates K n2 r"
        by blast
      with n1 Inl True assms(1) show ?thesis by (simp add: propagates_def outcome_def)
    qed
  qed
qed

lemmas emits_singles =
  emits_single [OF single_call] emits_single [OF single_call_state]
  emits_single [OF single_os_getcwd] emits_single [OF single_os_chdir]
  emits_single [OF single_os_listdir] emits_single [OF single_tarfile_open]
  emits_single [OF single_tar_add] emits_single [OF single_tar_close]
  emits_single [OF single_shell_mkdir] emits_single [OF single_write_file]
  emits_single [OF single_path_mkdir] emits_single [OF single_copy_tree_call]
  emits_single [OF single_chdir_None]

lemmas emits_silents =
  emits_silent [OF silent_ret] emits_silent [OF silent_print] emits_silent [OF silent_read]

lemmas emits_intros =
  emits_bind emits_if emits_case_prod emits_for_each emits_with_TemporaryDirectory
  emits_try_except_role emits_singles emits_silents

text \<open>Each cell, and the kind of its events.\<close>

lemma model_tar_dir_eq: "model_tar_dir = RelPath [''flan-t5-xxl-sharded-fp16'']"
  by (simp add: model_tar_dir_def HF_MODEL_ID_def)

lemma emits_cell_install: "emits (cell_install env) (propagates (\<lambda>c. step_of c = None))"
  unfolding cell_install_def by (intro emits_intros) simp

lemma emits_cell_credentials: "emits (cell_credentials env) (propagates (of_step StepCredentials))"
  unfolding cell_credentials_def by (intro emits_intros) (simp_all add: of_step_def)

lemma emits_cell_mkdir_code: "emits cell_mkdir_code (propagates (of_step StepWriteFiles))"
  unfolding cell_mkdir_code_def by (intro emits_intros) (simp_all add: of_step_def)

lemma emits_cell_requirements: "emits cell_requirements (propagates (of_step StepWriteFiles))"
  unfolding cell_requirements_def by (intro emits_intros) (simp_all add: of_step_def)

lemma emits_cell_inference: "emits cell_inference (propagates (of_step StepWriteFiles))"
  unfolding cell_inference_def by (intro emits_intros) (simp_all add: of_step_def)

lemma emits_cell_download: "emits (cell_download env) (propagates (of_step StepDownload))"
  unfolding cell_download_def
  by (intro emits_intros) (simp_all add: of_step_def model_tar_dir_eq)

lemma emits_cell_copy_code: "emits (cell_copy_code env) (propagates (of_step StepCopyHandler))"
  unfolding cell_copy_code_def by (intro emits_intros) (simp_all add: of_step_def model_tar_dir_eq)

lemma emits_compress: "emits (compress tar_dir output_file) (propagates (of_step StepCompress))"
  unfolding compress_def with_tarfile_def
  by (cases tar_dir; simp; intro emits_intros) (simp_all add: of_step_def)

lemma emits_cell_upload: "emits (cell_upload env sess) (propagates (of_step StepUpload))"
  unfolding cell_upload_def by (intro emits_intros) (simp_all add: of_step_def)

lemma emits_cell_deploy: "emits (cell_deploy env uri role) (propagates (of_step StepDeploy))"
  unfolding cell_deploy_def by (intro emits_intros) (simp_all add: of_step_def)

lemma emits_cell_predict: "emits (cell_predict env predictor payload) (propagates (of_step StepPredict))"
  unfolding cell_predict_def by (intro emits_intros) (simp_all add: of_step_def)

lemma emits_cell_delete: "emits (cell_delete env predictor) (propagates (of_step StepDelete))"
  unfolding cell_delete_def by (intro emits_intros) (simp_all add: of_step_def)

subsection \<open>The fallback\<close>

lemmas fallback_defs =
  fallback_iff_def fallback_taken_def resolution_raised_ValueError_def role_lookup_def

lemma fallback_iff_append: "fallback_iff a \<Longrightarrow> fallback_iff b \<Longrightarrow> fallback_iff (a @ b)"
  by (auto simp: fallback_defs)

lemma emits_bind_fallback:
  assumes "emits m (\<lambda>new r. fallback_iff new)" and "\<And>x. emits (f x) (\<lambda>new r. fallback_iff new)"
  shows "emits (bind m f) (\<lambda>new r. fallback_iff new)"
proof (rule emitsI)
  fix s r s' assume run: "bind m f s = (r, s')"
  obtain r1 s1 where m: "m s = (r1, s1)" by (cases "m s")
  from emitsD [OF assms(1) m] obtain n1 where n1: "events s1 = events s @ n1" "fallback_iff n1"
    by blast
  show "\<exists>new. events s' = events s @ new \<and> fallback_iff new"
  proof (cases r1)
    case (Inl e)
    with run m have "s' = s1" by (simp add: bind_def)
    with n1 show ?thesis by auto
  next
    case (Inr x)
    with run m have "f x s1 = (r, s')" by (simp add: bind_def)
    from emitsD [OF assms(2) this] obtain n2 where "events s' = events s1 @ n2" "fallback_iff n2"
      by blast
    with n1 show ?thesis by (auto intro: fallback_iff_append)
  qed
qed

lemma outside_fallback_iff:
  "outside_fallback c \<longleftrightarrow>
     c \<noteq> Boto3Client ''iam'' \<and> c \<noteq> GetExecutionRole \<and> (\<forall>iam name. c \<noteq> IamGetRole iam name)"
  by (cases c) (simp_all add: outside_fallback_def)

lemma fallback_iff_other:
  assumes "propagates K new r" and "\<And>c. K c \<Longrightarrow> outside_fallback c"
  shows "fallback_iff new"
proof -
  from assms have out: "\<forall>ev \<in> set new. outside_fallback (fst ev)"
    by (auto simp: propagates_def list_all_iff)
  then have "\<not> fallback_taken new" "\<not> resolution_raised_ValueError new"
    by (auto simp: fallback_taken_def resolution_raised_ValueError_def list_ex_iff
          outside_fallback_iff)
  moreover from out have "role_lookup new"
    by (auto simp: role_lookup_def list_ex_iff list_all_iff outside_fallback_iff
          split: opcall.splits)
  ultimately show ?thesis by (simp add: fallback_iff_def)
qed

lemma emits_fallback_other:
  assumes "emits m (propagates K)" and "\<And>c. K c \<Longrightarrow> outside_fallback c"
  shows "emits m (\<lambda>new r. fallback_iff new)"
  using assms(1) by (rule emits_weaken) (rule fallback_iff_other [OF _ assms(2)])

lemma of_step_not_credentials:
  "st \<noteq> StepCredentials \<Longrightarrow> of_step st c \<Longrightarrow> outside_fallback c"
  by (auto simp: of_step_def outside_fallback_iff)

lemma emits_fallback_single:
  assumes "single m c" and "outside_fallback c"
  shows "emits m (\<lambda>new r. fallback_iff new)"
  using assms(1) unfolding single_def
proof (rule emits_weaken)
  fix new :: "event list" and r
  assume "new = [(c, outcome r)]"
  with assms(2) show "fallback_iff new"
    by (auto simp: fallback_defs outside_fallback_iff split: opcall.splits)
qed

lemma emits_fallback_silent: "silent m \<Longrightarrow> emits m (\<lambda>new r. fallback_iff new)"
  unfolding silent_def
  by (erule emits_weaken) (simp add: fallback_defs)

lemma emits_fallback_block:
  "emits (try_except (call GetExecutionRole g) ''ValueError''
            (bind (call (Boto3Client ''iam'') b)
               (\<lambda>iam. call (IamGetRole iam ''sagemaker_execution_role'') (a iam))))
     (\<lambda>new r. fallback_iff new)"
proof (rule emitsI)
  let ?h = "bind (call (Boto3Client ''iam'') b)
              (\<lambda>iam. call (IamGetRole iam ''sagemaker_execution_role'') (a iam))"
  fix s r s' assume run: "try_except (call GetExecutionRole g) ''ValueError'' ?h s = (r, s')"
  obtain r1 s1 where m: "call GetExecutionRole g s = (r1, s1)" by (cases "call GetExecutionRole g s")
  from emitsD [OF single_call [unfolded single_def] m]
  have n1: "events s1 = events s @ [(GetExecutionRole, outcome r1)]" by simp
  have taken: "(\<exists>e. events s'' = events s1 @ [(Boto3Client ''iam'', Some e)]) \<or>
       (\<exists>iam y. events s'' = events s1 @
          [(Boto3Client ''iam'', None), (IamGetRole iam ''sagemaker_execution_role'', y)])"
    if "?h s1 = (r', s'')" for r' s''
  proof -
    obtain r2 s2 where c: "call (Boto3Client ''iam'') b s1 = (r2, s2)"
      by (cases "call (Boto3Client ''iam'') b s1")
    from emitsD [OF single_call [unfolded single_def] c]
    have n2: "events s2 = events s1 @ [(Boto3Client ''iam'', outcome r2)]" by simp
    show ?thesis
    proof (cases r2)
      case (Inl e)
      with that c have "s'' = s2" by (simp add: bind_def)
      with n2 Inl show ?thesis by (simp add: outcome_def)
    next
      case (Inr iam)
      with that c have "call (IamGetRole iam ''sagemaker_execution_role'') (a iam) s2 = (r', s'')"
        by (simp add: bind_def)
      from emitsD [OF single_call [unfolded single_def] this] n2 Inr
      show ?thesis by (simp add: outcome_def)
    qed
  qed
  show "\<exists>new. events s' = events s @ new \<and> fallback_iff new"
  proof (cases r1)
    case (Inr x)
    with run m have "s' = s1" by (simp add: try_except_def)
    with n1 Inr show ?thesis by (simp add: fallback_defs outcome_def)
  next
    case (Inl e)
    show ?thesis
    proof (cases "isinstance e ''ValueError''")
      case False
      with run m Inl have "s' = s1" by (simp add: try_except_def)
      with n1 Inl False show ?thesis by (simp add: fallback_defs outcome_def)
    next
      case True
      with run m Inl have "?h s1 = (r, s')" by (simp add: try_except_def)
      from taken [OF this] show ?thesis
      proof (elim disjE exE)
        fix e' assume "events s' = events s1 @ [(Boto3Client ''iam'', Some e')]"
        with n1 Inl True show ?thesis by (simp add: fallback_defs outcome_def)
      next
        fix iam y
        assume "events s' = events s1 @
          [(Boto3Client ''iam'', None), (IamGetRole iam ''sagemaker_execution_role'', y)]"
        with n1 Inl True show ?thesis by (simp add: fallback_defs outcome_def)
      qed
    qed
  qed
qed

lemmas emits_fallback_singles =
  emits_fallback_single [OF single_call] emits_fallback_single [OF single_call_state]

lemmas emits_fallback_silents =
  emits_fallback_silent [OF silent_ret] emits_fallback_silent [OF silent_print]
  emits_fallback_silent [OF silent_read]

lemma emits_fallback_credentials: "emits (cell_credentials env) (\<lambda>new r. fallback_iff new)"
  unfolding cell_credentials_def
  by (intro emits_bind_fallback emits_if emits_fallback_block emits_fallback_singles
        emits_fallback_silents) (simp_all add: outside_fallback_iff)

lemma emits_fallback_notebook: "emits (notebook env) (\<lambda>new r. fallback_iff new)"
  unfolding notebook_def
  by (intro emits_bind_fallback emits_case_prod emits_fallback_credentials
        emits_fallback_other [OF emits_cell_install]
        emits_fallback_other [OF emits_cell_mkdir_code]
        emits_fallback_other [OF emits_cell_requirements]
        emits_fallback_other [OF emits_cell_inference]
        emits_fallback_other [OF emits_cell_download]
        emits_fallback_other [OF emits_cell_copy_code]
        emits_fallback_other [OF emits_compress [of "Some model_tar_dir" "RelPath [''model.tar.gz'']", folded cell_compress_def]]
        emits_fallback_other [OF emits_cell_upload]
        emits_fallback_other [OF emits_cell_deploy]
        emits_fallback_other [OF emits_cell_predict]
        emits_fallback_other [OF emits_cell_delete])
     (auto simp: of_step_def outside_fallback_iff)

lemma emits_propagates_notebook: "emits (notebook env) (propagates (\<lambda>c. True))"
  unfolding notebook_def
  by (intro emits_bind emits_case_prod
        emits_weaken [OF emits_cell_install] emits_weaken [OF emits_cell_credentials]
        emits_weaken [OF emits_cell_mkdir_code] emits_weaken [OF emits_cell_requirements]
        emits_weaken [OF emits_cell_inference] emits_weaken [OF emits_cell_download]
        emits_weaken [OF emits_cell_copy_code]
        emits_weaken [OF emits_compress [of "Some model_tar_dir" "RelPath [''model.tar.gz'']", folded cell_compress_def]]
        emits_weaken [OF emits_cell_upload] emits_weaken [OF emits_cell_deploy]
        emits_weaken [OF emits_cell_predict] emits_weaken [OF emits_cell_delete])
     (erule propagates_mono, simp)+

subsection \<open>The order of the steps\<close>

lemma singleD: "single m c \<Longrightarrow> m s = (Inr x, s') \<Longrightarrow> events s' = events s @ [(c, None)]"
  unfolding single_def by (drule (1) emitsD) (simp add: outcome_def)

lemma steps_of_append [simp]: "steps_of (a @ b) = steps_of a @ steps_of b"
  by (simp add: steps_of_def)

lemma steps_of_Nil [simp]: "steps_of [] = []"
  by (simp add: steps_of_def)

lemma steps_of_Cons [simp]:
  "steps_of (ev # evs) = (case step_of (fst ev) of None \<Rightarrow> [] | Some st \<Rightarrow> [st]) @ steps_of evs"
  by (simp add: steps_of_def)

lemma steps_of_propagates:
  "propagates (of_step st) new r \<Longrightarrow> set (steps_of new) \<subseteq> {st}"
  by (induction new) (auto simp: propagates_def of_step_def split: option.splits)

lemma constant_list: "set xs \<subseteq> {a} \<Longrightarrow> xs \<noteq> [] \<Longrightarrow> \<exists>n. xs = replicate (Suc n) a"
proof (induction xs)
  case Nil
  then show ?case by simp
next
  case (Cons x xs)
  show ?case
  proof (cases "xs = []")
    case True
    with Cons.prems show ?thesis by (intro exI [of _ 0]) simp
  next
    case False
    with Cons obtain n where "xs = replicate (Suc n) a" by auto
    with Cons.prems show ?thesis by (intro exI [of _ "Suc n"]) simp
  qed
qed

lemma cell_steps:
  assumes "emits m (propagates (of_step st))"
    and "m s = (r, s')"
    and "\<And>new. events s' = events s @ new \<Longrightarrow> \<exists>c x. (c, x) \<in> set new \<and> step_of c = Some st"
  shows "\<exists>new n. events s' = events s @ new \<and> steps_of new = replicate (Suc n) st"
proof -
  from emitsD [OF assms(1,2)] obtain new where new: "events s' = events s @ new"
    "propagates (of_step st) new r" by blast
  from assms(3) [OF new(1)] obtain c x where c: "(c, x) \<in> set new" "step_of c = Some st" by blast
  then have "st \<in> set (steps_of new)"
    by (force simp: steps_of_def)
  then have "steps_of new \<noteq> []" by auto
  from constant_list [OF steps_of_propagates [OF new(2)] this]
  obtain n where "steps_of new = replicate (Suc n) st" by blast
  with new(1) show ?thesis by blast
qed

lemma first_event:
  assumes "single m c" and "\<And>x. emits (f x) (propagates (\<lambda>c. True))"
    and "bind m f s = (Inr y, s')" and "events s' = events s @ new"
  shows "\<exists>x. (c, x) \<in> set new"
proof -
  from assms(3) obtain x s1 where m: "m s = (Inr x, s1)" and f: "f x s1 = (Inr y, s')"
    by (auto simp: bind_def split: prod.splits sum.splits)
  from singleD [OF assms(1) m] emitsD [OF assms(2) f] assms(4) show ?thesis by auto
qed

lemma cell_install_steps:
  "cell_install env s = (Inr u, s') \<Longrightarrow> \<exists>new. events s' = events s @ new \<and> steps_of new = []"
  unfolding cell_install_def by (drule singleD [OF single_call]) simp

lemma cell_credentials_steps:
  assumes "cell_credentials env s = (Inr y, s')"
  shows "\<exists>new n. events s' = events s @ new \<and> steps_of new = replicate (Suc n) StepCredentials"
proof (rule cell_steps [OF emits_cell_credentials assms])
  fix new assume "events s' = events s @ new"
  have "\<exists>x. (SessionNew None, x) \<in> set new"
    by (rule first_event [OF single_call _ assms [unfolded cell_credentials_def] \<open>events s' = events s @ new\<close>])
       (intro emits_intros TrueI)
  then show "\<exists>c x. (c, x) \<in> set new \<and> step_of c = Some StepCredentials" by auto
qed

lemma cell_single_steps:
  assumes "single m c" and "step_of c = Some st" and "m s = (Inr y, s')"
  shows "\<exists>new n. events s' = events s @ new \<and> steps_of new = replicate (Suc n) st"
  using singleD [OF assms(1,3)] assms(2) by (intro exI [of _ "[(c, None)]"] exI [of _ 0]) simp

lemma cell_download_steps:
  assumes "cell_download env s = (Inr y, s')"
  shows "\<exists>new n. events s' = events s @ new \<and> steps_of new = replicate (Suc n) StepDownload"
proof (rule cell_steps [OF emits_cell_download assms])
  fix new assume "events s' = events s @ new"
  have "\<exists>x. (PathMkdir model_tar_dir, x) \<in> set new"
    by (rule first_event [OF single_path_mkdir _ assms [unfolded cell_download_def] \<open>events s' = events s @ new\<close>])
       (intro emits_intros TrueI)
  then show "\<exists>c x. (c, x) \<in> set new \<and> step_of c = Some StepDownload" by auto
qed

lemma cell_compress_steps:
  assumes "cell_compress s = (Inr y, s')"
  shows "\<exists>new n. events s' = events s @ new \<and> steps_of new = replicate (Suc n) StepCompress"
proof (rule cell_steps [OF emits_compress assms [unfolded cell_compress_def]])
  fix new assume "events s' = events s @ new"
  have "\<exists>x. (OsGetcwd, x) \<in> set new"
    by (rule first_event [OF single_os_getcwd _ assms [unfolded cell_compress_def compress_def] \<open>events s' = events s @ new\<close>])
       (simp add: with_tarfile_def, intro emits_intros TrueI)
  then show "\<exists>c x. (c, x) \<in> set new \<and> step_of c = Some StepCompress" by auto
qed

lemma cell_upload_steps:
  assumes "cell_upload env sess s = (Inr y, s')"
  shows "\<exists>new n. events s' = events s @ new \<and> steps_of new = replicate (Suc n) StepUpload"
proof (rule cell_steps [OF emits_cell_upload assms])
  fix new assume new: "events s' = events s @ new"
  from assms obtain b s1 where 1: "call (DefaultBucket sess) (default_bucket env sess) s = (Inr b, s1)"
    and 2: "bind (\<lambda>s. call (S3Upload (RelPath [''model.tar.gz'']) (''s3://'' @ b @ ''/flan-t5-xxl''))
                 (S3Uploader_upload env (RelPath [''model.tar.gz''])
                    (''s3://'' @ b @ ''/flan-t5-xxl'') (root s) (cwd s)) s) (\<lambda>s3_model_uri.
             bind (print (''model uploaded to: '' @ s3_model_uri)) (\<lambda>_. ret s3_model_uri)) s1 = (Inr y, s')"
    unfolding cell_upload_def by (auto simp: bind_def split: prod.splits sum.splits)
  have "emits (bind (\<lambda>s. call (S3Upload (RelPath [''model.tar.gz'']) (''s3://'' @ b @ ''/flan-t5-xxl''))
                 (S3Uploader_upload env (RelPath [''model.tar.gz''])
                    (''s3://'' @ b @ ''/flan-t5-xxl'') (root s) (cwd s)) s) (\<lambda>s3_model_uri.
             bind (print (''model uploaded to: '' @ s3_model_uri)) (\<lambda>_. ret s3_model_uri)))
          (propagates (\<lambda>c. True))"
    by (intro emits_intros TrueI)
  from emitsD [OF this 2] obtain rest where r1: "events s' = events s1 @ rest" by blast
  with singleD [OF single_call 1] new have rest: "new = (DefaultBucket sess, None) # rest"
    by simp
  have "\<exists>x. (S3Upload (RelPath [''model.tar.gz'']) (''s3://'' @ b @ ''/flan-t5-xxl''), x) \<in> set rest"
    by (rule first_event [OF single_call_state _ 2 r1]) (intro emits_intros TrueI)
  with rest show "\<exists>c x. (c, x) \<in> set new \<and> step_of c = Some StepUpload" by auto
qed

lemma cell_deploy_steps:
  assumes "cell_deploy env uri role s = (Inr y, s')"
  shows "\<exists>new n. events s' = events s @ new \<and> steps_of new = replicate (Suc n) StepDeploy"
proof (rule cell_steps [OF emits_cell_deploy assms])
  fix new assume "events s' = events s @ new"
  have "\<exists>x. (HuggingFaceModelNew uri role ''4.17'' ''1.10'' ''py38'', x) \<in> set new"
    by (rule first_event [OF single_call _ assms [unfolded cell_deploy_def] \<open>events s' = events s @ new\<close>])
       (intro emits_intros TrueI)
  then show "\<exists>c x. (c, x) \<in> set new \<and> step_of c = Some StepDeploy" by auto
qed

lemma cell_delete_steps:
  assumes "cell_delete env predictor s = (Inr y, s')"
  shows "\<exists>new n. events s' = events s @ new \<and> steps_of new = replicate (Suc n) StepDelete"
proof (rule cell_steps [OF emits_cell_delete assms])
  fix new assume "events s' = events s @ new"
  have "\<exists>x. (DeleteModel predictor, x) \<in> set new"
    by (rule first_event [OF single_call _ assms [unfolded cell_delete_def] \<open>events s' = events s @ new\<close>])
       (intro emits_intros TrueI)
  then show "\<exists>c x. (c, x) \<in> set new \<and> step_of c = Some StepDelete" by auto
qed

subsection \<open>The operations of a complete run\<close>

lemma call_InrD: "call c f s = (Inr x, s') \<Longrightarrow> events s' = events s @ [(c, None)]"
  by (rule singleD [OF single_call])

lemma call_events: "call c f s = (r, s') \<Longrightarrow> events s' = events s @ [(c, outcome r)]"
  using emitsD [OF single_call [unfolded single_def], of c f s r s'] by simp

lemma print_events: "print text s = (Inr u, s') \<Longrightarrow> events s' = events s"
  by (auto simp: print_def)

lemma try_except_InrD:
  "try_except m c h s = (Inr x, s') \<Longrightarrow>
     m s = (Inr x, s') \<or> (\<exists>e s1. m s = (Inl e, s1) \<and> isinstance e c \<and> h s1 = (Inr x, s'))"
  by (auto simp: try_except_def split: prod.splits sum.splits if_splits)

lemma cell_install_events:
  "cell_install env s = (Inr u, s') \<Longrightarrow>
     events s' = events s @
       [(PipInstall [''sagemaker==2.116.0'', ''huggingface_hub==0.12.0'', ''--upgrade'', ''--quiet''], None)]"
  unfolding cell_install_def by (rule call_InrD)

lemma role_events:
  assumes "try_except (call GetExecutionRole g) ''ValueError''
             (bind (call (Boto3Client ''iam'') b)
                (\<lambda>iam. call (IamGetRole iam ''sagemaker_execution_role'') (a iam))) s = (Inr role, s')"
  shows "\<exists>rr fb. events s' = events s @ (GetExecutionRole, rr) # fb \<and>
     (rr = None \<and> fb = [] \<or>
      (\<exists>e iam. rr = Some e \<and> isinstance e ''ValueError'' \<and>
         fb = [(Boto3Client ''iam'', None), (IamGetRole iam ''sagemaker_execution_role'', None)]))"
  using try_except_InrD [OF assms]
proof (elim disjE exE conjE)
  assume "call GetExecutionRole g s = (Inr role, s')"
  from call_InrD [OF this] show ?thesis by simp
next
  fix e s1
  assume m: "call GetExecutionRole g s = (Inl e, s1)" and e: "isinstance e ''ValueError''"
    and h: "bind (call (Boto3Client ''iam'') b)
                (\<lambda>iam. call (IamGetRole iam ''sagemaker_execution_role'') (a iam)) s1 = (Inr role, s')"
  from h obtain iam s2 where c: "call (Boto3Client ''iam'') b s1 = (Inr iam, s2)"
    and r: "call (IamGetRole iam ''sagemaker_execution_role'') (a iam) s2 = (Inr role, s')"
    by (blast dest: bind_eq_InrD)
  from call_events [OF m] call_InrD [OF c] call_InrD [OF r] e show ?thesis
    by (simp add: outcome_def)
qed

lemma cell_credentials_events:
  assumes "cell_credentials env s = (Inr (role, sess), s')"
  shows "\<exists>sess0 bucket0 rr fb.
     events s' = events s @
       [(SessionNew None, None), (DefaultBucket sess0, None), (GetExecutionRole, rr)] @ fb @
       [(SessionNew (Some bucket0), None), (DefaultBucket sess, None)] \<and>
     (rr = None \<and> fb = [] \<or>
      (\<exists>e iam. rr = Some e \<and> isinstance e ''ValueError'' \<and>
         fb = [(Boto3Client ''iam'', None), (IamGetRole iam ''sagemaker_execution_role'', None)]))"
proof -
  from assms obtain sess0 s1 bucket0 s2 s3 s4 s5 bucket s6 s7 where
    1: "call (SessionNew None) (Session env None) s = (Inr sess0, s1)"
    and 2: "call (DefaultBucket sess0) (default_bucket env sess0) s1 = (Inr bucket0, s2)"
    and 3: "try_except (call GetExecutionRole (get_execution_role env)) ''ValueError''
             (bind (call (Boto3Client ''iam'') (boto3_client env ''iam'')) (\<lambda>iam.
              call (IamGetRole iam ''sagemaker_execution_role'')
                (get_role_arn env iam ''sagemaker_execution_role''))) s2 = (Inr role, s3)"
    and 4: "call (SessionNew (Some bucket0)) (Session env (Some bucket0)) s3 = (Inr sess, s4)"
    and 5: "print (''sagemaker role arn: '' @ role) s4 = (Inr (), s5)"
    and 6: "call (DefaultBucket sess) (default_bucket env sess) s5 = (Inr bucket, s6)"
    and 7: "print (''sagemaker bucket: '' @ bucket) s6 = (Inr (), s7)"
    and 8: "print (''sagemaker session region: '' @ boto_region_name env sess (world s7)) s7 = (Inr (), s')"
    unfolding cell_credentials_def by (auto simp: ret_def dest!: bind_eq_InrD)
  from role_events [OF 3] obtain rr fb where
    r: "events s3 = events s2 @ (GetExecutionRole, rr) # fb"
    and f: "rr = None \<and> fb = [] \<or>
      (\<exists>e iam. rr = Some e \<and> isinstance e ''ValueError'' \<and>
         fb = [(Boto3Client ''iam'', None), (IamGetRole iam ''sagemaker_execution_role'', None)])"
    by blast
  from call_InrD [OF 1] call_InrD [OF 2] r call_InrD [OF 4] print_events [OF 5] call_InrD [OF 6]
    print_events [OF 7] print_events [OF 8]
  have "events s' = events s @
       [(SessionNew None, None), (DefaultBucket sess0, None), (GetExecutionRole, rr)] @ fb @
       [(SessionNew (Some bucket0), None), (DefaultBucket sess, None)]"
    by simp
  with f show ?thesis by blast
qed

lemma cell_download_events:
  assumes "cell_download env s = (Inr u, s')"
  shows "\<exists>tmpdir snapshot_dir.
     events s' = events s @
       [(PathMkdir model_tar_dir, None), (TemporaryDirectoryNew, None),
        (SnapshotDownload HF_MODEL_ID tmpdir, None), (CopyTree snapshot_dir model_tar_dir, None),
        (TemporaryDirectoryCleanup tmpdir, None)]"
proof -
  from assms obtain s1 tmpdir s2 snapshot_dir s4 s3 where
    1: "path_mkdir model_tar_dir s = (Inr (), s1)"
    and 2: "call TemporaryDirectoryNew (TemporaryDirectory env) s1 = (Inr tmpdir, s2)"
    and 5: "call (SnapshotDownload HF_MODEL_ID tmpdir) (snapshot_download env HF_MODEL_ID tmpdir) s2
          = (Inr snapshot_dir, s4)"
    and 6: "copy_tree_call env snapshot_dir model_tar_dir s4 = (Inr u, s3)"
    and 4: "events s' = events s3 @ [(TemporaryDirectoryCleanup tmpdir, None)]"
    unfolding cell_download_def with_TemporaryDirectory_def
    by (auto dest!: bind_eq_InrD split: prod.splits)
  from singleD [OF single_path_mkdir 1] call_InrD [OF 2] call_InrD [OF 5]
    singleD [OF single_copy_tree_call 6] 4
  show ?thesis by simp
qed

lemma add_loop_events:
  "for_each items (\<lambda>item. bind (print item) (\<lambda>_. tar_add tar (RelPath [item]) item)) s
     = (Inr u, s') \<Longrightarrow>
   events s' = events s @ map (\<lambda>item. (TarAdd (RelPath [item]) item, None)) items"
proof (induction items arbitrary: s)
  case Nil
  then show ?case by (simp add: ret_def)
next
  case (Cons item items)
  from Cons.prems obtain s0 s1 where
    p: "print item s = (Inr (), s0)" and a: "tar_add tar (RelPath [item]) item s0 = (Inr (), s1)"
    and rest: "for_each items (\<lambda>item. bind (print item) (\<lambda>_. tar_add tar (RelPath [item]) item)) s1
                 = (Inr u, s')"
    by (auto dest!: bind_eq_InrD)
  from print_events [OF p] singleD [OF single_tar_add a] Cons.IH [OF rest] show ?case by simp
qed

lemma compress_events:
  assumes "compress (Some tar_dir) output_file s = (Inr u, s')"
  shows "\<exists>parent_dir items.
     events s' = events s @
       [(OsGetcwd, None), (OsChdir tar_dir, None),
        (TarfileOpen (path_join parent_dir output_file) ''w:gz'', None),
        (OsListdir (RelPath [''.'']), None)] @
       map (\<lambda>item. (TarAdd (RelPath [item]) item, None)) items @
       [(TarClose, None), (OsChdir parent_dir, None)]"
proof -
  from assms obtain parent_dir s1 s2 s7 where
    g: "os_getcwd s = (Inr parent_dir, s1)"
    and c: "os_chdir tar_dir s1 = (Inr (), s2)"
    and w: "with_tarfile (path_join parent_dir output_file)
              (\<lambda>tar. bind (os_listdir (RelPath [''.''])) (\<lambda>items.
                 for_each items (\<lambda>item. bind (print item) (\<lambda>_. tar_add tar (RelPath [item]) item))))
              s2 = (Inr (), s7)"
    and b: "os_chdir parent_dir s7 = (Inr u, s')"
    unfolding compress_def by (auto dest!: bind_eq_InrD)
  from w obtain tar s3 items s4 s5 where
    o: "tarfile_open (path_join parent_dir output_file) s2 = (Inr tar, s3)"
    and l: "os_listdir (RelPath [''.'']) s3 = (Inr items, s4)"
    and f: "for_each items (\<lambda>item. bind (print item) (\<lambda>_. tar_add tar (RelPath [item]) item)) s4
              = (Inr (), s5)"
    and cl: "tar_close tar s5 = (Inr (), s7)"
    unfolding with_tarfile_def by (auto simp: ret_def dest!: bind_eq_InrD)
  from singleD [OF single_os_getcwd g] singleD [OF single_os_chdir c]
    singleD [OF single_tarfile_open o] singleD [OF single_os_listdir l] add_loop_events [OF f]
    singleD [OF single_tar_close cl] singleD [OF single_os_chdir b]
  show ?thesis by (intro exI [of _ parent_dir] exI [of _ items]) simp
qed

lemma cell_upload_events:
  assumes "cell_upload env sess s = (Inr uri, s')"
  shows "\<exists>bucket.
     events s' = events s @
       [(DefaultBucket sess, None),
        (S3Upload (RelPath [''model.tar.gz'']) (''s3://'' @ bucket @ ''/flan-t5-xxl''), None)]"
proof -
  from assms obtain bucket s1 s2 where
    1: "call (DefaultBucket sess) (default_bucket env sess) s = (Inr bucket, s1)"
    and 2: "call (S3Upload (RelPath [''model.tar.gz'']) (''s3://'' @ bucket @ ''/flan-t5-xxl''))
                 (S3Uploader_upload env (RelPath [''model.tar.gz''])
                    (''s3://'' @ bucket @ ''/flan-t5-xxl'') (root s1) (cwd s1)) s1 = (Inr uri, s2)"
    and 3: "print (''model uploaded to: '' @ uri) s2 = (Inr (), s')"
    unfolding cell_upload_def by (auto simp: ret_def dest!: bind_eq_InrD)
  from call_InrD [OF 1] call_InrD [OF 2] print_events [OF 3] show ?thesis by simp
qed

lemma cell_deploy_events:
  assumes "cell_deploy env uri role s = (Inr predictor, s')"
  shows "\<exists>huggingface_model.
     events s' = events s @
       [(HuggingFaceModelNew uri role ''4.17'' ''1.10'' ''py38'', None),
        (Deploy huggingface_model 1 ''ml.g5.xlarge'', None)]"
proof -
  from assms obtain huggingface_model s1 where
    1: "call (HuggingFaceModelNew uri role ''4.17'' ''1.10'' ''py38'')
             (HuggingFaceModel env uri role ''4.17'' ''1.10'' ''py38'') s = (Inr huggingface_model, s1)"
    and 2: "call (Deploy huggingface_model 1 ''ml.g5.xlarge'')
              (deploy env huggingface_model 1 ''ml.g5.xlarge'') s1 = (Inr predictor, s')"
    unfolding cell_deploy_def by (blast dest: bind_eq_InrD)
  from call_InrD [OF 1] call_InrD [OF 2] show ?thesis by simp
qed

lemma cell_delete_events:
  assumes "cell_delete env predictor s = (Inr u, s')"
  shows "events s' = events s @ [(DeleteModel predictor, None), (DeleteEndpoint predictor, None)]"
proof -
  from assms obtain s1 where
    1: "call (DeleteModel predictor) (delete_model env predictor) s = (Inr (), s1)"
    and 2: "call (DeleteEndpoint predictor) (delete_endpoint env predictor) s1 = (Inr u, s')"
    unfolding cell_delete_def by (auto dest!: bind_eq_InrD)
  from call_InrD [OF 1] call_InrD [OF 2] show ?thesis by simp
qed

lemma remdups_adj_replicate_Cons: "remdups_adj (a # replicate n a @ ys) = remdups_adj (a # ys)"
  by (induction n) simp_all

lemma remdups_adj_blocks_Cons: "remdups_adj (a # blocks bs) = remdups_adj (a # map snd bs)"
proof (induction bs arbitrary: a)
  case Nil
  show ?case by (simp add: blocks_def)
next
  case (Cons b bs)
  have "blocks (b # bs) = snd b # replicate (fst b) (snd b) @ blocks bs"
    by (simp add: blocks_def)
  then have "remdups_adj (a # blocks (b # bs)) = remdups_adj (a # snd b # blocks bs)"
    using remdups_adj_replicate_Cons [of "snd b" "fst b" "blocks bs"] by simp
  with Cons [of "snd b"] show ?case by simp
qed

lemma remdups_adj_blocks: "remdups_adj (blocks bs) = remdups_adj (map snd bs)"
proof (cases bs)
  case Nil
  then show ?thesis by (simp add: blocks_def)
next
  case (Cons b bs')
  have "blocks (b # bs') = snd b # replicate (fst b) (snd b) @ blocks bs'"
    by (simp add: blocks_def)
  with remdups_adj_replicate_Cons [of "snd b" "fst b" "blocks bs'"]
    remdups_adj_blocks_Cons [of "snd b" bs'] Cons
  show ?thesis by simp
qed

lemma blocks_Cons: "replicate (Suc n) st @ blocks bs = blocks ((n, st) # bs)"
  by (simp add: blocks_def)

lemma blocks_last: "replicate (Suc n) st = blocks [(n, st)]"
  by (simp add: blocks_def)

lemma notebook_step_classes:
  assumes "notebook env s = (Inr u, s')"
  shows "\<exists>new. events s' = events s @ new \<and>
     remdups_adj (steps_of new) =
       [StepCredentials, StepWriteFiles, StepDownload, StepCopyHandler, StepCompress,
        StepUpload, StepDeploy, StepPredict, StepDelete]"
proof -
  from assms obtain s1 role sess s2 s3 s4 s5 s6 s7 s8 uri s9 predictor s10 j1 s11 j2 s12 where
    c1: "cell_install env s = (Inr (), s1)"
    and c2: "cell_credentials env s1 = (Inr (role, sess), s2)"
    and c3: "cell_mkdir_code s2 = (Inr (), s3)"
    and c4: "cell_requirements s3 = (Inr (), s4)"
    and c5: "cell_inference s4 = (Inr (), s5)"
    and c6: "cell_download env s5 = (Inr (), s6)"
    and c7: "cell_copy_code env s6 = (Inr (), s7)"
    and c8: "cell_compress s7 = (Inr (), s8)"
    and c9: "cell_upload env sess s8 = (Inr uri, s9)"
    and c10: "cell_deploy env uri role s9 = (Inr predictor, s10)"
    and c11: "cell_predict env predictor payload_summarize s10 = (Inr j1, s11)"
    and c12: "cell_predict env predictor payload_question s11 = (Inr j2, s12)"
    and c13: "cell_delete env predictor s12 = (Inr u, s')"
    unfolding notebook_def by (auto dest!: bind_eq_InrD)
  from cell_install_steps [OF c1] obtain n1 where
    e1: "events s1 = events s @ n1" "steps_of n1 = []" by blast
  from cell_credentials_steps [OF c2] obtain n2 k2 where
    e2: "events s2 = events s1 @ n2" "steps_of n2 = replicate (Suc k2) StepCredentials" by blast
  from cell_single_steps [OF single_shell_mkdir _ c3 [unfolded cell_mkdir_code_def]] obtain n3 k3 where
    e3: "events s3 = events s2 @ n3" "steps_of n3 = replicate (Suc k3) StepWriteFiles" by auto
  from cell_single_steps [OF single_write_file _ c4 [unfolded cell_requirements_def]] obtain n4 k4 where
    e4: "events s4 = events s3 @ n4" "steps_of n4 = replicate (Suc k4) StepWriteFiles" by auto
  from cell_single_steps [OF single_write_file _ c5 [unfolded cell_inference_def]] obtain n5 k5 where
    e5: "events s5 = events s4 @ n5" "steps_of n5 = replicate (Suc k5) StepWriteFiles" by auto
  from cell_download_steps [OF c6] obtain n6 k6 where
    e6: "events s6 = events s5 @ n6" "steps_of n6 = replicate (Suc k6) StepDownload" by blast
  from cell_single_steps [OF single_copy_tree_call _ c7 [unfolded cell_copy_code_def]] obtain n7 k7 where
    e7: "events s7 = events s6 @ n7" "steps_of n7 = replicate (Suc k7) StepCopyHandler"
    by (auto simp: model_tar_dir_eq)
  from cell_compress_steps [OF c8] obtain n8 k8 where
    e8: "events s8 = events s7 @ n8" "steps_of n8 = replicate (Suc k8) StepCompress" by blast
  from cell_upload_steps [OF c9] obtain n9 k9 where
    e9: "events s9 = events s8 @ n9" "steps_of n9 = replicate (Suc k9) StepUpload" by blast
  from cell_deploy_steps [OF c10] obtain n10 k10 where
    e10: "events s10 = events s9 @ n10" "steps_of n10 = replicate (Suc k10) StepDeploy" by blast
  from cell_single_steps [OF single_call _ c11 [unfolded cell_predict_def]] obtain n11 k11 where
    e11: "events s11 = events s10 @ n11" "steps_of n11 = replicate (Suc k11) StepPredict" by auto
  from cell_single_steps [OF single_call _ c12 [unfolded cell_predict_def]] obtain n12 k12 where
    e12: "events s12 = events s11 @ n12" "steps_of n12 = replicate (Suc k12) StepPredict" by auto
  from cell_delete_steps [OF c13] obtain n13 k13 where
    e13: "events s' = events s12 @ n13" "steps_of n13 = replicate (Suc k13) StepDelete" by blast
  let ?new = "n1 @ n2 @ n3 @ n4 @ n5 @ n6 @ n7 @ n8 @ n9 @ n10 @ n11 @ n12 @ n13"
  have ev: "events s' = events s @ ?new"
    by (simp add: e1(1) e2(1) e3(1) e4(1) e5(1) e6(1) e7(1) e8(1) e9(1) e10(1) e11(1) e12(1) e13(1))
  have "steps_of ?new =
      blocks [(k2, StepCredentials), (k3, StepWriteFiles), (k4, StepWriteFiles), (k5, StepWriteFiles),
        (k6, StepDownload), (k7, StepCopyHandler), (k8, StepCompress), (k9, StepUpload),
        (k10, StepDeploy), (k11, StepPredict), (k12, StepPredict), (k13, StepDelete)]"
    unfolding steps_of_append e1(2) e2(2) e3(2) e4(2) e5(2) e6(2) e7(2) e8(2) e9(2) e10(2) e11(2)
      e12(2) e13(2) blocks_def
    by simp
  then have "remdups_adj (steps_of ?new) =
       [StepCredentials, StepWriteFiles, StepDownload, StepCopyHandler, StepCompress,
        StepUpload, StepDeploy, StepPredict, StepDelete]"
    by (simp only: remdups_adj_blocks) simp
  with ev show ?thesis by blast
qed

subsection \<open>The dependency manifest\<close>

lemma lookup_put_child:
  "lookup r p = Some (Dir es) \<Longrightarrow> \<exists>r'. put r (p @ [x]) new = Some r'"
proof (induction p arbitrary: r es)
  case Nil
  then show ?case by simp
next
  case (Cons a p)
  from Cons.prems obtain ds n where r: "r = Dir ds" and n: "map_of ds a = Some n"
    "lookup n p = Some (Dir es)"
    by (cases r) (auto split: option.splits)
  from Cons.IH [OF n(2)] obtain n' where "put n (p @ [x]) new = Some n'" by blast
  moreover obtain y ys where "p @ [x] = y # ys" by (cases p) auto
  ultimately show ?case using r n(1) by simp
qed

lemma resolve_two:
  "resolve s (RelPath [a, b]) = Inr t \<Longrightarrow> proper_name a \<Longrightarrow> proper_name b \<Longrightarrow>
     t = cwd s @ [a, b] \<and> (\<exists>es. lookup (root s) (cwd s @ [a]) = Some (Dir es))"
  by (auto simp: resolve_def resolve_in_def proper_name_def split: option.splits fnode.splits)

lemma resolve_two_ok:
  "lookup (root s) (cwd s @ [a]) = Some (Dir es) \<Longrightarrow> proper_name a \<Longrightarrow> proper_name b \<Longrightarrow>
     resolve s (RelPath [a, b]) = Inr (cwd s @ [a, b])"
  using lookup_below [of "root s" "cwd s" "[a]" "Dir es"]
  by (auto simp: resolve_def resolve_in_def proper_name_def)

lemma write_file_InrD:
  assumes "write_file p text s = (Inr u, s')"
  shows "\<exists>t rd. resolve s p = Inr t \<and> (\<forall>ds. lookup (root s) t \<noteq> Some (Dir ds)) \<and>
     lookup (root s) t \<noteq> Some Socket \<and> lookup (root s') t = Some (File rd (Text text))"
proof -
  from assms obtain s0 where
    r: "(let old = (case resolve s p of Inl e \<Rightarrow> None | Inr t \<Rightarrow> lookup (root s) t);
            s1 = s\<lparr>stdout := stdout s @
                   [(if old = None then ''Writing '' else ''Overwriting '') @ path_str p]\<rparr>
        in case resolve s p of
             Inl e \<Rightarrow> (Inl e, s1)
           | Inr t \<Rightarrow>
               (case old of
                  Some (Dir _) \<Rightarrow> (Inl IsADirectoryError, s1)
                | Some Socket \<Rightarrow> (Inl OSError, s1)
                | _ \<Rightarrow>
                    (case put (root s) t
                            (File (case old of Some (File r _) \<Rightarrow> r | _ \<Rightarrow> True) (Text text)) of
                       None \<Rightarrow> (Inl FileNotFoundError, s1)
                     | Some r' \<Rightarrow> (Inr (), s1\<lparr>root := r'\<rparr>)))) = (Inr u, s0)"
    and s': "s' = s0\<lparr>events := events s0 @ [(WriteFile p, None)]\<rparr>"
    unfolding write_file_def by (blast dest!: log_op_eq_InrD)
  from r obtain t where t: "resolve s p = Inr t"
    by (auto simp: Let_def split: sum.splits)
  from r t have nd: "\<forall>ds. lookup (root s) t \<noteq> Some (Dir ds)" "lookup (root s) t \<noteq> Some Socket"
    by (auto simp: Let_def split: option.splits fnode.splits)
  let ?rd = "case lookup (root s) t of Some (File r _) \<Rightarrow> r | _ \<Rightarrow> True"
  from r t obtain r' where "put (root s) t (File ?rd (Text text)) = Some r'" and "root s0 = r'"
    by (auto simp: Let_def split: option.splits fnode.splits)
  with put_lookup_same [of "root s" t "File ?rd (Text text)" r'] s' t nd show ?thesis by auto
qed

lemma write_file_returns:
  assumes "resolve s p = Inr t" and "\<forall>ds. lookup (root s) t \<noteq> Some (Dir ds)"
    and "lookup (root s) t \<noteq> Some Socket" and "put (root s) t new \<noteq> None"
    and "new = File (case lookup (root s) t of Some (File r _) \<Rightarrow> r | _ \<Rightarrow> True) (Text text)"
  shows "fst (write_file p text s) = Inr ()"
  using assms
  by (auto simp: write_file_def log_op_def Let_def split: option.splits fnode.splits)

subsection \<open>Concrete runs\<close>

lemmas run_defs =
  compress_def with_tarfile_def bind_def ret_def lift_def log_op_def outcome_def
  os_getcwd_def os_chdir_def os_listdir_def tarfile_open_def tar_add_def tar_close_def print_def
  write_members_def resolve_def resolve_in_def

lemma compress_packed_run:
  "\<exists>s'. compress (Some model_tar_dir) (RelPath [''model.tar.gz'']) packed_kernel = (Inr (), s') \<and>
     cwd s' = [''home'', ''notebook''] \<and>
     stdout s' = [''config.json'', ''pytorch_model-00001-of-00012.bin'', ''code''] \<and>
     archive_members (root s') [''home'', ''notebook'', ''model.tar.gz''] =
       [TarFile ''config.json'' (Text [''{}'']),
        TarFile ''pytorch_model-00001-of-00012.bin'' (Binary ''weights''),
        TarDir ''code'',
        TarFile ''code/inference.py'' (Text [''def model_fn(model_dir):'']),
        TarFile ''code/requirements.txt'' (Text requirements_txt)]"
  by (simp add: run_defs packed_kernel_def model_tar_dir_eq less_eq_list_code less_list_code
        archive_members_def)

lemma compress_unreadable_run:
  "\<exists>s'. compress (Some model_tar_dir) (RelPath [''model.tar.gz'']) unreadable_kernel
            = (Inl PermissionError, s') \<and>
     cwd s' = [''home'', ''notebook'', ''flan-t5-xxl-sharded-fp16'']"
  by (simp add: run_defs unreadable_kernel_def model_tar_dir_eq)

lemma compress_socket_run:
  "\<exists>s'. compress (Some model_tar_dir) (RelPath [''model.tar.gz'']) socket_kernel = (Inr (), s') \<and>
     stdout s' = [''config.json'', ''kernel.sock''] \<and>
     archive_members (root s') [''home'', ''notebook'', ''model.tar.gz''] =
       [TarFile ''config.json'' (Text [''{}''])]"
  by (simp add: run_defs socket_kernel_def model_tar_dir_eq archive_members_def)

lemmas notebook_defs =
  notebook_def cell_install_def cell_credentials_def cell_mkdir_code_def cell_requirements_def
  cell_inference_def cell_download_def cell_copy_code_def cell_compress_def cell_upload_def
  cell_deploy_def cell_predict_def cell_delete_def call_def copy_tree_call_def
  with_TemporaryDirectory_def shell_mkdir_def write_file_def path_mkdir_def try_except_def
  standin_env_def standin_copy_tree_def snapshot_files_def fresh_kernel_def isinstance_def
  ValueError_def path_str_def join_slash_def slashes_def

lemma notebook_fallback_run:
  "\<exists>s'. notebook (standin_env (Inl ValueError)) fresh_kernel = (Inr (), s') \<and>
     events s' =
       [(PipInstall [''sagemaker==2.116.0'', ''huggingface_hub==0.12.0'', ''--upgrade'', ''--quiet''], None),
        (SessionNew None, None),
        (DefaultBucket 1, None),
        (GetExecutionRole, Some ValueError),
        (Boto3Client ''iam'', None),
        (IamGetRole 2 ''sagemaker_execution_role'', None),
        (SessionNew (Some ''sagemaker-us-east-1-123456789012''), None),
        (DefaultBucket 1, None),
        (ShellMkdir (RelPath [''code'']), None),
        (WriteFile (RelPath [''code'', ''requirements.txt'']), None),
        (WriteFile (RelPath [''code'', ''inference.py'']), None),
        (PathMkdir (RelPath [''flan-t5-xxl-sharded-fp16'']), None),
        (TemporaryDirectoryNew, None),
        (SnapshotDownload ''philschmid/flan-t5-xxl-sharded-fp16'' (AbsPath [''tmp'']), None),
        (CopyTree (AbsPath [''tmp'', ''snapshot'']) (RelPath [''flan-t5-xxl-sharded-fp16'']), None),
        (TemporaryDirectoryCleanup (AbsPath [''tmp'']), None),
        (CopyTree (RelPath [''code'', []]) (RelPath [''flan-t5-xxl-sharded-fp16'', ''code'']), None),
        (OsGetcwd, None),
        (OsChdir (RelPath [''flan-t5-xxl-sharded-fp16'']), None),
        (TarfileOpen (AbsPath [''home'', ''notebook'', ''model.tar.gz'']) ''w:gz'', None),
        (OsListdir (RelPath [''.'']), None),
        (TarAdd (RelPath [''config.json'']) ''config.json'', None),
        (TarAdd (RelPath [''pytorch_model-00001-of-00012.bin'']) ''pytorch_model-00001-of-00012.bin'', None),
        (TarAdd (RelPath [''tokenizer.json'']) ''tokenizer.json'', None),
        (TarAdd (RelPath [''code'']) ''code'', None),
        (TarClose, None),
        (OsChdir (AbsPath [''home'', ''notebook'']), None),
        (DefaultBucket 1, None),
        (S3Upload (RelPath [''model.tar.gz'']) ''s3://sagemaker-us-east-1-123456789012/flan-t5-xxl'', None),
        (HuggingFaceModelNew ''s3://sagemaker-us-east-1-123456789012/flan-t5-xxl/model.tar.gz''
           ''arn:aws:iam::123456789012:role/sagemaker_execution_role'' ''4.17'' ''1.10'' ''py38'', None),
        (Deploy 3 1 ''ml.g5.xlarge'', None),
        (Predict 4 payload_summarize, None),
        (Predict 4 payload_question, None),
        (DeleteModel 4, None),
        (DeleteEndpoint 4, None)] \<and>
     archive_members (root s') [''home'', ''notebook'', ''model.tar.gz''] =
       [TarFile ''config.json'' (Text [''{}'']),
        TarFile ''pytorch_model-00001-of-00012.bin'' (Binary ''weights''),
        TarFile ''tokenizer.json'' (Text [''{}'']),
        TarDir ''code'',
        TarFile ''code/inference.py'' (Text inference_py),
        TarFile ''code/requirements.txt'' (Text requirements_txt)]"
  by (simp add: notebook_defs run_defs model_tar_dir_eq less_eq_list_code less_list_code Let_def
        archive_members_def HF_MODEL_ID_def)

section \<open>Claims about \<^verbatim>\<open>compress\<close>\<close>

text \<open>
  Claim C1 as stated fails: the members of the archive are not all at its top level. In
  the model directory as the notebook leaves it, with the handler in the subdirectory
  \<^verbatim>\<open>code\<close>, \<^verbatim>\<open>compress\<close> completes and the archive holds the member
  \<^verbatim>\<open>code/inference.py\<close>, whose name has a folder in front of it.
\<close>

theorem compress_nested_members:
  "fst (compress (Some model_tar_dir) (RelPath [''model.tar.gz'']) packed_kernel) = Inr () \<and>
   \<not> members_at_top_level
       (archive_members
          (root (snd (compress (Some model_tar_dir) (RelPath [''model.tar.gz'']) packed_kernel)))
          [''home'', ''notebook'', ''model.tar.gz''])"
  using compress_packed_run by (auto simp: members_at_top_level_def)

text \<open>
  Claim C1, amended. Whenever \<^verbatim>\<open>compress\<close> completes on a directory of a well-formed
  tree, with the default output file or another plain name, the output is a complete
  gzip-compressed tar archive in the directory \<^verbatim>\<open>compress\<close> was called from. Every entry
  of the directory, but a socket and the archive's own file, is a member under the
  entry's own name. Every member stands for a readable file or a directory at or below
  such an entry, and its name is the path to it from the compressed directory, joined by
  slashes (\<^verbatim>\<open>code/inference.py\<close>); and every file and directory below the compressed
  directory, but the archive's own file, has a member of that name. The names start at
  the entries of the directory, not at the directory.
\<close>

theorem compress_archive_members:
  assumes run: "compress (Some tar_dir) (RelPath [out]) s = (Inr u, s')"
    and cwd: "list_all proper_name (cwd s)"
    and out: "proper_name out"
    and wf: "wf_names (root s)"
  shows "\<exists>dir es rd ms.
      resolve s tar_dir = Inr dir \<and> lookup (root s) dir = Some (Dir es) \<and>
      lookup (root s') (cwd s @ [out]) = Some (File rd (TarGz ms)) \<and>
      (\<forall>e \<in> set es. snd e \<noteq> Socket \<and> dir @ [fst e] \<noteq> cwd s @ [out] \<longrightarrow>
         (\<exists>m \<in> set ms. arcname m = fst e)) \<and>
      (\<forall>m \<in> set ms. \<exists>p. p \<noteq> [] \<and> arcname m = join_slash p \<and> dir @ p \<noteq> cwd s @ [out] \<and>
         member_of m (lookup (root s) (dir @ p))) \<and>
      (\<forall>p n. p \<noteq> [] \<and> lookup (root s) (dir @ p) = Some n \<and> n \<noteq> Socket \<and>
         dir @ p \<noteq> cwd s @ [out] \<longrightarrow> (\<exists>m \<in> set ms. arcname m = join_slash p))"
proof -
  let ?tar = "cwd s @ [out]"
  from run obtain parent_dir s1 s2 s7 where
    g: "os_getcwd s = (Inr parent_dir, s1)"
    and c: "os_chdir tar_dir s1 = (Inr (), s2)"
    and w: "with_tarfile (path_join parent_dir (RelPath [out]))
              (\<lambda>tar. bind (os_listdir (RelPath [''.''])) (\<lambda>items.
                 for_each items (\<lambda>item. bind (print item) (\<lambda>_. tar_add tar (RelPath [item]) item))))
              s2 = (Inr (), s7)"
    and b: "os_chdir parent_dir s7 = (Inr u, s')"
    unfolding compress_def by (auto dest!: bind_eq_InrD)
  from g have p: "parent_dir = AbsPath (cwd s)"
    and s1: "s1 = s\<lparr>events := events s @ [(OsGetcwd, None)]\<rparr>"
    by (simp_all add: os_getcwd_InrD)
  from c s1 obtain dir es where dir: "resolve s tar_dir = Inr dir" "lookup (root s) dir = Some (Dir es)"
    and s2: "root s2 = root s" "cwd s2 = dir"
    by (auto dest!: os_chdir_InrD)
  from w p obtain tar s3 items s4 s5 s6 where
    o: "tarfile_open (AbsPath ?tar) s2 = (Inr tar, s3)"
    and l: "os_listdir (RelPath [''.'']) s3 = (Inr items, s4)"
    and f: "for_each items (\<lambda>item. bind (print item) (\<lambda>_. tar_add tar (RelPath [item]) item)) s4
              = (Inr (), s5)"
    and cl: "tar_close tar s5 = (Inr (), s6)"
    and s7: "s7 = s6"
    unfolding with_tarfile_def by (auto simp: ret_def dest!: bind_eq_InrD)
  from tarfile_open_InrD [OF o] obtain rd r' where
    rt: "resolve s2 (AbsPath ?tar) = Inr tar"
    and nd2: "\<And>es. lookup (root s2) tar \<noteq> Some (Dir es)"
    and pt: "put (root s2) tar (File rd (Unfinished [])) = Some r'"
    and s3: "root s3 = r'" "cwd s3 = cwd s2"
    by auto
  from rt cwd out have tar: "tar = ?tar"
    by (auto simp: resolve_def resolve_in_def dest!: walk_proper)
  from cwd out tar have ptar: "list_all proper_name tar" by simp
  from nd2 s2(1) have nd: "\<And>es. lookup (root s) tar \<noteq> Some (Dir es)" by simp
  have fr: "map_option kind (lookup r' q) = map_option kind (lookup (root s) q)" if "q \<noteq> tar" for q
    using put_frame [OF pt nd2 that] s2(1) by simp
  from wf_names_put [OF pt _ _ ptar] wf s2(1) have wf': "wf_names r'" by simp
  from dir(2) nd have "dir \<noteq> tar" by auto
  from fr [OF this] dir(2)
  have "map_option kind (lookup r' dir) = map_option kind (Some (Dir es))" by simp
  from kind_Dir [OF this] obtain es1 where es1: "lookup r' dir = Some (Dir es1)" ..
  from os_listdir_InrD [OF l] resolve_dot [of s3 es1] es1 s3 s2(2)
  have items: "items = map fst es1" and s4: "root s4 = r'" "cwd s4 = dir"
    by auto
  from wf_names_lookup [OF wf' es1] items
  have pnames: "list_all proper_name items" by simp
  from put_lookup_same [OF pt] s4
  have a4: "lookup (root s4) tar = Some (File rd (Unfinished []))" by simp
  from add_loop [OF f a4 ptar _ pnames, of es1] es1 s4 wf'
  obtain ms where
    a5: "lookup (root s5) tar = Some (File rd (Unfinished ms))"
    and m1: "\<forall>m \<in> set ms. \<exists>item \<in> set items. \<exists>q.
              arcname m = join_slash (item # q) \<and> dir @ item # q \<noteq> tar \<and>
              member_of m (lookup r' (dir @ item # q))"
    and m2: "\<forall>item \<in> set items. \<forall>q n.
              lookup r' (dir @ item # q) = Some n \<longrightarrow> n \<noteq> Socket \<longrightarrow>
              (\<forall>k. dir @ item # take k q \<noteq> tar) \<longrightarrow>
              (\<exists>m \<in> set ms. arcname m = join_slash (item # q))"
    by auto
  from tar_close_InrD [OF cl a5] s7 have a7: "lookup (root s7) tar = Some (File rd (TarGz ms))"
    by simp
  from b have "root s' = root s7" by (auto dest!: os_chdir_InrD)
  with a7 tar have fin: "lookup (root s') ?tar = Some (File rd (TarGz ms))" by simp
  have A: "\<forall>m \<in> set ms. \<exists>p. p \<noteq> [] \<and> arcname m = join_slash p \<and> dir @ p \<noteq> ?tar \<and>
         member_of m (lookup (root s) (dir @ p))"
  proof
    fix m assume "m \<in> set ms"
    with m1 obtain item q where q: "arcname m = join_slash (item # q)" "dir @ item # q \<noteq> tar"
      "member_of m (lookup r' (dir @ item # q))" by blast
    from q(3) fr [OF q(2)] member_of_kind [of m "lookup r' (dir @ item # q)"]
      member_of_kind [of m "lookup (root s) (dir @ item # q)"]
    have "member_of m (lookup (root s) (dir @ item # q))" by simp
    with q tar have "item # q \<noteq> [] \<and> arcname m = join_slash (item # q) \<and>
        dir @ (item # q) \<noteq> ?tar \<and> member_of m (lookup (root s) (dir @ (item # q)))"
      by simp
    then show "\<exists>p. p \<noteq> [] \<and> arcname m = join_slash p \<and> dir @ p \<noteq> ?tar \<and>
         member_of m (lookup (root s) (dir @ p))" ..
  qed
  have B: "\<exists>m \<in> set ms. arcname m = join_slash p"
    if "p \<noteq> []" "lookup (root s) (dir @ p) = Some n" "n \<noteq> Socket" "dir @ p \<noteq> ?tar" for p n
  proof -
    from that(1) obtain item q where pq: "p = item # q" by (cases p) auto
    have k: "dir @ item # take k q \<noteq> tar" for k
    proof
      assume eq: "dir @ item # take k q = tar"
      show False
      proof (cases "take k q = q")
        case True
        with eq that(4) pq tar show False by simp
      next
        case False
        then have d: "drop k q \<noteq> []" by (metis append_Nil2 append_take_drop_id)
        have "dir @ p = tar @ drop k q"
          using eq [symmetric] pq by simp
        with that(2) have "lookup (root s) (tar @ drop k q) = Some n" by simp
        from lookup_below [OF this d] nd show False by auto
      qed
    qed
    from k [of "length q"] have ne: "dir @ item # q \<noteq> tar" by simp
    from fr [OF ne] that(2) pq
    have "map_option kind (lookup r' (dir @ item # q)) = map_option kind (Some n)" by simp
    from kind_not_Socket [OF this that(3)] obtain n1 where
      n1: "lookup r' (dir @ item # q) = Some n1" "n1 \<noteq> Socket" by blast
    from n1(1) es1 have "map_of es1 item \<noteq> None"
      by (auto simp: lookup_append split: option.splits)
    then have "item \<in> set items"
      unfolding items by (auto simp: map_of_eq_None_iff)
    with m2 n1 k pq show ?thesis by auto
  qed
  have C: "\<forall>e \<in> set es. snd e \<noteq> Socket \<and> dir @ [fst e] \<noteq> ?tar \<longrightarrow>
         (\<exists>m \<in> set ms. arcname m = fst e)"
  proof (intro ballI impI)
    fix e assume e: "e \<in> set es" and h: "snd e \<noteq> Socket \<and> dir @ [fst e] \<noteq> ?tar"
    from wf_names_lookup [OF wf dir(2)] e have "map_of es (fst e) = Some (snd e)"
      by (simp add: map_of_is_SomeI)
    with dir(2) have "lookup (root s) (dir @ [fst e]) = Some (snd e)"
      by (simp add: lookup_append)
    from B [OF _ this] h show "\<exists>m \<in> set ms. arcname m = fst e"
      by (simp add: join_slash_def)
  qed
  from dir fin A B C show ?thesis by blast
qed

theorem compress_archive_members_witness:
  "\<exists>dir es rd ms.
      resolve packed_kernel model_tar_dir = Inr dir \<and>
      lookup (root packed_kernel) dir = Some (Dir es) \<and>
      lookup (root (snd (compress (Some model_tar_dir) (RelPath [''model.tar.gz'']) packed_kernel)))
        [''home'', ''notebook'', ''model.tar.gz''] = Some (File rd (TarGz ms)) \<and>
      (\<forall>e \<in> set es. snd e \<noteq> Socket \<and> dir @ [fst e] \<noteq> [''home'', ''notebook'', ''model.tar.gz''] \<longrightarrow>
         (\<exists>m \<in> set ms. arcname m = fst e)) \<and>
      (\<forall>m \<in> set ms. \<exists>p. p \<noteq> [] \<and> arcname m = join_slash p \<and>
         dir @ p \<noteq> [''home'', ''notebook'', ''model.tar.gz''] \<and>
         member_of m (lookup (root packed_kernel) (dir @ p))) \<and>
      (\<forall>p n. p \<noteq> [] \<and> lookup (root packed_kernel) (dir @ p) = Some n \<and> n \<noteq> Socket \<and>
         dir @ p \<noteq> [''home'', ''notebook'', ''model.tar.gz''] \<longrightarrow>
         (\<exists>m \<in> set ms. arcname m = join_slash p))"
proof -
  from compress_packed_run obtain s' where
    run: "compress (Some model_tar_dir) (RelPath [''model.tar.gz'']) packed_kernel = (Inr (), s')"
    by blast
  have c: "cwd packed_kernel = [''home'', ''notebook'']"
    by (simp add: packed_kernel_def)
  have "list_all proper_name (cwd packed_kernel)" and "proper_name ''model.tar.gz''"
    and "wf_names (root packed_kernel)"
    by (simp_all add: packed_kernel_def proper_name_def)
  from compress_archive_members [OF run this] show ?thesis
    by (simp add: run c)
qed

text \<open>
  A socket in the directory is listed and printed, and left out of the archive.
\<close>

lemma compress_skips_socket:
  "fst (compress (Some model_tar_dir) (RelPath [''model.tar.gz'']) socket_kernel) = Inr () \<and>
   map arcname
     (archive_members
        (root (snd (compress (Some model_tar_dir) (RelPath [''model.tar.gz'']) socket_kernel)))
        [''home'', ''notebook'', ''model.tar.gz'']) = [''config.json'']"
  using compress_socket_run by auto

text \<open>
  Claim C10. Whenever \<^verbatim>\<open>compress\<close> completes without raising, the working directory of
  the process is afterwards what it was before the call.
\<close>

theorem compress_restores_cwd:
  assumes "compress tar_dir output_file s = (Inr u, s')"
    and "list_all proper_name (cwd s)"
  shows "cwd s' = cwd s"
proof -
  from assms(1) obtain parent_dir s1 s3 where
    g: "os_getcwd s = (Inr parent_dir, s1)" and c: "os_chdir parent_dir s3 = (Inr u, s')"
    unfolding compress_def by (blast dest!: bind_eq_InrD)
  from g have p: "parent_dir = AbsPath (cwd s)"
    by (simp add: os_getcwd_InrD)
  from c obtain t where "resolve s3 parent_dir = Inr t" and "cwd s' = t"
    by (auto dest!: os_chdir_InrD)
  with p assms(2) show ?thesis
    by (auto simp: resolve_def resolve_in_def dest: walk_proper)
qed

theorem compress_restores_cwd_witness:
  "fst (compress (Some model_tar_dir) (RelPath [''model.tar.gz'']) packed_kernel) = Inr () \<and>
   cwd (snd (compress (Some model_tar_dir) (RelPath [''model.tar.gz'']) packed_kernel)) =
     cwd packed_kernel"
proof -
  from compress_packed_run obtain s' where
    run: "compress (Some model_tar_dir) (RelPath [''model.tar.gz'']) packed_kernel = (Inr (), s')"
    by blast
  have "list_all proper_name (cwd packed_kernel)"
    by (simp add: packed_kernel_def proper_name_def)
  from compress_restores_cwd [OF run this] show ?thesis
    by (simp add: run)
qed

text \<open>
  When archiving raises, the working directory is not restored: with a file that cannot
  be read, \<^verbatim>\<open>compress\<close> ends in the directory it was to compress.
\<close>

lemma compress_failure_leaves_directory:
  "fst (compress (Some model_tar_dir) (RelPath [''model.tar.gz'']) unreadable_kernel) =
     Inl PermissionError \<and>
   cwd (snd (compress (Some model_tar_dir) (RelPath [''model.tar.gz'']) unreadable_kernel)) \<noteq>
     cwd unreadable_kernel"
  using compress_unreadable_run by (auto simp: unreadable_kernel_def)

section \<open>Claims about the notebook\<close>

text \<open>
  Claim C5. In a run of the notebook from the top, the fallback branch (asking boto3 for
  an IAM client, to look the role up by name) is taken exactly when the automatic role
  resolution raised a \<^verbatim>\<open>ValueError\<close>; a client that was made is asked for a role, and
  the only role ever asked for is \<^verbatim>\<open>sagemaker_execution_role\<close>; and every other exception
  that any operation raises is the exception the run ends with.
\<close>

theorem notebook_exceptions:
  assumes "notebook env s = (r, s')"
  shows "\<exists>new. events s' = events s @ new \<and>
     ((\<exists>x. (Boto3Client ''iam'', x) \<in> set new) \<longleftrightarrow>
      (\<exists>e. (GetExecutionRole, Some e) \<in> set new \<and> isinstance e ''ValueError'')) \<and>
     ((Boto3Client ''iam'', None) \<in> set new \<longrightarrow>
      (\<exists>iam x. (IamGetRole iam ''sagemaker_execution_role'', x) \<in> set new)) \<and>
     (\<forall>iam name x. (IamGetRole iam name, x) \<in> set new \<longrightarrow> name = ''sagemaker_execution_role'') \<and>
     (\<forall>c e. (c, Some e) \<in> set new \<longrightarrow>
        c = GetExecutionRole \<and> isinstance e ''ValueError'' \<or> r = Inl e)"
proof -
  from emitsD [OF emits_fallback_notebook assms] obtain n1 where
    n1: "events s' = events s @ n1" "fallback_iff n1" by blast
  from emitsD [OF emits_propagates_notebook assms] obtain n2 where
    n2: "events s' = events s @ n2" "propagates (\<lambda>c. True) n2 r" by blast
  from n1(1) n2(1) have eq: "n2 = n1" by simp
  from n1(2) have A: "(\<exists>x. (Boto3Client ''iam'', x) \<in> set n1) \<longleftrightarrow>
      (\<exists>e. (GetExecutionRole, Some e) \<in> set n1 \<and> isinstance e ''ValueError'')"
    unfolding fallback_iff_def fallback_taken_def resolution_raised_ValueError_def list_ex_iff
    by (auto split: option.splits) force+
  from n1(2) have named: "\<forall>ev \<in> set n1. \<forall>iam name. fst ev = IamGetRole iam name \<longrightarrow>
      name = ''sagemaker_execution_role''"
    unfolding fallback_iff_def role_lookup_def list_all_iff by auto
  have C: "\<forall>iam name x. (IamGetRole iam name, x) \<in> set n1 \<longrightarrow> name = ''sagemaker_execution_role''"
  proof (intro allI impI)
    fix iam name x assume "(IamGetRole iam name, x) \<in> set n1"
    with named show "name = ''sagemaker_execution_role''" by fastforce
  qed
  have D: "\<exists>iam x. (IamGetRole iam ''sagemaker_execution_role'', x) \<in> set n1"
    if "(Boto3Client ''iam'', None) \<in> set n1"
  proof -
    from n1(2) that obtain ev where ev: "ev \<in> set n1"
      "(case fst ev of IamGetRole iam name \<Rightarrow> True | _ \<Rightarrow> False)"
      unfolding fallback_iff_def role_lookup_def list_ex_iff by auto
    then obtain iam name where f: "fst ev = IamGetRole iam name"
      by (cases "fst ev") simp_all
    then have "ev = (IamGetRole iam name, snd ev)" by (cases ev) simp
    with ev(1) have "(IamGetRole iam name, snd ev) \<in> set n1" by simp
    moreover from this C have "name = ''sagemaker_execution_role''" by blast
    ultimately show ?thesis by blast
  qed
  from n2(2) eq have B: "\<forall>c e. (c, Some e) \<in> set n1 \<longrightarrow>
        c = GetExecutionRole \<and> isinstance e ''ValueError'' \<or> r = Inl e"
    by (force simp: propagates_def list_all_iff)
  from n1(1) A B C D show ?thesis by blast
qed

theorem notebook_exceptions_witness:
  "\<exists>new. events (snd (notebook (standin_env (Inl ValueError)) fresh_kernel)) =
       events fresh_kernel @ new \<and>
     (Boto3Client ''iam'', None) \<in> set new \<and>
     (GetExecutionRole, Some ValueError) \<in> set new \<and>
     isinstance ValueError ''ValueError'' \<and>
     ((\<exists>x. (Boto3Client ''iam'', x) \<in> set new) \<longleftrightarrow>
      (\<exists>e. (GetExecutionRole, Some e) \<in> set new \<and> isinstance e ''ValueError'')) \<and>
     ((Boto3Client ''iam'', None) \<in> set new \<longrightarrow>
      (\<exists>iam x. (IamGetRole iam ''sagemaker_execution_role'', x) \<in> set new)) \<and>
     (\<forall>iam name x. (IamGetRole iam name, x) \<in> set new \<longrightarrow> name = ''sagemaker_execution_role'') \<and>
     (\<forall>c e. (c, Some e) \<in> set new \<longrightarrow>
        c = GetExecutionRole \<and> isinstance e ''ValueError'' \<or>
        fst (notebook (standin_env (Inl ValueError)) fresh_kernel) = Inl e)"
proof -
  from notebook_fallback_run obtain s' where
    run: "notebook (standin_env (Inl ValueError)) fresh_kernel = (Inr (), s')"
    and ev: "(Boto3Client ''iam'', None) \<in> set (events s')"
      "(GetExecutionRole, Some ValueError) \<in> set (events s')"
    by auto
  have v: "isinstance ValueError ''ValueError''"
    by (simp add: isinstance_def ValueError_def)
  have e0: "events fresh_kernel = []"
    by (simp add: fresh_kernel_def)
  from notebook_exceptions [OF run] ev v show ?thesis
    by (simp add: run e0)
qed

text \<open>
  Claim C6. The cell \<^verbatim>\<open>%%writefile code/requirements.txt\<close> completes exactly when the
  directory \<^verbatim>\<open>code\<close> is there and \<^verbatim>\<open>requirements.txt\<close> in it is neither a directory
  nor a socket. The file then holds three lines, whatever was there before, the same in
  every run: the pins \<^verbatim>\<open>accelerate==0.16.0\<close>, \<^verbatim>\<open>transformers==4.26.0\<close> and
  \<^verbatim>\<open>bitsandbytes==0.37.0\<close>.
\<close>

theorem requirements_manifest:
  "(fst (cell_requirements s) = Inr () \<longleftrightarrow>
      (\<exists>es. lookup (root s) (cwd s @ [''code'']) = Some (Dir es) \<and>
         (\<forall>ds. map_of es ''requirements.txt'' \<noteq> Some (Dir ds)) \<and>
         map_of es ''requirements.txt'' \<noteq> Some Socket)) \<and>
   (fst (cell_requirements s) = Inr () \<longrightarrow>
      (\<exists>rd lines.
         lookup (root (snd (cell_requirements s))) (cwd s @ [''code'', ''requirements.txt'']) =
           Some (File rd (Text lines)) \<and>
         lines = [''accelerate==0.16.0'', ''transformers==4.26.0'', ''bitsandbytes==0.37.0''] \<and>
         map pin_of lines =
           [(''accelerate'', ''0.16.0''), (''transformers'', ''4.26.0''), (''bitsandbytes'', ''0.37.0'')]))"
proof -
  let ?p = "RelPath [''code'', ''requirements.txt'']"
  let ?t = "cwd s @ [''code'', ''requirements.txt'']"
  have pn: "proper_name ''code''" "proper_name ''requirements.txt''"
    by (simp_all add: proper_name_def)
  have sub: "lookup (root s) ?t = map_of es ''requirements.txt''"
    if "lookup (root s) (cwd s @ [''code'']) = Some (Dir es)" for es
    using lookup_append [of "root s" "cwd s @ [''code'']" "[''requirements.txt'']"] that
    by (simp split: option.splits)
  have content: "\<exists>es rd. lookup (root s) (cwd s @ [''code'']) = Some (Dir es) \<and>
         (\<forall>ds. map_of es ''requirements.txt'' \<noteq> Some (Dir ds)) \<and>
         map_of es ''requirements.txt'' \<noteq> Some Socket \<and>
         lookup (root (snd (cell_requirements s))) ?t = Some (File rd (Text requirements_txt))"
    if "fst (cell_requirements s) = Inr ()"
  proof -
    from that obtain s' where run: "write_file ?p requirements_txt s = (Inr (), s')"
      unfolding cell_requirements_def by (cases "write_file ?p requirements_txt s") simp
    from write_file_InrD [OF run] obtain t rd where t: "resolve s ?p = Inr t"
      and nd: "\<forall>ds. lookup (root s) t \<noteq> Some (Dir ds)" "lookup (root s) t \<noteq> Some Socket"
      and l: "lookup (root s') t = Some (File rd (Text requirements_txt))"
      by blast
    from resolve_two [OF t pn] obtain es where tt: "t = ?t"
      and es: "lookup (root s) (cwd s @ [''code'']) = Some (Dir es)"
      by blast
    from nd l tt es sub [OF es] run show ?thesis
      by (auto simp: cell_requirements_def)
  qed
  have returns: "fst (cell_requirements s) = Inr ()"
    if es: "lookup (root s) (cwd s @ [''code'']) = Some (Dir es)"
      and nd: "\<forall>ds. map_of es ''requirements.txt'' \<noteq> Some (Dir ds)"
        "map_of es ''requirements.txt'' \<noteq> Some Socket" for es
  proof -
    let ?new = "File (case lookup (root s) ?t of Some (File r _) \<Rightarrow> r | _ \<Rightarrow> True)
                  (Text requirements_txt)"
    from lookup_put_child [OF es, of "''requirements.txt''" ?new]
    have "put (root s) ?t ?new \<noteq> None" by auto
    from write_file_returns [OF resolve_two_ok [OF es pn] _ _ this refl] nd sub [OF es]
    show ?thesis by (simp add: cell_requirements_def)
  qed
  from content returns show ?thesis
    by (auto simp: requirements_txt_def pin_of_def)
qed

theorem requirements_manifest_witness:
  "lookup (root stale_kernel) [''home'', ''notebook'', ''code'', ''requirements.txt''] =
     Some (File True (Text [''transformers==4.0.0''])) \<and>
   fst (cell_requirements stale_kernel) = Inr () \<and>
   (\<exists>rd. lookup (root (snd (cell_requirements stale_kernel)))
           [''home'', ''notebook'', ''code'', ''requirements.txt''] =
         Some (File rd (Text [''accelerate==0.16.0'', ''transformers==4.26.0'', ''bitsandbytes==0.37.0''])))"
proof -
  have c: "cwd stale_kernel = [''home'', ''notebook'']"
    and l: "lookup (root stale_kernel) [''home'', ''notebook'', ''code''] =
      Some (Dir [(''requirements.txt'', File True (Text [''transformers==4.0.0'']))])"
    by (simp_all add: stale_kernel_def)
  from l have old: "lookup (root stale_kernel) [''home'', ''notebook'', ''code'', ''requirements.txt''] =
     Some (File True (Text [''transformers==4.0.0'']))"
    by (simp add: stale_kernel_def)
  from requirements_manifest [of stale_kernel] c l old show ?thesis
    by simp
qed

text \<open>
  Claim C7. A run of all cells from the top that completes performs exactly these
  operations, in this order: the installation; the session, its bucket, the role
  resolution (with the fallback when it raised a \<^verbatim>\<open>ValueError\<close>) and the session on that
  bucket; the directory \<^verbatim>\<open>code\<close> and the two files written into it; the model directory,
  the download into a temporary directory and the copy into the model directory; the copy
  of \<^verbatim>\<open>code\<close> into it; the compression, which adds each listed item between opening and
  closing the archive; the upload; the model and its deployment; the two prediction
  requests; the deletion of the model and of the endpoint. Read as steps of the
  specification, these are its nine steps in its order.
\<close>

theorem notebook_steps_in_order:
  assumes "notebook env s = (Inr u, s')"
  shows "\<exists>new sess0 bucket0 rr fb sess tmpdir snapshot_dir parent_dir items bucket uri role
        huggingface_model predictor.
     events s' = events s @ new \<and>
     new =
       [(PipInstall [''sagemaker==2.116.0'', ''huggingface_hub==0.12.0'', ''--upgrade'', ''--quiet''], None),
        (SessionNew None, None), (DefaultBucket sess0, None), (GetExecutionRole, rr)] @ fb @
       [(SessionNew (Some bucket0), None), (DefaultBucket sess, None),
        (ShellMkdir (RelPath [''code'']), None),
        (WriteFile (RelPath [''code'', ''requirements.txt'']), None),
        (WriteFile (RelPath [''code'', ''inference.py'']), None),
        (PathMkdir model_tar_dir, None), (TemporaryDirectoryNew, None),
        (SnapshotDownload HF_MODEL_ID tmpdir, None), (CopyTree snapshot_dir model_tar_dir, None),
        (TemporaryDirectoryCleanup tmpdir, None),
        (CopyTree (RelPath [''code'', []]) (path_join model_tar_dir (RelPath [''code''])), None),
        (OsGetcwd, None), (OsChdir model_tar_dir, None),
        (TarfileOpen (path_join parent_dir (RelPath [''model.tar.gz''])) ''w:gz'', None),
        (OsListdir (RelPath [''.'']), None)] @
       map (\<lambda>item. (TarAdd (RelPath [item]) item, None)) items @
       [(TarClose, None), (OsChdir parent_dir, None),
        (DefaultBucket sess, None),
        (S3Upload (RelPath [''model.tar.gz'']) (''s3://'' @ bucket @ ''/flan-t5-xxl''), None),
        (HuggingFaceModelNew uri role ''4.17'' ''1.10'' ''py38'', None),
        (Deploy huggingface_model 1 ''ml.g5.xlarge'', None),
        (Predict predictor payload_summarize, None),
        (Predict predictor payload_question, None),
        (DeleteModel predictor, None), (DeleteEndpoint predictor, None)] \<and>
     (rr = None \<and> fb = [] \<or>
      (\<exists>e iam. rr = Some e \<and> isinstance e ''ValueError'' \<and>
         fb = [(Boto3Client ''iam'', None), (IamGetRole iam ''sagemaker_execution_role'', None)])) \<and>
     remdups_adj (steps_of new) =
       [StepCredentials, StepWriteFiles, StepDownload, StepCopyHandler, StepCompress,
        StepUpload, StepDeploy, StepPredict, StepDelete]"
proof -
  from assms obtain s1 role sess s2 s3 s4 s5 s6 s7 s8 uri s9 predictor s10 j1 s11 j2 s12 where
    c1: "cell_install env s = (Inr (), s1)"
    and c2: "cell_credentials env s1 = (Inr (role, sess), s2)"
    and c3: "cell_mkdir_code s2 = (Inr (), s3)"
    and c4: "cell_requirements s3 = (Inr (), s4)"
    and c5: "cell_inference s4 = (Inr (), s5)"
    and c6: "cell_download env s5 = (Inr (), s6)"
    and c7: "cell_copy_code env s6 = (Inr (), s7)"
    and c8: "cell_compress s7 = (Inr (), s8)"
    and c9: "cell_upload env sess s8 = (Inr uri, s9)"
    and c10: "cell_deploy env uri role s9 = (Inr predictor, s10)"
    and c11: "cell_predict env predictor payload_summarize s10 = (Inr j1, s11)"
    and c12: "cell_predict env predictor payload_question s11 = (Inr j2, s12)"
    and c13: "cell_delete env predictor s12 = (Inr u, s')"
    unfolding notebook_def by (auto dest!: bind_eq_InrD)
  from cell_credentials_events [OF c2] obtain sess0 bucket0 rr fb where
    e2: "events s2 = events s1 @
       [(SessionNew None, None), (DefaultBucket sess0, None), (GetExecutionRole, rr)] @ fb @
       [(SessionNew (Some bucket0), None), (DefaultBucket sess, None)]"
    and fb: "rr = None \<and> fb = [] \<or>
      (\<exists>e iam. rr = Some e \<and> isinstance e ''ValueError'' \<and>
         fb = [(Boto3Client ''iam'', None), (IamGetRole iam ''sagemaker_execution_role'', None)])"
    by blast
  from cell_download_events [OF c6] obtain tmpdir snapshot_dir where
    e6: "events s6 = events s5 @
       [(PathMkdir model_tar_dir, None), (TemporaryDirectoryNew, None),
        (SnapshotDownload HF_MODEL_ID tmpdir, None), (CopyTree snapshot_dir model_tar_dir, None),
        (TemporaryDirectoryCleanup tmpdir, None)]"
    by blast
  from compress_events [OF c8 [unfolded cell_compress_def]] obtain parent_dir items where
    e8: "events s8 = events s7 @
       [(OsGetcwd, None), (OsChdir model_tar_dir, None),
        (TarfileOpen (path_join parent_dir (RelPath [''model.tar.gz''])) ''w:gz'', None),
        (OsListdir (RelPath [''.'']), None)] @
       map (\<lambda>item. (TarAdd (RelPath [item]) item, None)) items @
       [(TarClose, None), (OsChdir parent_dir, None)]"
    by blast
  from cell_upload_events [OF c9] obtain bucket where
    e9: "events s9 = events s8 @
       [(DefaultBucket sess, None),
        (S3Upload (RelPath [''model.tar.gz'']) (''s3://'' @ bucket @ ''/flan-t5-xxl''), None)]"
    by blast
  from cell_deploy_events [OF c10] obtain huggingface_model where
    e10: "events s10 = events s9 @
       [(HuggingFaceModelNew uri role ''4.17'' ''1.10'' ''py38'', None),
        (Deploy huggingface_model 1 ''ml.g5.xlarge'', None)]"
    by blast
  let ?new = "[(PipInstall [''sagemaker==2.116.0'', ''huggingface_hub==0.12.0'', ''--upgrade'', ''--quiet''], None),
        (SessionNew None, None), (DefaultBucket sess0, None), (GetExecutionRole, rr)] @ fb @
       [(SessionNew (Some bucket0), None), (DefaultBucket sess, None),
        (ShellMkdir (RelPath [''code'']), None),
        (WriteFile (RelPath [''code'', ''requirements.txt'']), None),
        (WriteFile (RelPath [''code'', ''inference.py'']), None),
        (PathMkdir model_tar_dir, None), (TemporaryDirectoryNew, None),
        (SnapshotDownload HF_MODEL_ID tmpdir, None), (CopyTree snapshot_dir model_tar_dir, None),
        (TemporaryDirectoryCleanup tmpdir, None),
        (CopyTree (RelPath [''code'', []]) (path_join model_tar_dir (RelPath [''code''])), None),
        (OsGetcwd, None), (OsChdir model_tar_dir, None),
        (TarfileOpen (path_join parent_dir (RelPath [''model.tar.gz''])) ''w:gz'', None),
        (OsListdir (RelPath [''.'']), None)] @
       map (\<lambda>item. (TarAdd (RelPath [item]) item, None)) items @
       [(TarClose, None), (OsChdir parent_dir, None),
        (DefaultBucket sess, None),
        (S3Upload (RelPath [''model.tar.gz'']) (''s3://'' @ bucket @ ''/flan-t5-xxl''), None),
        (HuggingFaceModelNew uri role ''4.17'' ''1.10'' ''py38'', None),
        (Deploy huggingface_model 1 ''ml.g5.xlarge'', None),
        (Predict predictor payload_summarize, None),
        (Predict predictor payload_question, None),
        (DeleteModel predictor, None), (DeleteEndpoint predictor, None)]"
  have ev: "events s' = events s @ ?new"
    using cell_install_events [OF c1] e2
      singleD [OF single_shell_mkdir c3 [unfolded cell_mkdir_code_def]]
      singleD [OF single_write_file c4 [unfolded cell_requirements_def]]
      singleD [OF single_write_file c5 [unfolded cell_inference_def]]
      e6 singleD [OF single_copy_tree_call c7 [unfolded cell_copy_code_def]]
      e8 e9 e10 call_InrD [OF c11 [unfolded cell_predict_def]]
      call_InrD [OF c12 [unfolded cell_predict_def]] cell_delete_events [OF c13]
    by simp
  from notebook_step_classes [OF assms] obtain new' where
    "events s' = events s @ new'" and st: "remdups_adj (steps_of new') =
       [StepCredentials, StepWriteFiles, StepDownload, StepCopyHandler, StepCompress,
        StepUpload, StepDeploy, StepPredict, StepDelete]"
    by blast
  with ev have "new' = ?new" by simp
  with st have "remdups_adj (steps_of ?new) =
       [StepCredentials, StepWriteFiles, StepDownload, StepCopyHandler, StepCompress,
        StepUpload, StepDeploy, StepPredict, StepDelete]"
    by simp
  with ev fb show ?thesis by blast
qed

theorem notebook_steps_in_order_witness:
  "fst (notebook (standin_env (Inl ValueError)) fresh_kernel) = Inr () \<and>
   events (snd (notebook (standin_env (Inl ValueError)) fresh_kernel)) =
     [(PipInstall [''sagemaker==2.116.0'', ''huggingface_hub==0.12.0'', ''--upgrade'', ''--quiet''], None),
      (SessionNew None, None),
      (DefaultBucket 1, None),
      (GetExecutionRole, Some ValueError),
      (Boto3Client ''iam'', None),
      (IamGetRole 2 ''sagemaker_execution_role'', None),
      (SessionNew (Some ''sagemaker-us-east-1-123456789012''), None),
      (DefaultBucket 1, None),
      (ShellMkdir (RelPath [''code'']), None),
      (WriteFile (RelPath [''code'', ''requirements.txt'']), None),
      (WriteFile (RelPath [''code'', ''inference.py'']), None),
      (PathMkdir (RelPath [''flan-t5-xxl-sharded-fp16'']), None),
      (TemporaryDirectoryNew, None),
      (SnapshotDownload ''philschmid/flan-t5-xxl-sharded-fp16'' (AbsPath [''tmp'']), None),
      (CopyTree (AbsPath [''tmp'', ''snapshot'']) (RelPath [''flan-t5-xxl-sharded-fp16'']), None),
      (TemporaryDirectoryCleanup (AbsPath [''tmp'']), None),
      (CopyTree (RelPath [''code'', []]) (RelPath [''flan-t5-xxl-sharded-fp16'', ''code'']), None),
      (OsGetcwd, None),
      (OsChdir (RelPath [''flan-t5-xxl-sharded-fp16'']), None),
      (TarfileOpen (AbsPath [''home'', ''notebook'', ''model.tar.gz'']) ''w:gz'', None),
      (OsListdir (RelPath [''.'']), None),
      (TarAdd (RelPath [''config.json'']) ''config.json'', None),
      (TarAdd (RelPath [''pytorch_model-00001-of-00012.bin'']) ''pytorch_model-00001-of-00012.bin'', None),
      (TarAdd (RelPath [''tokenizer.json'']) ''tokenizer.json'', None),
      (TarAdd (RelPath [''code'']) ''code'', None),
      (TarClose, None),
      (OsChdir (AbsPath [''home'', ''notebook'']), None),
      (DefaultBucket 1, None),
      (S3Upload (RelPath [''model.tar.gz'']) ''s3://sagemaker-us-east-1-123456789012/flan-t5-xxl'', None),
      (HuggingFaceModelNew ''s3://sagemaker-us-east-1-123456789012/flan-t5-xxl/model.tar.gz''
         ''arn:aws:iam::123456789012:role/sagemaker_execution_role'' ''4.17'' ''1.10'' ''py38'', None),
      (Deploy 3 1 ''ml.g5.xlarge'', None),
      (Predict 4 payload_summarize, None),
      (Predict 4 payload_question, None),
      (DeleteModel 4, None),
      (DeleteEndpoint 4, None)] \<and>
   remdups_adj (steps_of (events (snd (notebook (standin_env (Inl ValueError)) fresh_kernel)))) =
     [StepCredentials, StepWriteFiles, StepDownload, StepCopyHandler, StepCompress,
      StepUpload, StepDeploy, StepPredict, StepDelete]"
proof -
  from notebook_fallback_run obtain s' where
    run: "notebook (standin_env (Inl ValueError)) fresh_kernel = (Inr (), s')"
    and ev: "events s' =
     [(PipInstall [''sagemaker==2.116.0'', ''huggingface_hub==0.12.0'', ''--upgrade'', ''--quiet''], None),
      (SessionNew None, None),
      (DefaultBucket 1, None),
      (GetExecutionRole, Some ValueError),
      (Boto3Client ''iam'', None),
      (IamGetRole 2 ''sagemaker_execution_role'', None),
      (SessionNew (Some ''sagemaker-us-east-1-123456789012''), None),
      (DefaultBucket 1, None),
      (ShellMkdir (RelPath [''code'']), None),
      (WriteFile (RelPath [''code'', ''requirements.txt'']), None),
      (WriteFile (RelPath [''code'', ''inference.py'']), None),
      (PathMkdir (RelPath [''flan-t5-xxl-sharded-fp16'']), None),
      (TemporaryDirectoryNew, None),
      (SnapshotDownload ''philschmid/flan-t5-xxl-sharded-fp16'' (AbsPath [''tmp'']), None),
      (CopyTree (AbsPath [''tmp'', ''snapshot'']) (RelPath [''flan-t5-xxl-sharded-fp16'']), None),
      (TemporaryDirectoryCleanup (AbsPath [''tmp'']), None),
      (CopyTree (RelPath [''code'', []]) (RelPath [''flan-t5-xxl-sharded-fp16'', ''code'']), None),
      (OsGetcwd, None),
      (OsChdir (RelPath [''flan-t5-xxl-sharded-fp16'']), None),
      (TarfileOpen (AbsPath [''home'', ''notebook'', ''model.tar.gz'']) ''w:gz'', None),
      (OsListdir (RelPath [''.'']), None),
      (TarAdd (RelPath [''config.json'']) ''config.json'', None),
      (TarAdd (RelPath [''pytorch_model-00001-of-00012.bin'']) ''pytorch_model-00001-of-00012.bin'', None),
      (TarAdd (RelPath [''tokenizer.json'']) ''tokenizer.json'', None),
      (TarAdd (RelPath [''code'']) ''code'', None),
      (TarClose, None),
      (OsChdir (AbsPath [''home'', ''notebook'']), None),
      (DefaultBucket 1, None),
      (S3Upload (RelPath [''model.tar.gz'']) ''s3://sagemaker-us-east-1-123456789012/flan-t5-xxl'', None),
      (HuggingFaceModelNew ''s3://sagemaker-us-east-1-123456789012/flan-t5-xxl/model.tar.gz''
         ''arn:aws:iam::123456789012:role/sagemaker_execution_role'' ''4.17'' ''1.10'' ''py38'', None),
      (Deploy 3 1 ''ml.g5.xlarge'', None),
      (Predict 4 payload_summarize, None),
      (Predict 4 payload_question, None),
      (DeleteModel 4, None),
      (DeleteEndpoint 4, None)]"
    by blast
  have e0: "events fresh_kernel = []"
    by (simp add: fresh_kernel_def)
  from notebook_steps_in_order [OF run] obtain new where
    "events s' = events fresh_kernel @ new"
    and "remdups_adj (steps_of new) =
       [StepCredentials, StepWriteFiles, StepDownload, StepCopyHandler, StepCompress,
        StepUpload, StepDeploy, StepPredict, StepDelete]"
    by blast
  with e0 have "remdups_adj (steps_of (events s')) =
       [StepCredentials, StepWriteFiles, StepDownload, StepCopyHandler, StepCompress,
        StepUpload, StepDeploy, StepPredict, StepDelete]"
    by simp
  with ev show ?thesis by (simp add: run)
qed

end
